theory Spec2Isabelle
  imports Main "HOL-Library.Multiset" "HOL-Library.List_Lexorder" "HOL-Library.Char_ord"
begin

section \<open>Conventions of the embedding\<close>

text \<open>
  The development models the term-finding pipeline of the translator class
  (\<^verbatim>\<open>Translator\<close>, in \<^verbatim>\<open>src/unnamed/part_001\<close>).

  \<^item> A JavaScript string is a sequence of UTF-16 code units. It is modelled by a HOL
    \<^typ>\<open>string\<close> whose elements stand for the code units: only equality and
    \<^verbatim>\<open>.length\<close> of strings are used by the functions modelled here.
  \<^item> JavaScript numbers that hold scores, priorities, indices, identifiers and
    frequencies are modelled by \<^typ>\<open>int\<close>; array lengths by \<^typ>\<open>nat\<close>.
    Fractional values and NaN are outside the model.
  \<^item> A JavaScript object or \<^verbatim>\<open>Map\<close> whose keys are iterated in insertion order is an
    association list.
  \<^item> Field names are the source's, with a short prefix for the record they belong to.
\<close>

section \<open>Text variants for algorithm deinflection\<close>

type_synonym textReplacement = "string \<times> string"

text \<open>The value an axis of the variant space contributes to one variant.\<close>

datatype variantValue =
    TextReplacements "textReplacement list option"
  | CollapseEmphatic bool bool
  | Flag bool

text \<open>\<^verbatim>\<open>_getTextOptionEntryVariants\<close>: a \<^verbatim>\<open>switch\<close> over the setting string.\<close>

definition getTextOptionEntryVariants :: "string \<Rightarrow> bool list" where
  "getTextOptionEntryVariants v =
     (if v = ''true'' then [True]
      else if v = ''variant'' then [False, True]
      else [False])"

text \<open>\<^verbatim>\<open>_getCollapseEmphaticOptions\<close>: the list starts with \<^verbatim>\<open>[false, false]\<close>; the settings
  \<^verbatim>\<open>'true'\<close> and \<^verbatim>\<open>'full'\<close> push further pairs.\<close>

definition getCollapseEmphaticOptions :: "string \<Rightarrow> (bool \<times> bool) list" where
  "getCollapseEmphaticOptions collapseEmphaticSequences =
     [(False, False)] @
     (if collapseEmphaticSequences = ''true'' then [(True, False)]
      else if collapseEmphaticSequences = ''full'' then [(True, False), (True, True)]
      else [])"

text \<open>Assignment \<^verbatim>\<open>obj[key] = v\<close> on an object: an existing key keeps its place.\<close>

fun objectSet :: "'k \<Rightarrow> 'v \<Rightarrow> ('k \<times> 'v) list \<Rightarrow> ('k \<times> 'v) list" where
  "objectSet k v [] = [(k, v)]"
| "objectSet k v ((k', v') # kvs) =
     (if k' = k then (k, v) # kvs else (k', v') # objectSet k v kvs)"

text \<open>The variant space built at the head of \<^verbatim>\<open>_getAlgorithmDeinflections\<close>: the two fixed
  axes, then one axis per configured text transformation (the spread of
  \<^verbatim>\<open>textTransformationsVectorSpace\<close>). The argument \<open>textTransformationsOptions\<close> lists the
  transformation ids with their settings, in the order of \<^verbatim>\<open>Object.entries\<close>.\<close>

definition variantVectorSpace ::
  "textReplacement list option list \<Rightarrow> string \<Rightarrow> (string \<times> string) list
     \<Rightarrow> (string \<times> variantValue list) list" where
  "variantVectorSpace textReplacements collapseEmphaticSequences textTransformationsOptions =
     fold (\<lambda>(key, setting). objectSet key (map Flag (getTextOptionEntryVariants setting)))
       textTransformationsOptions
       [(''textReplacements'', map TextReplacements textReplacements),
        (''collapseEmphaticOptions'',
           map (\<lambda>(collapseEmphatic, collapseEmphaticFull).
                  CollapseEmphatic collapseEmphatic collapseEmphaticFull)
             (getCollapseEmphaticOptions collapseEmphaticSequences))]"

text \<open>The inner loop of \<^verbatim>\<open>_generateArrayVariants\<close>: the variant with a given index, read as a
  mixed-radix number whose least significant digit is the first axis.\<close>

fun variantAt :: "('k \<times> 'v list) list \<Rightarrow> nat \<Rightarrow> ('k \<times> 'v) list" where
  "variantAt [] remainingIndex = []"
| "variantAt ((key, entryVariants) # rest) remainingIndex =
     (key, entryVariants ! (remainingIndex mod length entryVariants))
       # variantAt rest (remainingIndex div length entryVariants)"

definition totalVariants :: "('k \<times> 'v list) list \<Rightarrow> nat" where
  "totalVariants space = foldl (\<lambda>acc len. acc * len) 1 (map (\<lambda>(key, vs). length vs) space)"

text \<open>\<^verbatim>\<open>_generateArrayVariants\<close>: the generator, as the list of the variants it yields.\<close>

definition generateArrayVariants :: "('k \<times> 'v list) list \<Rightarrow> ('k \<times> 'v) list list" where
  "generateArrayVariants space = map (variantAt space) [0..<totalVariants space]"


section \<open>Data model of the term finder\<close>

datatype deinflectionSource = Algorithm | Dictionary | Both

record inflectionHypothesis =
  ih_source :: deinflectionSource
  ih_inflections :: "string list"

datatype matchType = Exact | Prefix | Suffix

datatype matchSource = MatchTerm | MatchReading

record source =
  src_originalText :: string
  src_transformedText :: string
  src_deinflectedText :: string
  src_matchType :: matchType
  src_matchSource :: matchSource
  src_isPrimary :: bool

record tagGroup =
  tg_dictionary :: string
  tg_tagNames :: "string list"

record tag =
  tag_name :: string
  tag_category :: string
  tag_order :: int
  tag_score :: int
  tag_content :: "string list"
  tag_dictionaries :: "string list"
  tag_redundant :: bool

text \<open>
  The field \<^verbatim>\<open>tags\<close> of a headword, a definition, a pitch or a phonetic transcription holds
  tag groups (dictionary and tag names) until the tags are expanded or cleared, and tags
  afterwards. The records take the element type of that field as the parameter \<open>'t\<close>: it is
  \<^typ>\<open>tagGroup\<close> before and \<^typ>\<open>tag\<close> after. The parameter \<open>'h\<close> of an entry is the type of
  its inflection hypotheses: the functions that only pass the list on or read its length
  are polymorphic in it.
\<close>

record 't termHeadword =
  hw_index :: nat
  hw_term :: string
  hw_reading :: string
  hw_sources :: "source list"
  hw_tags :: "'t list"
  hw_wordClasses :: "string list"

record 't termDefinition =
  def_index :: nat
  def_headwordIndices :: "nat list"
  def_dictionary :: string
  def_dictionaryIndex :: int
  def_dictionaryPriority :: int
  def_id :: int
  def_score :: int
  def_frequencyOrder :: int
  def_sequences :: "int list"
  def_isPrimary :: bool
  def_tags :: "'t list"
  def_entries :: "string list"

record termFrequency =
  fr_index :: nat
  fr_headwordIndex :: nat
  fr_dictionary :: string
  fr_dictionaryIndex :: int
  fr_dictionaryPriority :: int
  fr_hasReading :: bool
  fr_frequency :: int
  fr_displayValue :: "string option"
  fr_displayValueParsed :: bool

record 't pitch =
  pi_position :: int
  pi_nasalPositions :: "int list"
  pi_devoicePositions :: "int list"
  pi_tags :: "'t list"

record 't phoneticTranscription =
  pt_ipa :: string
  pt_tags :: "'t list"

record 't termPronunciation =
  pr_index :: nat
  pr_headwordIndex :: nat
  pr_dictionary :: string
  pr_dictionaryIndex :: int
  pr_dictionaryPriority :: int
  pr_pitches :: "'t pitch list"
  pr_phoneticTranscriptions :: "'t phoneticTranscription list"

record ('h, 't) termDictionaryEntry =
  isPrimary :: bool
  inflectionHypotheses :: "'h list"
  score :: int
  frequencyOrder :: int
  dictionaryIndex :: int
  dictionaryPriority :: int
  sourceTermExactMatchCount :: nat
  maxTransformedTextLength :: nat
  headwords :: "'t termHeadword list"
  definitions :: "'t termDefinition list"
  pronunciations :: "'t termPronunciation list"
  frequencies :: "termFrequency list"

record databaseEntry =
  dbe_id :: int
  dbe_index :: nat
  dbe_term :: string
  dbe_reading :: string
  dbe_definitionTags :: "string list"
  dbe_termTags :: "string list"
  dbe_definitions :: "string list"
  dbe_score :: int
  dbe_dictionary :: string
  dbe_sequence :: int
  dbe_rules :: "string list"
  dbe_matchType :: matchType
  dbe_matchSource :: matchSource

record dictionaryDetails =
  dd_index :: int
  dd_priority :: int
  dd_allowSecondarySearches :: bool

type_synonym enabledDictionaryMap = "(string \<times> dictionaryDetails) list"

definition MAX_SAFE_INTEGER :: int where
  "MAX_SAFE_INTEGER = 9007199254740991"

definition MIN_SAFE_INTEGER :: int where
  "MIN_SAFE_INTEGER = - 9007199254740991"

text \<open>What a function of the model answers where the JavaScript goes wrong:
  \<open>TypeError\<close> where a property of \<^verbatim>\<open>undefined\<close> is read (an exception), and
  \<open>UndefinedValue\<close> where an array is read out of range and the \<^verbatim>\<open>undefined\<close> it gives
  would be stored as a headword index, which leaves the data model.\<close>

datatype error = TypeError | UndefinedValue

section \<open>Entry assembler\<close>

text \<open>\<^verbatim>\<open>_getDictionaryOrder\<close>: a dictionary that is not enabled gets the size of the map as its
  index and priority 0.\<close>

definition getDictionaryOrder :: "string \<Rightarrow> enabledDictionaryMap \<Rightarrow> int \<times> int" where
  "getDictionaryOrder dictionary enabledDictionaryMap =
     (case map_of enabledDictionaryMap dictionary of
        Some info \<Rightarrow> (dd_index info, dd_priority info)
      | None \<Rightarrow> (int (length enabledDictionaryMap), 0))"

definition createTagGroup :: "string \<Rightarrow> string list \<Rightarrow> tagGroup" where
  "createTagGroup dictionary tagNames = \<lparr>tg_dictionary = dictionary, tg_tagNames = tagNames\<rparr>"

definition createSource ::
  "string \<Rightarrow> string \<Rightarrow> string \<Rightarrow> matchType \<Rightarrow> matchSource \<Rightarrow> bool \<Rightarrow> source" where
  "createSource originalText transformedText deinflectedText mType mSource primary =
     \<lparr>src_originalText = originalText, src_transformedText = transformedText,
      src_deinflectedText = deinflectedText, src_matchType = mType,
      src_matchSource = mSource, src_isPrimary = primary\<rparr>"

definition createTermHeadword ::
  "nat \<Rightarrow> string \<Rightarrow> string \<Rightarrow> source list \<Rightarrow> 't list \<Rightarrow> string list \<Rightarrow> 't termHeadword" where
  "createTermHeadword index trm reading sources tags wordClasses =
     \<lparr>hw_index = index, hw_term = trm, hw_reading = reading, hw_sources = sources,
      hw_tags = tags, hw_wordClasses = wordClasses\<rparr>"

definition createTermDefinition ::
  "nat \<Rightarrow> nat list \<Rightarrow> string \<Rightarrow> int \<Rightarrow> int \<Rightarrow> int \<Rightarrow> int \<Rightarrow> int list \<Rightarrow> bool \<Rightarrow> 't list
     \<Rightarrow> string list \<Rightarrow> 't termDefinition" where
  "createTermDefinition index headwordIndices dictionary dictIndex dictPriority ident scr
       sequences primary tags entries =
     \<lparr>def_index = index, def_headwordIndices = headwordIndices, def_dictionary = dictionary,
      def_dictionaryIndex = dictIndex, def_dictionaryPriority = dictPriority, def_id = ident,
      def_score = scr, def_frequencyOrder = 0, def_sequences = sequences,
      def_isPrimary = primary, def_tags = tags, def_entries = entries\<rparr>"

definition createTermDictionaryEntry ::
  "bool \<Rightarrow> 'h list \<Rightarrow> int \<Rightarrow> int \<Rightarrow> int \<Rightarrow> nat \<Rightarrow> nat \<Rightarrow> 't termHeadword list
     \<Rightarrow> 't termDefinition list \<Rightarrow> ('h, 't) termDictionaryEntry" where
  "createTermDictionaryEntry primary hypotheses scr dictIndex dictPriority exactMatchCount
       maxLength hws defs =
     \<lparr>isPrimary = primary, inflectionHypotheses = hypotheses, score = scr, frequencyOrder = 0,
      dictionaryIndex = dictIndex, dictionaryPriority = dictPriority,
      sourceTermExactMatchCount = exactMatchCount, maxTransformedTextLength = maxLength,
      headwords = hws, definitions = defs, pronunciations = [], frequencies = []\<rparr>"

text \<open>\<^verbatim>\<open>_createTermDictionaryEntryFromDatabaseEntry\<close>: one headword, one definition.\<close>

definition createTermDictionaryEntryFromDatabaseEntry ::
  "databaseEntry \<Rightarrow> string \<Rightarrow> string \<Rightarrow> string \<Rightarrow> 'h list \<Rightarrow> bool \<Rightarrow> enabledDictionaryMap
     \<Rightarrow> ('h, tagGroup) termDictionaryEntry" where
  "createTermDictionaryEntryFromDatabaseEntry databaseEntry originalText transformedText
       deinflectedText reasons primary enabledDictionaryMap =
     (let trm = dbe_term databaseEntry;
          rawReading = dbe_reading databaseEntry;
          dictionary = dbe_dictionary databaseEntry;
          reading = (if length rawReading > 0 then rawReading else trm);
          (dictIndex, dictPriority) = getDictionaryOrder dictionary enabledDictionaryMap;
          exactMatchCount = (if primary \<and> deinflectedText = trm then 1 else 0);
          src = createSource originalText transformedText deinflectedText
                  (dbe_matchType databaseEntry) (dbe_matchSource databaseEntry) primary;
          maxLength = length transformedText;
          hasSequence = (dbe_sequence databaseEntry \<ge> 0);
          sequence = (if hasSequence then dbe_sequence databaseEntry else - 1);
          headwordTagGroups =
            (if length (dbe_termTags databaseEntry) > 0
             then [createTagGroup dictionary (dbe_termTags databaseEntry)] else []);
          definitionTagGroups =
            (if length (dbe_definitionTags databaseEntry) > 0
             then [createTagGroup dictionary (dbe_definitionTags databaseEntry)] else [])
      in createTermDictionaryEntry primary reasons (dbe_score databaseEntry) dictIndex
           dictPriority exactMatchCount maxLength
           [createTermHeadword 0 trm reading [src] headwordTagGroups (dbe_rules databaseEntry)]
           [createTermDefinition 0 [0] dictionary dictIndex dictPriority (dbe_id databaseEntry)
              (dbe_score databaseEntry) [sequence] primary definitionTagGroups
              (dbe_definitions databaseEntry)])"

section \<open>Entry grouper: the fold\<close>

text \<open>\<^verbatim>\<open>_addUniqueSimple\<close>: push the new items the list does not hold yet.\<close>

fun addUniqueSimple :: "'a list \<Rightarrow> 'a list \<Rightarrow> 'a list" where
  "addUniqueSimple list [] = list"
| "addUniqueSimple list (item # newItems) =
     addUniqueSimple (if item \<in> set list then list else list @ [item]) newItems"

text \<open>The inner loop of \<^verbatim>\<open>_addUniqueSources\<close> for one new source: the first source that
  agrees on the five compared fields becomes primary when the new one is; with no such
  source the new one is pushed.\<close>

definition sameSource :: "source \<Rightarrow> source \<Rightarrow> bool" where
  "sameSource src newSource \<longleftrightarrow>
     src_deinflectedText src = src_deinflectedText newSource \<and>
     src_transformedText src = src_transformedText newSource \<and>
     src_originalText src = src_originalText newSource \<and>
     src_matchType src = src_matchType newSource \<and>
     src_matchSource src = src_matchSource newSource"

fun addUniqueSource :: "source list \<Rightarrow> source \<Rightarrow> source list" where
  "addUniqueSource [] newSource = [newSource]"
| "addUniqueSource (src # sources) newSource =
     (if sameSource src newSource
      then (if src_isPrimary newSource then src\<lparr>src_isPrimary := True\<rparr> else src) # sources
      else src # addUniqueSource sources newSource)"

definition addUniqueSources :: "source list \<Rightarrow> source list \<Rightarrow> source list" where
  "addUniqueSources sources newSources =
     (if length newSources = 0 then sources
      else if length sources = 0 then newSources
      else foldl addUniqueSource sources newSources)"

text \<open>\<^verbatim>\<open>_addUniqueTagGroups\<close>: the tag names of a new group go into the first group of the
  same dictionary; a group of a dictionary not seen yet is pushed.\<close>

fun addUniqueTagGroup :: "tagGroup list \<Rightarrow> tagGroup \<Rightarrow> tagGroup list" where
  "addUniqueTagGroup [] newTagGroup = [newTagGroup]"
| "addUniqueTagGroup (g # tagGroups) newTagGroup =
     (if tg_dictionary g = tg_dictionary newTagGroup
      then g\<lparr>tg_tagNames := addUniqueSimple (tg_tagNames g) (tg_tagNames newTagGroup)\<rparr>
             # tagGroups
      else g # addUniqueTagGroup tagGroups newTagGroup)"

definition addUniqueTagGroups :: "tagGroup list \<Rightarrow> tagGroup list \<Rightarrow> tagGroup list" where
  "addUniqueTagGroups tagGroups newTagGroups = foldl addUniqueTagGroup tagGroups newTagGroups"

text \<open>\<^verbatim>\<open>_addTermHeadwords\<close>. The map of headwords, keyed by the JSON text of
  \<^verbatim>\<open>[term, reading]\<close>, is the list of its values in insertion order; the key of a headword is
  the pair of its term and reading. The second component is \<^verbatim>\<open>headwordIndexMap\<close>.\<close>

definition sameHeadword :: "string \<Rightarrow> string \<Rightarrow> 't termHeadword \<Rightarrow> bool" where
  "sameHeadword trm reading h \<longleftrightarrow> hw_term h = trm \<and> hw_reading h = reading"

fun findPosition :: "('a \<Rightarrow> bool) \<Rightarrow> 'a list \<Rightarrow> nat option" where
  "findPosition P [] = None"
| "findPosition P (x # xs) =
     (if P x then Some 0 else map_option Suc (findPosition P xs))"

definition addTermHeadword ::
  "tagGroup termHeadword list \<Rightarrow> tagGroup termHeadword
     \<Rightarrow> tagGroup termHeadword list \<times> nat" where
  "addTermHeadword headwordsMap new =
     (let (headwordsMap1, position) =
            (case findPosition (sameHeadword (hw_term new) (hw_reading new)) headwordsMap of
               Some p \<Rightarrow> (headwordsMap, p)
             | None \<Rightarrow>
                 (headwordsMap @ [createTermHeadword (length headwordsMap) (hw_term new)
                                    (hw_reading new) [] [] []],
                  length headwordsMap));
          headword = headwordsMap1 ! position;
          headword1 = headword
            \<lparr>hw_sources := addUniqueSources (hw_sources headword) (hw_sources new),
             hw_tags := addUniqueTagGroups (hw_tags headword) (hw_tags new),
             hw_wordClasses := addUniqueSimple (hw_wordClasses headword) (hw_wordClasses new)\<rparr>
      in (headwordsMap1[position := headword1], hw_index headword1))"

fun addTermHeadwords ::
  "tagGroup termHeadword list \<Rightarrow> tagGroup termHeadword list
     \<Rightarrow> tagGroup termHeadword list \<times> nat list" where
  "addTermHeadwords headwordsMap [] = (headwordsMap, [])"
| "addTermHeadwords headwordsMap (new # rest) =
     (let (headwordsMap1, index) = addTermHeadword headwordsMap new;
          (headwordsMap2, headwordIndexMap) = addTermHeadwords headwordsMap1 rest
      in (headwordsMap2, index # headwordIndexMap))"

text \<open>\<^verbatim>\<open>_addUniqueTermHeadwordIndex\<close>: the binary search over the sorted index list. The search
  answers \<open>None\<close> where the loop returns early (index found) and the final \<^verbatim>\<open>start\<close>
  otherwise.\<close>

function headwordIndexSearch :: "nat list \<Rightarrow> nat \<Rightarrow> nat \<Rightarrow> nat \<Rightarrow> nat option" where
  "headwordIndexSearch headwordIndices headwordIndex start end' =
     (if start < end'
      then (if headwordIndex = headwordIndices ! ((start + end') div 2) then None
            else if headwordIndex > headwordIndices ! ((start + end') div 2)
            then headwordIndexSearch headwordIndices headwordIndex ((start + end') div 2 + 1) end'
            else headwordIndexSearch headwordIndices headwordIndex start ((start + end') div 2))
      else Some start)"
  by pat_completeness auto
termination
  by (relation "measure (\<lambda>(headwordIndices, headwordIndex, start, end'). end' - start)") auto

definition addUniqueTermHeadwordIndex :: "nat list \<Rightarrow> nat \<Rightarrow> nat list" where
  "addUniqueTermHeadwordIndex headwordIndices headwordIndex =
     (if length headwordIndices = 0 then [headwordIndex]
      else (case headwordIndexSearch headwordIndices headwordIndex 0 (length headwordIndices) of
              None \<Rightarrow> headwordIndices
            | Some start \<Rightarrow>
                if start < length headwordIndices \<and> headwordIndex = headwordIndices ! start
                then headwordIndices
                else take start headwordIndices @ headwordIndex # drop start headwordIndices))"

text \<open>The reads \<^verbatim>\<open>headwordIndexMap[headwordIndex]\<close> of the two definition loops. A read out of
  range gives \<^verbatim>\<open>undefined\<close> in JavaScript; the model answers \<open>UndefinedValue\<close>.\<close>

fun remapHeadwordIndices :: "nat list \<Rightarrow> nat list \<Rightarrow> error + nat list" where
  "remapHeadwordIndices headwordIndexMap [] = Inr []"
| "remapHeadwordIndices headwordIndexMap (headwordIndex # rest) =
     (if headwordIndex < length headwordIndexMap
      then (case remapHeadwordIndices headwordIndexMap rest of
              Inl e \<Rightarrow> Inl e
            | Inr remapped \<Rightarrow> Inr (headwordIndexMap ! headwordIndex # remapped))
      else Inl UndefinedValue)"

text \<open>\<^verbatim>\<open>_addTermDefinitionsFast\<close>: every definition is appended with its headword indices
  remapped.\<close>

fun addTermDefinitionsFast ::
  "'t termDefinition list \<Rightarrow> 't termDefinition list \<Rightarrow> nat list
     \<Rightarrow> error + 't termDefinition list" where
  "addTermDefinitionsFast defs [] headwordIndexMap = Inr defs"
| "addTermDefinitionsFast defs (d # newDefinitions) headwordIndexMap =
     (case remapHeadwordIndices headwordIndexMap (def_headwordIndices d) of
        Inl e \<Rightarrow> Inl e
      | Inr headwordIndicesNew \<Rightarrow>
          addTermDefinitionsFast
            (defs @ [createTermDefinition (length defs) headwordIndicesNew (def_dictionary d)
                       (def_dictionaryIndex d) (def_dictionaryPriority d) (def_id d)
                       (def_score d) (def_sequences d) (def_isPrimary d) (def_tags d)
                       (def_entries d)])
            newDefinitions headwordIndexMap)"

text \<open>\<^verbatim>\<open>_addTermDefinitions\<close>. The map of definitions is keyed by the JSON text of
  \<^verbatim>\<open>[dictionary, ...entries]\<close>; every definition of the list was entered under the key of
  its own dictionary and entries, so the lookup is a search of the list for that pair.\<close>

definition sameDefinitionKey :: "string \<Rightarrow> string list \<Rightarrow> 't termDefinition \<Rightarrow> bool" where
  "sameDefinitionKey dictionary entries d \<longleftrightarrow>
     def_dictionary d = dictionary \<and> def_entries d = entries"

definition addTermDefinition ::
  "tagGroup termDefinition list \<Rightarrow> tagGroup termDefinition \<Rightarrow> nat list
     \<Rightarrow> error + tagGroup termDefinition list" where
  "addTermDefinition defs d headwordIndexMap =
     (let (defs1, position) =
            (case findPosition (sameDefinitionKey (def_dictionary d) (def_entries d)) defs of
               None \<Rightarrow>
                 (defs @ [createTermDefinition (length defs) [] (def_dictionary d)
                            (def_dictionaryIndex d) (def_dictionaryPriority d) (def_id d)
                            (def_score d) (def_sequences d) (def_isPrimary d) []
                            (def_entries d)],
                  length defs)
             | Some p \<Rightarrow>
                 (defs[p := (defs ! p)
                    \<lparr>def_isPrimary := (if def_isPrimary d then True else def_isPrimary (defs ! p)),
                     def_sequences := addUniqueSimple (def_sequences (defs ! p)) (def_sequences d)\<rparr>],
                  p))
      in (case remapHeadwordIndices headwordIndexMap (def_headwordIndices d) of
            Inl e \<Rightarrow> Inl e
          | Inr remapped \<Rightarrow>
              Inr (defs1[position := (defs1 ! position)
                     \<lparr>def_headwordIndices :=
                        foldl addUniqueTermHeadwordIndex
                          (def_headwordIndices (defs1 ! position)) remapped,
                      def_tags := addUniqueTagGroups (def_tags (defs1 ! position)) (def_tags d)\<rparr>])))"

fun addTermDefinitions ::
  "tagGroup termDefinition list \<Rightarrow> tagGroup termDefinition list \<Rightarrow> nat list
     \<Rightarrow> error + tagGroup termDefinition list" where
  "addTermDefinitions defs [] headwordIndexMap = Inr defs"
| "addTermDefinitions defs (d # newDefinitions) headwordIndexMap =
     (case addTermDefinition defs d headwordIndexMap of
        Inl e \<Rightarrow> Inl e
      | Inr defs1 \<Rightarrow> addTermDefinitions defs1 newDefinitions headwordIndexMap)"

text \<open>\<^verbatim>\<open>_createGroupedDictionaryEntry\<close>. The first loop shares the headwords and records the
  index map of every entry.\<close>

fun collectHeadwords ::
  "tagGroup termHeadword list \<Rightarrow> ('h, tagGroup) termDictionaryEntry list
     \<Rightarrow> tagGroup termHeadword list \<times> (('h, tagGroup) termDictionaryEntry \<times> nat list) list" where
  "collectHeadwords headwordsMap [] = (headwordsMap, [])"
| "collectHeadwords headwordsMap (dictionaryEntry # rest) =
     (let (headwordsMap1, headwordIndexMap) =
            addTermHeadwords headwordsMap (headwords dictionaryEntry);
          (headwordsMap2, definitionEntries) = collectHeadwords headwordsMap1 rest
      in (headwordsMap2, (dictionaryEntry, headwordIndexMap) # definitionEntries))"

text \<open>The variables of the second loop.\<close>

record 'h groupState =
  gs_score :: int
  gs_dictionaryIndex :: int
  gs_dictionaryPriority :: int
  gs_maxTransformedTextLength :: nat
  gs_isPrimary :: bool
  gs_definitions :: "tagGroup termDefinition list"
  gs_inflectionHypotheses :: "'h list option"

definition initialGroupState :: "'h groupState" where
  "initialGroupState =
     \<lparr>gs_score = MIN_SAFE_INTEGER, gs_dictionaryIndex = MAX_SAFE_INTEGER,
      gs_dictionaryPriority = MIN_SAFE_INTEGER, gs_maxTransformedTextLength = 0,
      gs_isPrimary = False, gs_definitions = [], gs_inflectionHypotheses = None\<rparr>"

text \<open>The part of the loop body that runs for a primary entry.\<close>

definition mergePrimary ::
  "'h groupState \<Rightarrow> ('h, tagGroup) termDictionaryEntry \<Rightarrow> 'h groupState" where
  "mergePrimary st dictionaryEntry =
     st\<lparr>gs_isPrimary := True,
        gs_maxTransformedTextLength :=
          max (gs_maxTransformedTextLength st) (maxTransformedTextLength dictionaryEntry),
        gs_inflectionHypotheses :=
          (case gs_inflectionHypotheses st of
             None \<Rightarrow> Some (inflectionHypotheses dictionaryEntry)
           | Some current \<Rightarrow>
               if length (inflectionHypotheses dictionaryEntry) < length current
               then Some (inflectionHypotheses dictionaryEntry) else Some current)\<rparr>"

definition mergeEntry ::
  "bool \<Rightarrow> 'h groupState \<Rightarrow> ('h, tagGroup) termDictionaryEntry \<times> nat list
     \<Rightarrow> error + 'h groupState" where
  "mergeEntry checkDuplicateDefinitions st de =
     (let (dictionaryEntry, headwordIndexMap) = de;
          st1 = st\<lparr>gs_score := max (gs_score st) (score dictionaryEntry),
                   gs_dictionaryIndex :=
                     min (gs_dictionaryIndex st) (dictionaryIndex dictionaryEntry),
                   gs_dictionaryPriority :=
                     max (gs_dictionaryPriority st) (dictionaryPriority dictionaryEntry)\<rparr>;
          st2 = (if isPrimary dictionaryEntry then mergePrimary st1 dictionaryEntry else st1)
      in (case (if checkDuplicateDefinitions
                then addTermDefinitions (gs_definitions st2) (definitions dictionaryEntry)
                       headwordIndexMap
                else addTermDefinitionsFast (gs_definitions st2) (definitions dictionaryEntry)
                       headwordIndexMap) of
            Inl e \<Rightarrow> Inl e
          | Inr defs \<Rightarrow> Inr (st2\<lparr>gs_definitions := defs\<rparr>)))"

fun mergeEntries ::
  "bool \<Rightarrow> 'h groupState \<Rightarrow> (('h, tagGroup) termDictionaryEntry \<times> nat list) list
     \<Rightarrow> error + 'h groupState" where
  "mergeEntries checkDuplicateDefinitions st [] = Inr st"
| "mergeEntries checkDuplicateDefinitions st (de # definitionEntries) =
     (case mergeEntry checkDuplicateDefinitions st de of
        Inl e \<Rightarrow> Inl e
      | Inr st1 \<Rightarrow> mergeEntries checkDuplicateDefinitions st1 definitionEntries)"

text \<open>The count loop over the shared headwords: a headword counts once when one of its
  sources is primary and matched the term.\<close>

fun hasPrimaryTermSource :: "source list \<Rightarrow> bool" where
  "hasPrimaryTermSource [] = False"
| "hasPrimaryTermSource (src # sources) =
     (if src_isPrimary src \<and> src_matchSource src = MatchTerm then True
      else hasPrimaryTermSource sources)"

fun countSourceTermExactMatches :: "'t termHeadword list \<Rightarrow> nat" where
  "countSourceTermExactMatches [] = 0"
| "countSourceTermExactMatches (h # headwordsArray) =
     (if hasPrimaryTermSource (hw_sources h) then 1 else 0)
       + countSourceTermExactMatches headwordsArray"

definition createGroupedDictionaryEntry ::
  "('h, tagGroup) termDictionaryEntry list \<Rightarrow> bool
     \<Rightarrow> error + ('h, tagGroup) termDictionaryEntry" where
  "createGroupedDictionaryEntry dictionaryEntries checkDuplicateDefinitions =
     (let (headwordsArray, definitionEntries) = collectHeadwords [] dictionaryEntries;
          checkDuplicateDefinitions1 =
            (if length definitionEntries \<le> 1 then False else checkDuplicateDefinitions)
      in (case mergeEntries checkDuplicateDefinitions1 initialGroupState definitionEntries of
            Inl e \<Rightarrow> Inl e
          | Inr st \<Rightarrow>
              Inr (createTermDictionaryEntry (gs_isPrimary st)
                     (case gs_inflectionHypotheses st of Some hypotheses \<Rightarrow> hypotheses
                      | None \<Rightarrow> [])
                     (gs_score st) (gs_dictionaryIndex st) (gs_dictionaryPriority st)
                     (countSourceTermExactMatches headwordsArray)
                     (gs_maxTransformedTextLength st) headwordsArray (gs_definitions st))))"

section \<open>Predicates and sample data used in the statements\<close>

text \<open>Every headword index of every definition of the entry refers to one of the entry's
  headwords (an invariant of the data model).\<close>

definition wfEntry :: "('h, 't) termDictionaryEntry \<Rightarrow> bool" where
  "wfEntry e \<longleftrightarrow>
     list_all (\<lambda>d. list_all (\<lambda>i. i < length (headwords e)) (def_headwordIndices d))
       (definitions e)"

text \<open>The member at position \<open>i\<close> is primary, no primary member has a shorter list of
  inflection hypotheses, and every primary member before it has a strictly longer one.\<close>

definition firstShortestPrimary :: "('h, 't) termDictionaryEntry list \<Rightarrow> nat \<Rightarrow> bool" where
  "firstShortestPrimary es i \<longleftrightarrow>
     i < length es \<and> isPrimary (es ! i)
     \<and> (\<forall>j < length es. isPrimary (es ! j) \<longrightarrow>
           length (inflectionHypotheses (es ! i)) \<le> length (inflectionHypotheses (es ! j)))
     \<and> (\<forall>j < i. isPrimary (es ! j) \<longrightarrow>
           length (inflectionHypotheses (es ! i)) < length (inflectionHypotheses (es ! j)))"

text \<open>The update of the variable \<^verbatim>\<open>inflectionHypotheses\<close> by one pass of the second loop
  of \<^verbatim>\<open>_createGroupedDictionaryEntry\<close>.\<close>

definition pickStep :: "'h list option \<Rightarrow> ('h, 't) termDictionaryEntry \<Rightarrow> 'h list option" where
  "pickStep cur e =
     (if isPrimary e
      then (case cur of
              None \<Rightarrow> Some (inflectionHypotheses e)
            | Some c \<Rightarrow>
                if length (inflectionHypotheses e) < length c
                then Some (inflectionHypotheses e) else Some c)
      else cur)"

text \<open>A database hit for the query \<^verbatim>\<open>ab\<close> under prefix matching: the term \<^verbatim>\<open>abc\<close> starts
  with the query and was matched on its term.\<close>

definition prefixHit :: databaseEntry where
  "prefixHit =
     \<lparr>dbe_id = 1, dbe_index = 0, dbe_term = ''abc'', dbe_reading = '''',
      dbe_definitionTags = [''n''], dbe_termTags = [], dbe_definitions = [''gloss''],
      dbe_score = 0, dbe_dictionary = ''D'', dbe_sequence = 5, dbe_rules = [],
      dbe_matchType = Prefix, dbe_matchSource = MatchTerm\<rparr>"

definition exactHit :: databaseEntry where
  "exactHit = prefixHit\<lparr>dbe_id := 2, dbe_term := ''ab'', dbe_matchType := Exact\<rparr>"

text \<open>A group of four members: three primary ones with two, one and one hypotheses, and
  a member that is not primary and has none.\<close>

definition sampleGroup :: "(nat, tagGroup) termDictionaryEntry list" where
  "sampleGroup =
     [createTermDictionaryEntryFromDatabaseEntry exactHit ''ab'' ''ab'' ''ab'' [1, 2] True [],
      createTermDictionaryEntryFromDatabaseEntry (exactHit\<lparr>dbe_id := 3\<rparr>)
        ''ab'' ''ab'' ''ab'' [3] True [],
      createTermDictionaryEntryFromDatabaseEntry (exactHit\<lparr>dbe_id := 4\<rparr>)
        ''ab'' ''ab'' ''ab'' [4] True [],
      createTermDictionaryEntryFromDatabaseEntry (exactHit\<lparr>dbe_id := 5\<rparr>)
        ''ab'' ''ab'' ''ab'' [] False []]"

text \<open>The key of a headword in the shared headword map, and the sources counted by
  \<^verbatim>\<open>sourceTermExactMatchCount\<close> of a grouped entry.\<close>

definition hwKey :: "'t termHeadword \<Rightarrow> string \<times> string" where
  "hwKey h = (hw_term h, hw_reading h)"

definition primaryTermSource :: "source \<Rightarrow> bool" where
  "primaryTermSource s \<longleftrightarrow> src_isPrimary s \<and> src_matchSource s = MatchTerm"

definition hasKeyPTS :: "'t termHeadword list \<Rightarrow> string \<times> string \<Rightarrow> bool" where
  "hasKeyPTS hs k \<longleftrightarrow> (\<exists>h \<in> set hs. hwKey h = k \<and> hasPrimaryTermSource (hw_sources h))"

section \<open>Tag merging\<close>

text \<open>The body of the inner loop of \<^verbatim>\<open>_mergeSimilarTags\<close> for a tag of the same name and
  category: the smaller order, the larger score, the dictionaries of the second tag pushed
  onto those of the first, and the content added by \<^verbatim>\<open>_addUniqueSimple\<close>.\<close>

definition mergeTag :: "tag \<Rightarrow> tag \<Rightarrow> tag" where
  "mergeTag tag1 tag2 =
     tag1\<lparr>tag_order := min (tag_order tag1) (tag_order tag2),
          tag_score := max (tag_score tag1) (tag_score tag2),
          tag_dictionaries := tag_dictionaries tag1 @ tag_dictionaries tag2,
          tag_content := addUniqueSimple (tag_content tag1) (tag_content tag2)\<rparr>"

text \<open>The inner loop: \<open>tag1\<close> against the tags after it. A tag that differs in name or
  category stays; a similar one is merged into \<open>tag1\<close> and spliced out.\<close>

fun mergeInto :: "tag \<Rightarrow> tag list \<Rightarrow> tag \<times> tag list" where
  "mergeInto tag1 [] = (tag1, [])"
| "mergeInto tag1 (tag2 # rest) =
     (if tag_name tag2 \<noteq> tag_name tag1 \<or> tag_category tag2 \<noteq> tag_category tag1
      then (fst (mergeInto tag1 rest), tag2 # snd (mergeInto tag1 rest))
      else mergeInto (mergeTag tag1 tag2) rest)"

lemma length_snd_mergeInto: "length (snd (mergeInto tag1 tags)) \<le> length tags"
  by (induction tags arbitrary: tag1) (auto simp: le_SucI)

text \<open>\<^verbatim>\<open>_mergeSimilarTags\<close>: the outer loop takes the tags in turn; each absorbs the similar
  tags after it.\<close>

function mergeSimilarTags :: "tag list \<Rightarrow> tag list" where
  "mergeSimilarTags [] = []"
| "mergeSimilarTags (tag1 # tags) =
     fst (mergeInto tag1 tags) # mergeSimilarTags (snd (mergeInto tag1 tags))"
  by pat_completeness auto
termination
  by (relation "measure length") (auto simp: length_snd_mergeInto less_Suc_eq_le)

text \<open>The name and category of a tag, and sample tags: two noun tags of the dictionaries
  \<^verbatim>\<open>D\<close> and \<^verbatim>\<open>E\<close> and a verb tag.\<close>

definition tagKey :: "tag \<Rightarrow> string \<times> string" where
  "tagKey t = (tag_name t, tag_category t)"

definition nounTag :: tag where
  "nounTag = \<lparr>tag_name = ''n'', tag_category = ''partOfSpeech'', tag_order = 3, tag_score = 1,
     tag_content = [''noun''], tag_dictionaries = [''D''], tag_redundant = False\<rparr>"

definition nounTag2 :: tag where
  "nounTag2 = nounTag\<lparr>tag_order := 1, tag_score := 7, tag_content := [''noun'', ''common''],
     tag_dictionaries := [''E'']\<rparr>"

definition verbTag :: tag where
  "verbTag = nounTag\<lparr>tag_name := ''v'', tag_content := []\<rparr>"

section \<open>Frequency reordering\<close>

text \<open>\<^verbatim>\<open>_updateSortFrequencies\<close>. The frequency of a frequency record is a number by
  construction (\<^verbatim>\<open>_getFrequencyInfo\<close>), so the test \<^verbatim>\<open>typeof frequency !== 'number'\<close> never
  skips a record. The first loop over the frequency records of an entry keeps the map from
  headword index to frequency and the running minimum and maximum.\<close>

record frequencyScan =
  fs_frequencyMap :: "nat \<rightharpoonup> int"
  fs_frequencyMin :: int
  fs_frequencyMax :: int

definition scanFrequency :: "string \<Rightarrow> frequencyScan \<Rightarrow> termFrequency \<Rightarrow> frequencyScan" where
  "scanFrequency dictionary st item =
     (if fr_dictionary item \<noteq> dictionary then st
      else st\<lparr>fs_frequencyMap := (fs_frequencyMap st)(fr_headwordIndex item \<mapsto> fr_frequency item),
              fs_frequencyMin := min (fs_frequencyMin st) (fr_frequency item),
              fs_frequencyMax := max (fs_frequencyMax st) (fr_frequency item)\<rparr>)"

text \<open>The conditional expression that yields \<^verbatim>\<open>frequencyOrder\<close>.\<close>

definition frequencyOrderOf :: "bool \<Rightarrow> int \<Rightarrow> int \<Rightarrow> int" where
  "frequencyOrderOf ascending frequencyMin frequencyMax =
     (if frequencyMin \<le> frequencyMax
      then (if ascending then frequencyMin else - frequencyMax)
      else (if ascending then MAX_SAFE_INTEGER else 0))"

text \<open>The loop over the headword indices of a definition.\<close>

definition scanHeadwordIndex :: "(nat \<rightharpoonup> int) \<Rightarrow> int \<times> int \<Rightarrow> nat \<Rightarrow> int \<times> int" where
  "scanHeadwordIndex frequencyMap minMax headwordIndex =
     (case frequencyMap headwordIndex of
        None \<Rightarrow> minMax
      | Some frequency \<Rightarrow> (min (fst minMax) frequency, max (snd minMax) frequency))"

definition updateDefinitionSortFrequency ::
  "(nat \<rightharpoonup> int) \<Rightarrow> bool \<Rightarrow> 't termDefinition \<Rightarrow> 't termDefinition" where
  "updateDefinitionSortFrequency frequencyMap ascending d =
     (let minMax = foldl (scanHeadwordIndex frequencyMap) (MAX_SAFE_INTEGER, MIN_SAFE_INTEGER)
                     (def_headwordIndices d)
      in d\<lparr>def_frequencyOrder := frequencyOrderOf ascending (fst minMax) (snd minMax)\<rparr>)"

definition updateSortFrequency ::
  "string \<Rightarrow> bool \<Rightarrow> ('h, 't) termDictionaryEntry \<Rightarrow> ('h, 't) termDictionaryEntry" where
  "updateSortFrequency dictionary ascending dictionaryEntry =
     (let st = foldl (scanFrequency dictionary)
                 \<lparr>fs_frequencyMap = Map.empty, fs_frequencyMin = MAX_SAFE_INTEGER,
                  fs_frequencyMax = MIN_SAFE_INTEGER\<rparr>
                 (frequencies dictionaryEntry)
      in dictionaryEntry
           \<lparr>frequencyOrder :=
              frequencyOrderOf ascending (fs_frequencyMin st) (fs_frequencyMax st),
            definitions :=
              map (updateDefinitionSortFrequency (fs_frequencyMap st) ascending)
                (definitions dictionaryEntry)\<rparr>)"

definition updateSortFrequencies ::
  "('h, 't) termDictionaryEntry list \<Rightarrow> string \<Rightarrow> bool \<Rightarrow> ('h, 't) termDictionaryEntry list" where
  "updateSortFrequencies dictionaryEntries dictionary ascending =
     map (updateSortFrequency dictionary ascending) dictionaryEntries"

text \<open>For the statements: the frequencies an entry has from the sorting dictionary; the
  frequency of the last record of that dictionary for a headword; the frequencies a
  definition sees through its headword indices; the order a list of frequencies gives;
  and the range of the safe integers.\<close>

definition dictionaryFrequencies :: "string \<Rightarrow> ('h, 't) termDictionaryEntry \<Rightarrow> int list" where
  "dictionaryFrequencies dictionary e =
     map fr_frequency (filter (\<lambda>f. fr_dictionary f = dictionary) (frequencies e))"

definition lastFrequency :: "string \<Rightarrow> termFrequency list \<Rightarrow> nat \<Rightarrow> int option" where
  "lastFrequency dictionary items headwordIndex =
     (case filter (\<lambda>f. fr_dictionary f = dictionary \<and> fr_headwordIndex f = headwordIndex) items of
        [] \<Rightarrow> None
      | f # fs \<Rightarrow> Some (fr_frequency (last (f # fs))))"

definition headwordFrequencies ::
  "string \<Rightarrow> ('h, 't) termDictionaryEntry \<Rightarrow> 't termDefinition \<Rightarrow> int list" where
  "headwordFrequencies dictionary e d =
     List.map_filter (lastFrequency dictionary (frequencies e)) (def_headwordIndices d)"

definition orderFrom :: "bool \<Rightarrow> int list \<Rightarrow> int" where
  "orderFrom ascending fs =
     (if fs = [] then (if ascending then MAX_SAFE_INTEGER else 0)
      else if ascending then Min (set fs) else - Max (set fs))"

definition safeInteger :: "int \<Rightarrow> bool" where
  "safeInteger n \<longleftrightarrow> MIN_SAFE_INTEGER \<le> n \<and> n \<le> MAX_SAFE_INTEGER"

text \<open>Sample data: an entry with one headword and one definition that has two frequency
  records for that headword from the dictionary \<^verbatim>\<open>F\<close>, and the same entry with a single
  frequency one above the largest safe integer.\<close>

definition frequencyRecord :: "nat \<Rightarrow> int \<Rightarrow> termFrequency" where
  "frequencyRecord index frequency =
     \<lparr>fr_index = index, fr_headwordIndex = 0, fr_dictionary = ''F'', fr_dictionaryIndex = 1,
      fr_dictionaryPriority = 0, fr_hasReading = False, fr_frequency = frequency,
      fr_displayValue = None, fr_displayValueParsed = False\<rparr>"

definition twoFrequenciesEntry :: "(nat, tag) termDictionaryEntry" where
  "twoFrequenciesEntry =
     (createTermDictionaryEntry True [] 0 0 0 1 2
        [createTermHeadword 0 ''ab'' ''ab'' [] [] []]
        [createTermDefinition 0 [0] ''D'' 0 0 1 0 [5] True [] [''gloss'']])
     \<lparr>frequencies := [frequencyRecord 0 5, frequencyRecord 1 10]\<rparr>"

definition hugeFrequencyEntry :: "(nat, tag) termDictionaryEntry" where
  "hugeFrequencyEntry = twoFrequenciesEntry\<lparr>frequencies := [frequencyRecord 0 9007199254740992]\<rparr>"

section \<open>Sorter\<close>

text \<open>
  \<^verbatim>\<open>Array.prototype.sort\<close> with a comparison function is a stable sort: an element goes
  before another when the function is negative on them, after it when positive, and two
  elements the function gives 0 on keep their order. For a comparison function that is a
  consistent ordering of the elements this fixes the result, and inserting the elements
  from the right computes it.
\<close>

fun insertBy :: "('a \<Rightarrow> 'a \<Rightarrow> int) \<Rightarrow> 'a \<Rightarrow> 'a list \<Rightarrow> 'a list" where
  "insertBy compareFunction x [] = [x]"
| "insertBy compareFunction x (y # ys) =
     (if compareFunction x y \<le> 0 then x # y # ys else y # insertBy compareFunction x ys)"

definition arraySort :: "('a \<Rightarrow> 'a \<Rightarrow> int) \<Rightarrow> 'a list \<Rightarrow> 'a list" where
  "arraySort compareFunction xs = foldr (insertBy compareFunction) xs []"

text \<open>A comparison function is a consistent ordering of the elements of \<open>S\<close>: negative one
  way round exactly when positive the other way round, and transitive.\<close>

definition consistentComparator :: "'a set \<Rightarrow> ('a \<Rightarrow> 'a \<Rightarrow> int) \<Rightarrow> bool" where
  "consistentComparator S compareFunction \<longleftrightarrow>
     (\<forall>a \<in> S. \<forall>b \<in> S. compareFunction a b < 0 \<longleftrightarrow> compareFunction b a > 0)
     \<and> (\<forall>a \<in> S. \<forall>b \<in> S. \<forall>c \<in> S.
           compareFunction a b \<le> 0 \<and> compareFunction b c \<le> 0 \<longrightarrow> compareFunction a c \<le> 0)"

text \<open>The comparison function of \<^verbatim>\<open>_sortTermDictionaryEntries\<close>. Its loop over the headwords
  runs to the smaller of the two numbers of headwords; the model returns 0 where the loop
  ends without a result. The string comparer (an \<^verbatim>\<open>Intl.Collator\<close>) is the parameter
  \<open>stringComparer\<close>.\<close>

fun compareHeadwordTerms ::
  "(string \<Rightarrow> string \<Rightarrow> int) \<Rightarrow> 't termHeadword list \<Rightarrow> 't termHeadword list \<Rightarrow> int" where
  "compareHeadwordTerms stringComparer (h1 # headwords1) (h2 # headwords2) =
     (if int (length (hw_term h2)) - int (length (hw_term h1)) \<noteq> 0
      then int (length (hw_term h2)) - int (length (hw_term h1))
      else if stringComparer (hw_term h1) (hw_term h2) \<noteq> 0
      then stringComparer (hw_term h1) (hw_term h2)
      else compareHeadwordTerms stringComparer headwords1 headwords2)"
| "compareHeadwordTerms stringComparer headwords1 headwords2 = 0"

definition compareTermDictionaryEntries ::
  "(string \<Rightarrow> string \<Rightarrow> int) \<Rightarrow> ('h, 't) termDictionaryEntry \<Rightarrow> ('h, 't) termDictionaryEntry
     \<Rightarrow> int" where
  "compareTermDictionaryEntries stringComparer v1 v2 =
     (if int (maxTransformedTextLength v2) - int (maxTransformedTextLength v1) \<noteq> 0
      then int (maxTransformedTextLength v2) - int (maxTransformedTextLength v1)
      else if int (length (inflectionHypotheses v1)) - int (length (inflectionHypotheses v2)) \<noteq> 0
      then int (length (inflectionHypotheses v1)) - int (length (inflectionHypotheses v2))
      else if int (sourceTermExactMatchCount v2) - int (sourceTermExactMatchCount v1) \<noteq> 0
      then int (sourceTermExactMatchCount v2) - int (sourceTermExactMatchCount v1)
      else if frequencyOrder v1 - frequencyOrder v2 \<noteq> 0
      then frequencyOrder v1 - frequencyOrder v2
      else if dictionaryPriority v2 - dictionaryPriority v1 \<noteq> 0
      then dictionaryPriority v2 - dictionaryPriority v1
      else if score v2 - score v1 \<noteq> 0
      then score v2 - score v1
      else if compareHeadwordTerms stringComparer (headwords v1) (headwords v2) \<noteq> 0
      then compareHeadwordTerms stringComparer (headwords v1) (headwords v2)
      else if int (length (definitions v2)) - int (length (definitions v1)) \<noteq> 0
      then int (length (definitions v2)) - int (length (definitions v1))
      else dictionaryIndex v1 - dictionaryIndex v2)"

definition sortTermDictionaryEntries ::
  "(string \<Rightarrow> string \<Rightarrow> int) \<Rightarrow> ('h, 't) termDictionaryEntry list
     \<Rightarrow> ('h, 't) termDictionaryEntry list" where
  "sortTermDictionaryEntries stringComparer dictionaryEntries =
     arraySort (compareTermDictionaryEntries stringComparer) dictionaryEntries"

text \<open>The comparison function of \<^verbatim>\<open>_sortTermDictionaryEntryDefinitions\<close>. The loop over the
  headword indices runs only when the two lists have the same length.\<close>

fun compareHeadwordIndices :: "nat list \<Rightarrow> nat list \<Rightarrow> int" where
  "compareHeadwordIndices (i1 # headwordIndices1) (i2 # headwordIndices2) =
     (if int i1 - int i2 \<noteq> 0 then int i1 - int i2
      else compareHeadwordIndices headwordIndices1 headwordIndices2)"
| "compareHeadwordIndices headwordIndices1 headwordIndices2 = 0"

definition scoreFromTags :: "tag termDefinition \<Rightarrow> int" where
  "scoreFromTags v = foldl (\<lambda>a b. a + tag_score b) 0 (def_tags v)"

definition compareTermDefinitions :: "tag termDefinition \<Rightarrow> tag termDefinition \<Rightarrow> int" where
  "compareTermDefinitions v1 v2 =
     (if def_frequencyOrder v1 - def_frequencyOrder v2 \<noteq> 0
      then def_frequencyOrder v1 - def_frequencyOrder v2
      else if def_dictionaryPriority v2 - def_dictionaryPriority v1 \<noteq> 0
      then def_dictionaryPriority v2 - def_dictionaryPriority v1
      else if def_score v2 - def_score v1 \<noteq> 0
      then def_score v2 - def_score v1
      else if int (length (def_headwordIndices v2)) - int (length (def_headwordIndices v1)) \<noteq> 0
      then int (length (def_headwordIndices v2)) - int (length (def_headwordIndices v1))
      else if compareHeadwordIndices (def_headwordIndices v1) (def_headwordIndices v2) \<noteq> 0
      then compareHeadwordIndices (def_headwordIndices v1) (def_headwordIndices v2)
      else if def_dictionaryIndex v1 - def_dictionaryIndex v2 \<noteq> 0
      then def_dictionaryIndex v1 - def_dictionaryIndex v2
      else if scoreFromTags v2 - scoreFromTags v1 \<noteq> 0
      then scoreFromTags v2 - scoreFromTags v1
      else int (def_index v1) - int (def_index v2))"

definition sortTermDictionaryEntryDefinitions ::
  "tag termDefinition list \<Rightarrow> tag termDefinition list" where
  "sortTermDictionaryEntryDefinitions defs = arraySort compareTermDefinitions defs"

subsection \<open>The orders the specification names\<close>

text \<open>Ascending and descending order by a key, the order that compares two lists position by
  position, and the combination of orders in which a later order decides only where all
  earlier ones give 0.\<close>

definition ascendingBy :: "('a \<Rightarrow> int) \<Rightarrow> 'a \<Rightarrow> 'a \<Rightarrow> int" where
  "ascendingBy key a b = key a - key b"

definition descendingBy :: "('a \<Rightarrow> int) \<Rightarrow> 'a \<Rightarrow> 'a \<Rightarrow> int" where
  "descendingBy key a b = key b - key a"

fun inOrder :: "('a \<Rightarrow> 'a \<Rightarrow> int) list \<Rightarrow> 'a \<Rightarrow> 'a \<Rightarrow> int" where
  "inOrder [] a b = 0"
| "inOrder (order # orders) a b = (if order a b \<noteq> 0 then order a b else inOrder orders a b)"

fun positionwise :: "('a \<Rightarrow> 'a \<Rightarrow> int) \<Rightarrow> 'a list \<Rightarrow> 'a list \<Rightarrow> int" where
  "positionwise order (x # xs) (y # ys) = (if order x y \<noteq> 0 then order x y else positionwise order xs ys)"
| "positionwise order xs ys = 0"

text \<open>The order of term dictionary entries, in the words of the specification: descending
  \<^verbatim>\<open>max_transformed_text_length\<close>, ascending number of inflection hypotheses, descending
  \<^verbatim>\<open>source_term_exact_match_count\<close>, ascending \<^verbatim>\<open>frequency_order\<close>, descending
  \<^verbatim>\<open>dictionary_priority\<close>, descending \<^verbatim>\<open>score\<close>, pairwise headword-term comparison
  (descending length, then collated ascending), descending number of definitions,
  ascending \<^verbatim>\<open>dictionary_index\<close>.\<close>

definition headwordTermOrder ::
  "(string \<Rightarrow> string \<Rightarrow> int) \<Rightarrow> ('h, 't) termDictionaryEntry \<Rightarrow> ('h, 't) termDictionaryEntry
     \<Rightarrow> int" where
  "headwordTermOrder stringComparer a b =
     positionwise (inOrder [descendingBy (\<lambda>trm. int (length trm)), stringComparer])
       (map hw_term (headwords a)) (map hw_term (headwords b))"

definition entryOrder ::
  "(string \<Rightarrow> string \<Rightarrow> int) \<Rightarrow> ('h, 't) termDictionaryEntry \<Rightarrow> ('h, 't) termDictionaryEntry
     \<Rightarrow> int" where
  "entryOrder stringComparer =
     inOrder
       [descendingBy (\<lambda>e. int (maxTransformedTextLength e)),
        ascendingBy (\<lambda>e. int (length (inflectionHypotheses e))),
        descendingBy (\<lambda>e. int (sourceTermExactMatchCount e)),
        ascendingBy frequencyOrder,
        descendingBy dictionaryPriority,
        descendingBy score,
        headwordTermOrder stringComparer,
        descendingBy (\<lambda>e. int (length (definitions e))),
        ascendingBy dictionaryIndex]"

text \<open>The order of the definitions of an entry as the code has it: the number of headword
  indices, descending, comes before their comparison position by position.\<close>

definition headwordIndexOrder :: "'t termDefinition \<Rightarrow> 't termDefinition \<Rightarrow> int" where
  "headwordIndexOrder a b = positionwise (ascendingBy int) (def_headwordIndices a) (def_headwordIndices b)"

definition definitionOrder :: "tag termDefinition \<Rightarrow> tag termDefinition \<Rightarrow> int" where
  "definitionOrder =
     inOrder
       [ascendingBy def_frequencyOrder,
        descendingBy def_dictionaryPriority,
        descendingBy def_score,
        descendingBy (\<lambda>d. int (length (def_headwordIndices d))),
        headwordIndexOrder,
        ascendingBy def_dictionaryIndex,
        descendingBy scoreFromTags,
        ascendingBy (\<lambda>d. int (def_index d))]"

text \<open>The order of the definitions in the words of the specification: the lists of headword
  indices are compared lexicographically.\<close>

definition lexicographicallyAscending :: "('a \<Rightarrow> nat list) \<Rightarrow> 'a \<Rightarrow> 'a \<Rightarrow> int" where
  "lexicographicallyAscending key a b =
     (if key a < key b then - 1 else if key a = key b then 0 else 1)"

definition definitionOrderAsStated :: "tag termDefinition \<Rightarrow> tag termDefinition \<Rightarrow> int" where
  "definitionOrderAsStated =
     inOrder
       [ascendingBy def_frequencyOrder,
        descendingBy def_dictionaryPriority,
        descendingBy def_score,
        lexicographicallyAscending def_headwordIndices,
        ascendingBy def_dictionaryIndex,
        descendingBy scoreFromTags,
        ascendingBy (\<lambda>d. int (def_index d))]"

text \<open>Sample data for the sorter. A string comparer that orders strings by their code
  units. Two definitions of one entry, the first on one headword and the second on two.
  Three entries as merge mode builds them, which agree on every key before the headword
  terms: the first has the headword \<^verbatim>\<open>a\<close> and three definitions, the second the headwords
  \<^verbatim>\<open>a\<close>, \<^verbatim>\<open>b\<close> and two definitions, the third the headwords \<^verbatim>\<open>a\<close>, \<^verbatim>\<open>z\<close> and four
  definitions. And three entries with one headword each.\<close>

definition codeUnitComparer :: "string \<Rightarrow> string \<Rightarrow> int" where
  "codeUnitComparer a b = (if a < b then - 1 else if a = b then 0 else 1)"

definition singleIndexDefinition :: "tag termDefinition" where
  "singleIndexDefinition = createTermDefinition 0 [1] ''D'' 0 0 1 0 [5] True [] [''one'']"

definition twoIndexDefinition :: "tag termDefinition" where
  "twoIndexDefinition = createTermDefinition 1 [2, 3] ''D'' 0 0 2 0 [5] True [] [''two'']"

definition sampleDefinition :: "nat \<Rightarrow> nat list \<Rightarrow> tag termDefinition" where
  "sampleDefinition index headwordIndices =
     createTermDefinition index headwordIndices ''D'' 0 0 (int index) 0 [5] True [] [''gloss'']"

definition sampleHeadword :: "nat \<Rightarrow> string \<Rightarrow> tag termHeadword" where
  "sampleHeadword index trm = createTermHeadword index trm trm [] [] []"

definition mergedEntryA :: "(nat, tag) termDictionaryEntry" where
  "mergedEntryA =
     createTermDictionaryEntry True [] 0 0 0 1 1 [sampleHeadword 0 ''a'']
       [sampleDefinition 0 [0], sampleDefinition 1 [0], sampleDefinition 2 [0]]"

definition mergedEntryB :: "(nat, tag) termDictionaryEntry" where
  "mergedEntryB =
     createTermDictionaryEntry True [] 0 0 0 1 1 [sampleHeadword 0 ''a'', sampleHeadword 1 ''b'']
       [sampleDefinition 0 [0], sampleDefinition 1 [1]]"

definition mergedEntryC :: "(nat, tag) termDictionaryEntry" where
  "mergedEntryC =
     createTermDictionaryEntry True [] 0 0 0 1 1 [sampleHeadword 0 ''a'', sampleHeadword 1 ''z'']
       [sampleDefinition 0 [0], sampleDefinition 1 [0], sampleDefinition 2 [1],
        sampleDefinition 3 [1]]"

definition plainEntry :: "string \<Rightarrow> nat \<Rightarrow> int \<Rightarrow> (nat, tag) termDictionaryEntry" where
  "plainEntry trm maxLength scr =
     createTermDictionaryEntry True [] scr 0 0 1 maxLength [sampleHeadword 0 trm]
       [sampleDefinition 0 [0]]"


text \<open>A list of entries, or of definitions, is in the order named above: no element is
  ordered after a later one.\<close>

definition inEntryOrder ::
  "(string \<Rightarrow> string \<Rightarrow> int) \<Rightarrow> ('h, 't) termDictionaryEntry list \<Rightarrow> bool" where
  "inEntryOrder stringComparer es \<longleftrightarrow> sorted_wrt (\<lambda>a b. entryOrder stringComparer a b \<le> 0) es"

definition inDefinitionOrder :: "tag termDefinition list \<Rightarrow> bool" where
  "inDefinitionOrder defs \<longleftrightarrow> sorted_wrt (\<lambda>a b. definitionOrder a b \<le> 0) defs"

section \<open>Term finder: entry construction\<close>

text \<open>
  A deinflection candidate with the database entries matched to it. The inflection
  hypotheses of a candidate are JavaScript objects: every entry built from the candidate
  refers to the same objects, and the merge of a later sighting changes the \<^verbatim>\<open>source\<close> of
  such an object in place. The model therefore keeps the hypothesis objects in a store, a
  list indexed by address, and an entry of the term finder holds the addresses of its
  hypotheses. Every candidate has hypothesis objects of its own (they are created with
  the candidate); the model puts them into the store when the loop reaches the candidate.
\<close>

record deinflection =
  dfl_originalText :: string
  dfl_transformedText :: string
  dfl_deinflectedText :: string
  dfl_rules :: nat
  dfl_inflectionHypotheses :: "inflectionHypothesis list"
  dfl_databaseEntries :: "databaseEntry list"
  dfl_isDictionaryDeinflection :: bool

type_synonym hypothesisStore = "inflectionHypothesis list"

record findState =
  ft_dictionaryEntries :: "(nat, tagGroup) termDictionaryEntry list"
  ft_ids :: "int set"
  ft_originalTextLength :: nat
  ft_store :: hypothesisStore

text \<open>\<^verbatim>\<open>_areInflectionHyphothesesEqual\<close>: the two lists are turned into sets; the sets have the
  same size and every element of the first is in the second.\<close>

definition areInflectionHyphothesesEqual :: "string list \<Rightarrow> string list \<Rightarrow> bool" where
  "areInflectionHyphothesesEqual hypotheses1 hypotheses2 \<longleftrightarrow>
     length (remdups hypotheses1) = length (remdups hypotheses2)
     \<and> list_all (\<lambda>x. x \<in> set hypotheses2) (remdups hypotheses1)"

text \<open>The callback of \<^verbatim>\<open>inflectionHypotheses.forEach\<close> for the hypothesis at address \<open>a\<close>:
  \<^verbatim>\<open>find\<close> gives the first existing hypothesis with equal inflections; with none, a copy
  of the hypothesis joins \<^verbatim>\<open>newHypotheses\<close>; otherwise the duplicate's source becomes
  \<^verbatim>\<open>'both'\<close> when it differs.\<close>

definition findDuplicate :: "hypothesisStore \<Rightarrow> nat list \<Rightarrow> string list \<Rightarrow> nat option" where
  "findDuplicate store existingHypotheses inflections =
     find (\<lambda>b. areInflectionHyphothesesEqual (ih_inflections (store ! b)) inflections)
       existingHypotheses"

definition mergeHypothesis ::
  "nat list \<Rightarrow> hypothesisStore \<times> inflectionHypothesis list \<Rightarrow> nat
     \<Rightarrow> hypothesisStore \<times> inflectionHypothesis list" where
  "mergeHypothesis existingHypotheses acc a =
     (let store = fst acc; newHypotheses = snd acc;
          source = ih_source (store ! a); inflections = ih_inflections (store ! a)
      in (case findDuplicate store existingHypotheses inflections of
            None \<Rightarrow>
              (store, newHypotheses @ [\<lparr>ih_source = source, ih_inflections = inflections\<rparr>])
          | Some duplicate \<Rightarrow>
              if ih_source (store ! duplicate) \<noteq> source
              then (store[duplicate := (store ! duplicate)\<lparr>ih_source := Both\<rparr>], newHypotheses)
              else (store, newHypotheses)))"

text \<open>Putting new hypothesis objects into the store gives their addresses.\<close>

definition allocate :: "hypothesisStore \<Rightarrow> inflectionHypothesis list \<Rightarrow> hypothesisStore \<times> nat list" where
  "allocate store hypotheses =
     (store @ hypotheses, [length store ..< length store + length hypotheses])"

text \<open>The branch \<^verbatim>\<open>transformedText.length >= ...\<close> for the existing entry at position \<open>k\<close>:
  the hypotheses at the addresses \<open>hypotheses\<close> of the current candidate are merged in.\<close>

definition mergeInflectionHypotheses :: "findState \<Rightarrow> nat \<Rightarrow> nat list \<Rightarrow> findState" where
  "mergeInflectionHypotheses st k hypotheses =
     (let existingEntry = ft_dictionaryEntries st ! k;
          existingHypotheses = inflectionHypotheses existingEntry;
          merged = foldl (mergeHypothesis existingHypotheses) (ft_store st, []) hypotheses;
          allocated = allocate (fst merged) (snd merged)
      in st\<lparr>ft_dictionaryEntries :=
               (ft_dictionaryEntries st)
                 [k := existingEntry\<lparr>inflectionHypotheses := existingHypotheses @ snd allocated\<rparr>],
             ft_store := fst allocated\<rparr>)"

text \<open>The body of the inner loop of \<^verbatim>\<open>_findTermsInternal\<close> for one database entry of the
  candidate \<open>d\<close>, whose hypothesis objects are at the addresses \<open>hypotheses\<close>. Reading a
  property of \<^verbatim>\<open>undefined\<close> (no entry with the id, no headword, no source) is a
  \<open>TypeError\<close>.\<close>

definition hasDefinitionId :: "int \<Rightarrow> ('h, 't) termDictionaryEntry \<Rightarrow> bool" where
  "hasDefinitionId ident entry \<longleftrightarrow> list_ex (\<lambda>d. def_id d = ident) (definitions entry)"

definition processDatabaseEntry ::
  "enabledDictionaryMap \<Rightarrow> deinflection \<Rightarrow> nat list \<Rightarrow> findState \<Rightarrow> databaseEntry
     \<Rightarrow> error + findState" where
  "processDatabaseEntry enabledDictionaryMap d hypotheses st databaseEntry =
     (if dbe_id databaseEntry \<in> ft_ids st
      then (case findPosition (hasDefinitionId (dbe_id databaseEntry)) (ft_dictionaryEntries st) of
              None \<Rightarrow> Inl TypeError
            | Some k \<Rightarrow>
                (case headwords (ft_dictionaryEntries st ! k) of
                   [] \<Rightarrow> Inl TypeError
                 | h # hs \<Rightarrow>
                     (case hw_sources h of
                        [] \<Rightarrow> Inl TypeError
                      | src # srcs \<Rightarrow>
                          if length (dfl_transformedText d) \<ge> length (src_transformedText src)
                          then Inr (mergeInflectionHypotheses st k hypotheses)
                          else Inr st)))
      else if ''non-lemma'' \<in> set (dbe_definitionTags databaseEntry) then Inr st
      else Inr (st\<lparr>ft_dictionaryEntries :=
                     ft_dictionaryEntries st @
                       [createTermDictionaryEntryFromDatabaseEntry databaseEntry
                          (dfl_originalText d) (dfl_transformedText d) (dfl_deinflectedText d)
                          hypotheses True enabledDictionaryMap],
                   ft_ids := insert (dbe_id databaseEntry) (ft_ids st)\<rparr>))"

fun processDatabaseEntries ::
  "enabledDictionaryMap \<Rightarrow> deinflection \<Rightarrow> nat list \<Rightarrow> findState \<Rightarrow> databaseEntry list
     \<Rightarrow> error + findState" where
  "processDatabaseEntries enabledDictionaryMap d hypotheses st [] = Inr st"
| "processDatabaseEntries enabledDictionaryMap d hypotheses st (databaseEntry # rest) =
     (case processDatabaseEntry enabledDictionaryMap d hypotheses st databaseEntry of
        Inl e \<Rightarrow> Inl e
      | Inr st1 \<Rightarrow> processDatabaseEntries enabledDictionaryMap d hypotheses st1 rest)"

text \<open>The body of the outer loop for one candidate.\<close>

definition processDeinflection ::
  "enabledDictionaryMap \<Rightarrow> findState \<Rightarrow> deinflection \<Rightarrow> error + findState" where
  "processDeinflection enabledDictionaryMap st d =
     (if length (dfl_databaseEntries d) = 0 then Inr st
      else (let st1 = (if \<not> dfl_isDictionaryDeinflection d
                       then st\<lparr>ft_originalTextLength :=
                                 max (ft_originalTextLength st) (length (dfl_originalText d))\<rparr>
                       else st);
                allocated = allocate (ft_store st1) (dfl_inflectionHypotheses d)
            in processDatabaseEntries enabledDictionaryMap d (snd allocated)
                 (st1\<lparr>ft_store := fst allocated\<rparr>) (dfl_databaseEntries d)))"

fun processDeinflections ::
  "enabledDictionaryMap \<Rightarrow> findState \<Rightarrow> deinflection list \<Rightarrow> error + findState" where
  "processDeinflections enabledDictionaryMap st [] = Inr st"
| "processDeinflections enabledDictionaryMap st (d # deinflections) =
     (case processDeinflection enabledDictionaryMap st d of
        Inl e \<Rightarrow> Inl e
      | Inr st1 \<Rightarrow> processDeinflections enabledDictionaryMap st1 deinflections)"

definition initialFindState :: findState where
  "initialFindState =
     \<lparr>ft_dictionaryEntries = [], ft_ids = {}, ft_originalTextLength = 0, ft_store = []\<rparr>"

text \<open>\<^verbatim>\<open>_findTermsInternal\<close>. Two parts are parameters: \<open>getJapaneseOnlyText\<close> stands for
  \<^verbatim>\<open>_getJapaneseOnlyText\<close> (it rests on the code-point test of \<^verbatim>\<open>JapaneseUtil\<close>), and
  \<open>getDeinflections\<close> for \<^verbatim>\<open>_getDeinflections\<close>, which queries the database. The result is
  the final state: the entries, the original text length, and the store of the hypothesis
  objects the entries refer to.\<close>

definition findTermsInternal ::
  "bool \<Rightarrow> (string \<Rightarrow> string) \<Rightarrow> (string \<Rightarrow> deinflection list) \<Rightarrow> string
     \<Rightarrow> enabledDictionaryMap \<Rightarrow> error + findState" where
  "findTermsInternal removeNonJapaneseCharacters getJapaneseOnlyText getDeinflections text
       enabledDictionaryMap =
     (let text1 = (if removeNonJapaneseCharacters then getJapaneseOnlyText text else text)
      in if length text1 = 0 then Inr initialFindState
         else processDeinflections enabledDictionaryMap initialFindState
                (getDeinflections text1))"

text \<open>For the statements. The state is one the loop can be in: every recorded id is the id
  of a definition of some entry, and every entry has a first headword with a first
  source.\<close>

definition findInvariant :: "findState \<Rightarrow> bool" where
  "findInvariant st \<longleftrightarrow>
     (\<forall>ident \<in> ft_ids st. list_ex (hasDefinitionId ident) (ft_dictionaryEntries st))
     \<and> list_all (\<lambda>e. case headwords e of [] \<Rightarrow> False
                       | h # hs \<Rightarrow> hw_sources h \<noteq> []) (ft_dictionaryEntries st)"

text \<open>The lengths of the original texts of the candidates that have database entries and
  were not made by dictionary deinflection.\<close>

definition countedLengths :: "deinflection list \<Rightarrow> nat list" where
  "countedLengths deinflections =
     map (\<lambda>d. length (dfl_originalText d))
       (filter (\<lambda>d. dfl_databaseEntries d \<noteq> [] \<and> \<not> dfl_isDictionaryDeinflection d)
          deinflections)"


text \<open>The first existing hypothesis whose inflections are equal, by
  \<^verbatim>\<open>_areInflectionHyphothesesEqual\<close>, to those of the hypothesis at address \<open>a\<close>.\<close>

definition firstDuplicate :: "hypothesisStore \<Rightarrow> nat list \<Rightarrow> nat \<Rightarrow> nat option" where
  "firstDuplicate store existingHypotheses a =
     findDuplicate store existingHypotheses (ih_inflections (store ! a))"

text \<open>The hypothesis objects of the current candidate are in the store and are not among
  those of the existing entry at position \<open>k\<close> (the entry was built from another candidate),
  whose hypotheses are in the store too.\<close>

definition separateHypotheses :: "findState \<Rightarrow> nat \<Rightarrow> nat list \<Rightarrow> bool" where
  "separateHypotheses st k hypotheses \<longleftrightarrow>
     list_all (\<lambda>a. a < length (ft_store st)
                 \<and> a \<notin> set (inflectionHypotheses (ft_dictionaryEntries st ! k))) hypotheses
     \<and> list_all (\<lambda>b. b < length (ft_store st))
         (inflectionHypotheses (ft_dictionaryEntries st ! k))"

text \<open>What the merge of the hypotheses at the addresses \<open>hypotheses\<close> into the entry at
  position \<open>k\<close> does, from the state \<open>st\<close> to the state \<open>st'\<close>. Only that entry changes, and of
  it only the list of hypotheses: it gets new addresses at its end, which hold copies of
  those merged hypotheses that have no duplicate among the existing ones, in their order.
  In the store, no hypothesis changes its inflections, hypotheses of other entries do not
  change at all, and an existing hypothesis of the entry has its source set to
  \<^verbatim>\<open>'both'\<close> exactly when it is the first duplicate of a merged hypothesis with another
  source.\<close>

definition mergedInto :: "findState \<Rightarrow> nat \<Rightarrow> nat list \<Rightarrow> findState \<Rightarrow> bool" where
  "mergedInto st k hypotheses st' \<longleftrightarrow>
     (let existing = inflectionHypotheses (ft_dictionaryEntries st ! k);
          store = ft_store st; store' = ft_store st';
          added = filter (\<lambda>a. firstDuplicate store existing a = None) hypotheses;
          newAddresses = [length store ..< length store + length added]
      in ft_ids st' = ft_ids st
         \<and> ft_originalTextLength st' = ft_originalTextLength st
         \<and> ft_dictionaryEntries st'
             = (ft_dictionaryEntries st)
                 [k := (ft_dictionaryEntries st ! k)
                         \<lparr>inflectionHypotheses := existing @ newAddresses\<rparr>]
         \<and> length store' = length store + length added
         \<and> map (\<lambda>a. store' ! a) newAddresses = map (\<lambda>a. store ! a) added
         \<and> (\<forall>c < length store.
               ih_inflections (store' ! c) = ih_inflections (store ! c)
               \<and> (c \<notin> set existing \<longrightarrow> store' ! c = store ! c))
         \<and> (\<forall>b \<in> set existing.
               ih_source (store' ! b)
                 = (if \<exists>a \<in> set hypotheses.
                         firstDuplicate store existing a = Some b
                         \<and> ih_source (store ! a) \<noteq> ih_source (store ! b)
                    then Both else ih_source (store ! b))))"


text \<open>Sample data for the term finder: a candidate of algorithm deinflection and one of
  dictionary deinflection that hit the same database entry, the state in which the first
  has been handled and the hypothesis objects of the second are in the store, such a state
  in which the existing hypothesis names the inflection \<^verbatim>\<open>past\<close> twice, and a database
  entry marked \<^verbatim>\<open>non-lemma\<close>.\<close>

definition algorithmCandidate :: deinflection where
  "algorithmCandidate =
     \<lparr>dfl_originalText = ''ab'', dfl_transformedText = ''ab'', dfl_deinflectedText = ''ab'',
      dfl_rules = 0,
      dfl_inflectionHypotheses = [\<lparr>ih_source = Algorithm, ih_inflections = [''past'']\<rparr>],
      dfl_databaseEntries = [exactHit], dfl_isDictionaryDeinflection = False\<rparr>"

definition dictionaryCandidate :: deinflection where
  "dictionaryCandidate =
     \<lparr>dfl_originalText = ''abcd'', dfl_transformedText = ''abcd'', dfl_deinflectedText = ''ab'',
      dfl_rules = 0,
      dfl_inflectionHypotheses =
        [\<lparr>ih_source = Dictionary, ih_inflections = [''past'']\<rparr>,
         \<lparr>ih_source = Dictionary, ih_inflections = [''plural'']\<rparr>],
      dfl_databaseEntries = [exactHit], dfl_isDictionaryDeinflection = True\<rparr>"

definition secondSightingState :: findState where
  "secondSightingState =
     \<lparr>ft_dictionaryEntries =
        [createTermDictionaryEntryFromDatabaseEntry exactHit ''ab'' ''ab'' ''ab'' [0] True []],
      ft_ids = {2}, ft_originalTextLength = 2,
      ft_store = [\<lparr>ih_source = Algorithm, ih_inflections = [''past'']\<rparr>,
                  \<lparr>ih_source = Dictionary, ih_inflections = [''past'']\<rparr>,
                  \<lparr>ih_source = Dictionary, ih_inflections = [''plural'']\<rparr>]\<rparr>"

definition doublePastState :: findState where
  "doublePastState =
     secondSightingState
       \<lparr>ft_store := [\<lparr>ih_source = Algorithm, ih_inflections = [''past'', ''past'']\<rparr>,
                     \<lparr>ih_source = Dictionary, ih_inflections = [''past'']\<rparr>]\<rparr>"

definition nonLemmaHit :: databaseEntry where
  "nonLemmaHit = exactHit\<lparr>dbe_id := 9, dbe_definitionTags := [''non-lemma'']\<rparr>"


definition pastCandidate :: deinflection where
  "pastCandidate =
     dictionaryCandidate
       \<lparr>dfl_inflectionHypotheses := [\<lparr>ih_source = Dictionary, ih_inflections = [''past'']\<rparr>]\<rparr>"

definition noHitCandidate :: deinflection where
  "noHitCandidate =
     algorithmCandidate\<lparr>dfl_originalText := ''abcde'', dfl_transformedText := ''abcde'',
       dfl_deinflectedText := ''abcde'', dfl_databaseEntries := []\<rparr>"

definition sampleDeinflections :: "string \<Rightarrow> deinflection list" where
  "sampleDeinflections text = [noHitCandidate, algorithmCandidate, dictionaryCandidate]"

definition keepText :: "string \<Rightarrow> string" where
  "keepText text = text"


section \<open>Looking up terms\<close>

text \<open>
  \<^verbatim>\<open>findTerms\<close> and the functions it reaches when the mode is \<^verbatim>\<open>'simple'\<close> or \<^verbatim>\<open>'split'\<close>.
  The lookups of metadata in the database are kept in a log, in the order in which they
  are made: \<^verbatim>\<open>findTermMetaBulk\<close> with the list of terms and the map of dictionaries it is
  given, \<^verbatim>\<open>findTagMetaBulk\<close> with the pairs of query and dictionary. The only call of
  \<^verbatim>\<open>findTermMetaBulk\<close> that \<^verbatim>\<open>findTerms\<close> reaches is the one in \<^verbatim>\<open>_addTermMeta\<close>, and the only
  call of \<^verbatim>\<open>findTagMetaBulk\<close> the one in \<^verbatim>\<open>_expandTagGroups\<close>, under \<^verbatim>\<open>_expandTermTags\<close>.
\<close>

datatype findTermsMode = ModeGroup | ModeMerge | ModeSimple | ModeSplit

record findTermsOptions =
  opt_removeNonJapaneseCharacters :: bool
  opt_mainDictionary :: string
  opt_enabledDictionaryMap :: enabledDictionaryMap
  opt_excludeDictionaryDefinitions :: "string set option"
  opt_sortFrequencyDictionary :: "string option"
  opt_sortFrequencyDictionaryOrder :: string

datatype databaseCall =
  FindTermMetaBulk "string list" enabledDictionaryMap
| FindTagMetaBulk "(string \<times> string) list"

subsection \<open>Term metadata\<close>

text \<open>A row of \<^verbatim>\<open>findTermMetaBulk\<close> has a mode, data, a dictionary and the index of its term
  in the list of terms. The constructors of \<open>termMetaData\<close> are the modes with the shapes of
  data that \<^verbatim>\<open>_addTermMeta\<close> tells apart: for \<^verbatim>\<open>'freq'\<close>, a frequency, or an object with a
  reading (a string) and a frequency; for \<^verbatim>\<open>'pitch'\<close> and \<^verbatim>\<open>'ipa'\<close>, a reading and a list.
  A frequency is a number, a string, an object with a value (\<open>None\<close> unless a number) and a
  display value (\<open>None\<close> unless a string), or something else. The tags of a pitch or a
  transcription are \<open>None\<close> unless they are an array.\<close>

datatype frequencyValue =
  FrequencyNumber int
| FrequencyString string
| FrequencyObject "int option" "string option"
| FrequencyOther

datatype numberOrArray = NumberArray "int list" | SingleNumber int | NoNumber

record pitchData =
  pd_position :: int
  pd_tags :: "string list option"
  pd_nasal :: numberOrArray
  pd_devoice :: numberOrArray

record ipaData =
  ipd_ipa :: string
  ipd_tags :: "string list option"

datatype termMetaData =
  FreqData frequencyValue
| FreqReadingData string frequencyValue
| PitchData string "pitchData list"
| IpaData string "ipaData list"

record termMeta =
  tm_index :: nat
  tm_dictionary :: string
  tm_data :: termMetaData

text \<open>A row of \<^verbatim>\<open>findTagMetaBulk\<close>: each of its fields is \<open>None\<close> unless it has the type that
  \<^verbatim>\<open>_createTag\<close> asks for (a string for the category and the notes, a number for the order
  and the score). The tag cache maps a dictionary to the map from a query to the row found
  for it, or to \<^verbatim>\<open>null\<close> (\<open>None\<close>) where none was found.\<close>

record databaseTag =
  dt_category :: "string option"
  dt_notes :: "string option"
  dt_order :: "int option"
  dt_score :: "int option"

type_synonym tagCache = "(string \<times> (string \<times> databaseTag option) list) list"

text \<open>What \<^verbatim>\<open>findTerms\<close> uses and the model does not define is a field of the record
  \<open>translator\<close>: the filter of the text and the candidate finder of \<^verbatim>\<open>_findTermsInternal\<close>
  (it queries the database for terms, not for metadata), the string comparer, the parser
  of a number in a string, the database functions \<^verbatim>\<open>findTermMetaBulk\<close> and
  \<^verbatim>\<open>findTagMetaBulk\<close>, and the two functions that only the modes \<^verbatim>\<open>'group'\<close> and \<^verbatim>\<open>'merge'\<close>
  reach: \<^verbatim>\<open>_groupDictionaryEntriesByHeadword\<close> and \<^verbatim>\<open>_getRelatedDictionaryEntries\<close> (they
  query the database for terms only). The tag cache of the translator is a field as well;
  \<^verbatim>\<open>findTerms\<close> returns the cache it leaves.\<close>

record translator =
  tr_getJapaneseOnlyText :: "string \<Rightarrow> string"
  tr_getDeinflections :: "string \<Rightarrow> enabledDictionaryMap \<Rightarrow> findTermsOptions \<Rightarrow> deinflection list"
  tr_stringComparer :: "string \<Rightarrow> string \<Rightarrow> int"
  tr_convertStringToNumber :: "string \<Rightarrow> int"
  tr_findTermMetaBulk :: "string list \<Rightarrow> enabledDictionaryMap \<Rightarrow> termMeta list"
  tr_findTagMetaBulk :: "(string \<times> string) list \<Rightarrow> databaseTag option list"
  tr_tagCache :: tagCache
  tr_groupDictionaryEntriesByHeadword ::
    "hypothesisStore \<Rightarrow> (nat, tagGroup) termDictionaryEntry list
       \<Rightarrow> error + (nat, tagGroup) termDictionaryEntry list"
  tr_getRelatedDictionaryEntries ::
    "hypothesisStore \<Rightarrow> (nat, tagGroup) termDictionaryEntry list \<Rightarrow> string
       \<Rightarrow> enabledDictionaryMap \<Rightarrow> error + (nat, tagGroup) termDictionaryEntry list"

text \<open>\<^verbatim>\<open>_getFrequencyInfo\<close>: the frequency, the display value and whether it was parsed.\<close>

definition getFrequencyInfo ::
  "(string \<Rightarrow> int) \<Rightarrow> frequencyValue \<Rightarrow> int \<times> string option \<times> bool" where
  "getFrequencyInfo convertStringToNumber frequency =
     (case frequency of
        FrequencyObject v displayValue \<Rightarrow>
          ((case v of Some n \<Rightarrow> n | None \<Rightarrow> 0), displayValue, False)
      | FrequencyNumber n \<Rightarrow> (n, None, False)
      | FrequencyString s \<Rightarrow> (convertStringToNumber s, Some s, True)
      | FrequencyOther \<Rightarrow> (0, None, False))"

definition toNumberArray :: "numberOrArray \<Rightarrow> int list" where
  "toNumberArray v = (case v of NumberArray ns \<Rightarrow> ns | SingleNumber n \<Rightarrow> [n] | NoNumber \<Rightarrow> [])"

definition createTermPronunciation ::
  "nat \<Rightarrow> nat \<Rightarrow> string \<Rightarrow> int \<Rightarrow> int \<Rightarrow> 't pitch list \<Rightarrow> 't phoneticTranscription list
     \<Rightarrow> 't termPronunciation" where
  "createTermPronunciation index headwordIndex dictionary dictIndex dictPriority pitches
       phoneticTranscriptions =
     \<lparr>pr_index = index, pr_headwordIndex = headwordIndex, pr_dictionary = dictionary,
      pr_dictionaryIndex = dictIndex, pr_dictionaryPriority = dictPriority,
      pr_pitches = pitches, pr_phoneticTranscriptions = phoneticTranscriptions\<rparr>"

definition createTermFrequency ::
  "nat \<Rightarrow> nat \<Rightarrow> string \<Rightarrow> int \<Rightarrow> int \<Rightarrow> bool \<Rightarrow> int \<Rightarrow> string option \<Rightarrow> bool \<Rightarrow> termFrequency" where
  "createTermFrequency index headwordIndex dictionary dictIndex dictPriority hasReading
       frequency displayValue displayValueParsed =
     \<lparr>fr_index = index, fr_headwordIndex = headwordIndex, fr_dictionary = dictionary,
      fr_dictionaryIndex = dictIndex, fr_dictionaryPriority = dictPriority,
      fr_hasReading = hasReading, fr_frequency = frequency, fr_displayValue = displayValue,
      fr_displayValueParsed = displayValueParsed\<rparr>"

text \<open>The first loop of \<^verbatim>\<open>_addTermMeta\<close>. \<^verbatim>\<open>headwordMap\<close> maps a term to the map from a reading
  to its targets; the maps are association lists in the order of insertion, so the list
  of the terms is \<^verbatim>\<open>headwordMapKeys\<close> and the list of their reading maps is
  \<^verbatim>\<open>headwordReadingMaps\<close>. A target refers to the arrays \<^verbatim>\<open>pronunciations\<close> and \<^verbatim>\<open>frequencies\<close>
  of its entry: in the model it holds the position of the entry.\<close>

record metaTarget =
  mt_entry :: nat
  mt_headwordIndex :: nat

type_synonym readingMap = "(string \<times> metaTarget list) list"

fun addReadingTarget :: "string \<Rightarrow> metaTarget \<Rightarrow> readingMap \<Rightarrow> readingMap" where
  "addReadingTarget reading target [] = [(reading, [target])]"
| "addReadingTarget reading target ((r, targets) # readingMap) =
     (if r = reading then (r, targets @ [target]) # readingMap
      else (r, targets) # addReadingTarget reading target readingMap)"

fun addHeadwordTarget ::
  "string \<Rightarrow> string \<Rightarrow> metaTarget \<Rightarrow> (string \<times> readingMap) list \<Rightarrow> (string \<times> readingMap) list" where
  "addHeadwordTarget trm reading target [] = [(trm, addReadingTarget reading target [])]"
| "addHeadwordTarget trm reading target ((t, readingMap) # headwordMap) =
     (if t = trm then (t, addReadingTarget reading target readingMap) # headwordMap
      else (t, readingMap) # addHeadwordTarget trm reading target headwordMap)"

definition addEntryTargets ::
  "(string \<times> readingMap) list \<Rightarrow> nat \<times> ('h, 't) termDictionaryEntry \<Rightarrow> (string \<times> readingMap) list" where
  "addEntryTargets headwordMap numbered =
     foldl (\<lambda>m (i, headword).
              addHeadwordTarget (hw_term headword) (hw_reading headword)
                \<lparr>mt_entry = fst numbered, mt_headwordIndex = i\<rparr> m)
       headwordMap (enumerate 0 (headwords (snd numbered)))"

definition collectTargets :: "('h, 't) termDictionaryEntry list \<Rightarrow> (string \<times> readingMap) list" where
  "collectTargets dictionaryEntries = foldl addEntryTargets [] (enumerate 0 dictionaryEntries)"

text \<open>The case \<^verbatim>\<open>'freq'\<close> for one reading: the loop over the targets. The variable
  \<^verbatim>\<open>frequency\<close> is assigned in the loop, so from the second target on
  \<^verbatim>\<open>_getFrequencyInfo\<close> sees the number it returned before.\<close>

fun pushFrequencies ::
  "(string \<Rightarrow> int) \<Rightarrow> string \<Rightarrow> int \<Rightarrow> int \<Rightarrow> bool \<Rightarrow> frequencyValue \<Rightarrow> metaTarget list
     \<Rightarrow> ('h, 't) termDictionaryEntry list \<Rightarrow> ('h, 't) termDictionaryEntry list" where
  "pushFrequencies convertStringToNumber dictionary dictIndex dictPriority hasReading frequency
       [] dictionaryEntries = dictionaryEntries"
| "pushFrequencies convertStringToNumber dictionary dictIndex dictPriority hasReading frequency
       (target # targets) dictionaryEntries =
     (let (n, displayValue, displayValueParsed) = getFrequencyInfo convertStringToNumber frequency;
          entry = dictionaryEntries ! mt_entry target;
          pushed = dictionaryEntries
            [mt_entry target :=
               entry\<lparr>frequencies := frequencies entry @
                 [createTermFrequency (length (frequencies entry)) (mt_headwordIndex target)
                    dictionary dictIndex dictPriority hasReading n displayValue
                    displayValueParsed]\<rparr>]
      in pushFrequencies convertStringToNumber dictionary dictIndex dictPriority hasReading
           (FrequencyNumber n) targets pushed)"

text \<open>The loops over the targets of the cases \<^verbatim>\<open>'pitch'\<close> and \<^verbatim>\<open>'ipa'\<close>. In the code the
  pronunciations pushed for the targets of one reading share the pitch objects (or the
  transcription objects); in the model every pronunciation has its own copy.\<close>

definition pushPronunciations ::
  "string \<Rightarrow> int \<Rightarrow> int \<Rightarrow> tagGroup pitch list \<Rightarrow> tagGroup phoneticTranscription list
     \<Rightarrow> metaTarget list \<Rightarrow> ('h, tagGroup) termDictionaryEntry list
     \<Rightarrow> ('h, tagGroup) termDictionaryEntry list" where
  "pushPronunciations dictionary dictIndex dictPriority pitches phoneticTranscriptions targets
       dictionaryEntries =
     foldl (\<lambda>es target.
              es[mt_entry target :=
                   (es ! mt_entry target)\<lparr>pronunciations :=
                      pronunciations (es ! mt_entry target) @
                        [createTermPronunciation (length (pronunciations (es ! mt_entry target)))
                           (mt_headwordIndex target) dictionary dictIndex dictPriority pitches
                           phoneticTranscriptions]\<rparr>])
       dictionaryEntries targets"

definition metaTagGroups :: "string \<Rightarrow> string list option \<Rightarrow> tagGroup list" where
  "metaTagGroups dictionary tags =
     (case tags of
        None \<Rightarrow> []
      | Some tagNames \<Rightarrow> if length tagNames > 0 then [createTagGroup dictionary tagNames] else [])"

definition createPitch :: "string \<Rightarrow> pitchData \<Rightarrow> tagGroup pitch" where
  "createPitch dictionary p =
     \<lparr>pi_position = pd_position p, pi_nasalPositions = toNumberArray (pd_nasal p),
      pi_devoicePositions = toNumberArray (pd_devoice p),
      pi_tags = metaTagGroups dictionary (pd_tags p)\<rparr>"

definition createPhoneticTranscription :: "string \<Rightarrow> ipaData \<Rightarrow> tagGroup phoneticTranscription" where
  "createPhoneticTranscription dictionary p =
     \<lparr>pt_ipa = ipd_ipa p, pt_tags = metaTagGroups dictionary (ipd_tags p)\<rparr>"

text \<open>The body of the loop over the readings of the term of a row: the \<^verbatim>\<open>switch\<close> on the
  mode.\<close>

definition applyTermMeta ::
  "(string \<Rightarrow> int) \<Rightarrow> string \<Rightarrow> int \<Rightarrow> int \<Rightarrow> termMetaData
     \<Rightarrow> ('h, tagGroup) termDictionaryEntry list \<Rightarrow> string \<times> metaTarget list
     \<Rightarrow> ('h, tagGroup) termDictionaryEntry list" where
  "applyTermMeta convertStringToNumber dictionary dictIndex dictPriority data dictionaryEntries
       readingTargets =
     (case data of
        FreqData frequency \<Rightarrow>
          pushFrequencies convertStringToNumber dictionary dictIndex dictPriority False
            frequency (snd readingTargets) dictionaryEntries
      | FreqReadingData reading frequency \<Rightarrow>
          if reading \<noteq> fst readingTargets then dictionaryEntries
          else pushFrequencies convertStringToNumber dictionary dictIndex dictPriority True
                 frequency (snd readingTargets) dictionaryEntries
      | PitchData reading pitches \<Rightarrow>
          if reading \<noteq> fst readingTargets then dictionaryEntries
          else pushPronunciations dictionary dictIndex dictPriority
                 (map (createPitch dictionary) pitches) [] (snd readingTargets) dictionaryEntries
      | IpaData reading transcriptions \<Rightarrow>
          if reading \<noteq> fst readingTargets then dictionaryEntries
          else pushPronunciations dictionary dictIndex dictPriority []
                 (map (createPhoneticTranscription dictionary) transcriptions)
                 (snd readingTargets) dictionaryEntries)"

text \<open>The loop over the rows. A row whose index is not a position of the list of terms
  makes \<^verbatim>\<open>headwordReadingMaps[index]\<close> undefined, and the call of its method \<^verbatim>\<open>entries\<close>
  throws.\<close>

fun applyTermMetas ::
  "(string \<Rightarrow> int) \<Rightarrow> enabledDictionaryMap \<Rightarrow> readingMap list \<Rightarrow> termMeta list
     \<Rightarrow> ('h, tagGroup) termDictionaryEntry list
     \<Rightarrow> error + ('h, tagGroup) termDictionaryEntry list" where
  "applyTermMetas convertStringToNumber enabledDictionaryMap headwordReadingMaps []
       dictionaryEntries = Inr dictionaryEntries"
| "applyTermMetas convertStringToNumber enabledDictionaryMap headwordReadingMaps (meta # metas)
       dictionaryEntries =
     (let (dictIndex, dictPriority) = getDictionaryOrder (tm_dictionary meta) enabledDictionaryMap
      in if tm_index meta < length headwordReadingMaps
         then applyTermMetas convertStringToNumber enabledDictionaryMap headwordReadingMaps metas
                (foldl (applyTermMeta convertStringToNumber (tm_dictionary meta) dictIndex
                          dictPriority (tm_data meta))
                   dictionaryEntries (headwordReadingMaps ! tm_index meta))
         else Inl TypeError)"

text \<open>\<^verbatim>\<open>_addTermMeta\<close>: one lookup, which is logged, and the loop over its rows.\<close>

definition addTermMeta ::
  "translator \<Rightarrow> ('h, tagGroup) termDictionaryEntry list \<Rightarrow> enabledDictionaryMap
     \<Rightarrow> databaseCall list \<times> (error + ('h, tagGroup) termDictionaryEntry list)" where
  "addTermMeta tr dictionaryEntries enabledDictionaryMap =
     (let headwordMap = collectTargets dictionaryEntries;
          headwordMapKeys = map fst headwordMap;
          headwordReadingMaps = map snd headwordMap;
          metas = tr_findTermMetaBulk tr headwordMapKeys enabledDictionaryMap
      in ([FindTermMetaBulk headwordMapKeys enabledDictionaryMap],
          applyTermMetas (tr_convertStringToNumber tr) enabledDictionaryMap headwordReadingMaps
            metas dictionaryEntries))"

subsection \<open>Removing the definitions of excluded dictionaries\<close>

text \<open>\<^verbatim>\<open>_removeArrayItemsWithDictionary\<close>: whether an item was removed, and the items that
  stay.\<close>

definition removeArrayItemsWithDictionary ::
  "('a \<Rightarrow> string) \<Rightarrow> 'a list \<Rightarrow> string set \<Rightarrow> bool \<times> 'a list" where
  "removeArrayItemsWithDictionary dictionaryOf array excludeDictionaryDefinitions =
     (list_ex (\<lambda>x. dictionaryOf x \<in> excludeDictionaryDefinitions) array,
      filter (\<lambda>x. dictionaryOf x \<notin> excludeDictionaryDefinitions) array)"

text \<open>The loop of \<^verbatim>\<open>_removeUnusedHeadwords\<close> over the headwords: the headwords that stay and
  \<^verbatim>\<open>indexRemap\<close>, from the old position of a headword that stays to its new position.\<close>

fun removeHeadwords ::
  "nat set \<Rightarrow> nat \<Rightarrow> (nat \<times> nat) list \<Rightarrow> 'a list \<Rightarrow> 'a list \<times> (nat \<times> nat) list" where
  "removeHeadwords removeHeadwordIndices oldIndex indexRemap [] = ([], indexRemap)"
| "removeHeadwords removeHeadwordIndices oldIndex indexRemap (h # hs) =
     (if oldIndex \<in> removeHeadwordIndices
      then removeHeadwords removeHeadwordIndices (oldIndex + 1) indexRemap hs
      else (let (kept, indexRemap1) =
                  removeHeadwords removeHeadwordIndices (oldIndex + 1)
                    (indexRemap @ [(oldIndex, length indexRemap)]) hs
            in (h # kept, indexRemap1)))"

definition updateDefinitionHeadwordIndices ::
  "'t termDefinition list \<Rightarrow> (nat \<times> nat) list \<Rightarrow> 't termDefinition list" where
  "updateDefinitionHeadwordIndices defs indexRemap =
     map (\<lambda>d. d\<lparr>def_headwordIndices :=
                 List.map_filter (map_of indexRemap) (def_headwordIndices d)\<rparr>) defs"

definition updateArrayItemsHeadwordIndex ::
  "('a \<Rightarrow> nat) \<Rightarrow> ('a \<Rightarrow> nat \<Rightarrow> 'a) \<Rightarrow> 'a list \<Rightarrow> (nat \<times> nat) list \<Rightarrow> 'a list" where
  "updateArrayItemsHeadwordIndex headwordIndexOf withHeadwordIndex array indexRemap =
     List.map_filter
       (\<lambda>x. case map_of indexRemap (headwordIndexOf x) of
              None \<Rightarrow> None
            | Some newHeadwordIndex \<Rightarrow> Some (withHeadwordIndex x newHeadwordIndex))
       array"

definition removeUnusedHeadwords ::
  "('h, 't) termDictionaryEntry \<Rightarrow> ('h, 't) termDictionaryEntry" where
  "removeUnusedHeadwords dictionaryEntry =
     (let removeHeadwordIndices =
            {0 ..< length (headwords dictionaryEntry)}
              - set (concat (map def_headwordIndices (definitions dictionaryEntry)))
      in if removeHeadwordIndices = {} then dictionaryEntry
         else (let (kept, indexRemap) =
                     removeHeadwords removeHeadwordIndices 0 [] (headwords dictionaryEntry)
               in dictionaryEntry
                    \<lparr>headwords := kept,
                     definitions :=
                       updateDefinitionHeadwordIndices (definitions dictionaryEntry) indexRemap,
                     pronunciations :=
                       updateArrayItemsHeadwordIndex pr_headwordIndex
                         (\<lambda>x i. x\<lparr>pr_headwordIndex := i\<rparr>) (pronunciations dictionaryEntry)
                         indexRemap,
                     frequencies :=
                       updateArrayItemsHeadwordIndex fr_headwordIndex
                         (\<lambda>x i. x\<lparr>fr_headwordIndex := i\<rparr>) (frequencies dictionaryEntry)
                         indexRemap\<rparr>))"

text \<open>The body of the loop of \<^verbatim>\<open>_removeExcludedDefinitions\<close>: \<open>None\<close> where the entry is
  removed. The entries are handled one by one, so the order of the loop does not matter.\<close>

definition removeExcludedDefinitionsEntry ::
  "string set \<Rightarrow> ('h, tagGroup) termDictionaryEntry \<Rightarrow> ('h, tagGroup) termDictionaryEntry option" where
  "removeExcludedDefinitionsEntry excludeDictionaryDefinitions dictionaryEntry =
     (let (definitionsChanged, defs) =
            removeArrayItemsWithDictionary def_dictionary (definitions dictionaryEntry)
              excludeDictionaryDefinitions;
          cleaned = dictionaryEntry
            \<lparr>headwords :=
               map (\<lambda>h. h\<lparr>hw_tags := snd (removeArrayItemsWithDictionary tg_dictionary (hw_tags h)
                                            excludeDictionaryDefinitions)\<rparr>)
                 (headwords dictionaryEntry),
             definitions :=
               map (\<lambda>d. d\<lparr>def_tags := snd (removeArrayItemsWithDictionary tg_dictionary
                                             (def_tags d) excludeDictionaryDefinitions)\<rparr>)
                 defs,
             pronunciations :=
               snd (removeArrayItemsWithDictionary pr_dictionary (pronunciations dictionaryEntry)
                      excludeDictionaryDefinitions),
             frequencies :=
               snd (removeArrayItemsWithDictionary fr_dictionary (frequencies dictionaryEntry)
                      excludeDictionaryDefinitions)\<rparr>
      in if \<not> definitionsChanged then Some cleaned
         else if length (definitions cleaned) = 0 then None
         else Some (removeUnusedHeadwords cleaned))"

definition removeExcludedDefinitions ::
  "('h, tagGroup) termDictionaryEntry list \<Rightarrow> string set
     \<Rightarrow> ('h, tagGroup) termDictionaryEntry list" where
  "removeExcludedDefinitions dictionaryEntries excludeDictionaryDefinitions =
     List.map_filter (removeExcludedDefinitionsEntry excludeDictionaryDefinitions)
       dictionaryEntries"

subsection \<open>Tag targets\<close>

text \<open>
  \<^verbatim>\<open>_addTagExpansionTargets\<close> leaves an object without tag groups as it is; any other object
  gets a new empty array as its \<^verbatim>\<open>tags\<close>, and the tag groups are pushed as a target together
  with that array. The array is shared by the object and the target, and
  \<^verbatim>\<open>_expandTagGroups\<close> fills it later through the target. The model keeps a target as its
  tag groups and gives the object the final contents of the array: \<open>tagsAt k\<close> is what the
  array of the target number \<open>k\<close> holds in the end. Here the field \<^verbatim>\<open>tags\<close> changes from a
  list of tag groups to a list of tags, so the model builds the object anew.
\<close>

definition headwordWithTags :: "'s termHeadword \<Rightarrow> 't list \<Rightarrow> 't termHeadword" where
  "headwordWithTags h tags =
     \<lparr>hw_index = hw_index h, hw_term = hw_term h, hw_reading = hw_reading h,
      hw_sources = hw_sources h, hw_tags = tags, hw_wordClasses = hw_wordClasses h\<rparr>"

definition definitionWithTags :: "'s termDefinition \<Rightarrow> 't list \<Rightarrow> 't termDefinition" where
  "definitionWithTags d tags =
     \<lparr>def_index = def_index d, def_headwordIndices = def_headwordIndices d,
      def_dictionary = def_dictionary d, def_dictionaryIndex = def_dictionaryIndex d,
      def_dictionaryPriority = def_dictionaryPriority d, def_id = def_id d,
      def_score = def_score d, def_frequencyOrder = def_frequencyOrder d,
      def_sequences = def_sequences d, def_isPrimary = def_isPrimary d, def_tags = tags,
      def_entries = def_entries d\<rparr>"

definition pitchWithTags :: "'s pitch \<Rightarrow> 't list \<Rightarrow> 't pitch" where
  "pitchWithTags p tags =
     \<lparr>pi_position = pi_position p, pi_nasalPositions = pi_nasalPositions p,
      pi_devoicePositions = pi_devoicePositions p, pi_tags = tags\<rparr>"

definition phoneticTranscriptionWithTags ::
  "'s phoneticTranscription \<Rightarrow> 't list \<Rightarrow> 't phoneticTranscription" where
  "phoneticTranscriptionWithTags p tags = \<lparr>pt_ipa = pt_ipa p, pt_tags = tags\<rparr>"

fun addTagExpansionTargets ::
  "('a \<Rightarrow> tagGroup list) \<Rightarrow> ('a \<Rightarrow> tag list \<Rightarrow> 'b) \<Rightarrow> (nat \<Rightarrow> tag list) \<Rightarrow> tagGroup list list
     \<Rightarrow> 'a list \<Rightarrow> tagGroup list list \<times> 'b list" where
  "addTagExpansionTargets tagsOf withTags tagsAt tagTargets [] = (tagTargets, [])"
| "addTagExpansionTargets tagsOf withTags tagsAt tagTargets (object # objects) =
     (let tagGroups = tagsOf object
      in if length tagGroups = 0
         then (let (tagTargets1, objects1) =
                     addTagExpansionTargets tagsOf withTags tagsAt tagTargets objects
               in (tagTargets1, withTags object [] # objects1))
         else (let (tagTargets1, objects1) =
                     addTagExpansionTargets tagsOf withTags tagsAt (tagTargets @ [tagGroups])
                       objects
               in (tagTargets1, withTags object (tagsAt (length tagTargets)) # objects1)))"

text \<open>\<^verbatim>\<open>_getTermTagTargets\<close>: the callback of \<^verbatim>\<open>pronunciations.forEach\<close>, the loop over the
  pronunciations, the body of the loop over the entries, and that loop. A pitch object (or
  a transcription object) that several pronunciations share in the code is visited once
  for each of them; it is a target at the first visit only, and the model, where every
  pronunciation has its copy, makes each copy a target with the same tag groups.\<close>

definition addPronunciationTargets ::
  "(nat \<Rightarrow> tag list) \<Rightarrow> tagGroup list list \<Rightarrow> tagGroup termPronunciation
     \<Rightarrow> tagGroup list list \<times> tag termPronunciation" where
  "addPronunciationTargets tagsAt tagTargets pronunciation =
     (let (tagTargets1, pitches) =
            addTagExpansionTargets pi_tags pitchWithTags tagsAt tagTargets
              (pr_pitches pronunciation);
          (tagTargets2, phoneticTranscriptions) =
            addTagExpansionTargets pt_tags phoneticTranscriptionWithTags tagsAt tagTargets1
              (pr_phoneticTranscriptions pronunciation)
      in (tagTargets2,
          createTermPronunciation (pr_index pronunciation) (pr_headwordIndex pronunciation)
            (pr_dictionary pronunciation) (pr_dictionaryIndex pronunciation)
            (pr_dictionaryPriority pronunciation) pitches phoneticTranscriptions))"

fun addPronunciationsTargets ::
  "(nat \<Rightarrow> tag list) \<Rightarrow> tagGroup list list \<Rightarrow> tagGroup termPronunciation list
     \<Rightarrow> tagGroup list list \<times> tag termPronunciation list" where
  "addPronunciationsTargets tagsAt tagTargets [] = (tagTargets, [])"
| "addPronunciationsTargets tagsAt tagTargets (pronunciation # rest) =
     (let (tagTargets1, pronunciation1) =
            addPronunciationTargets tagsAt tagTargets pronunciation;
          (tagTargets2, rest1) = addPronunciationsTargets tagsAt tagTargets1 rest
      in (tagTargets2, pronunciation1 # rest1))"

definition addEntryTagTargets ::
  "(nat \<Rightarrow> tag list) \<Rightarrow> tagGroup list list \<Rightarrow> ('h, tagGroup) termDictionaryEntry
     \<Rightarrow> tagGroup list list \<times> ('h, tag) termDictionaryEntry" where
  "addEntryTagTargets tagsAt tagTargets dictionaryEntry =
     (let (tagTargets1, hws) =
            addTagExpansionTargets hw_tags headwordWithTags tagsAt tagTargets
              (headwords dictionaryEntry);
          (tagTargets2, defs) =
            addTagExpansionTargets def_tags definitionWithTags tagsAt tagTargets1
              (definitions dictionaryEntry);
          (tagTargets3, prons) =
            addPronunciationsTargets tagsAt tagTargets2 (pronunciations dictionaryEntry)
      in (tagTargets3,
          \<lparr>isPrimary = isPrimary dictionaryEntry,
           inflectionHypotheses = inflectionHypotheses dictionaryEntry,
           score = score dictionaryEntry, frequencyOrder = frequencyOrder dictionaryEntry,
           dictionaryIndex = dictionaryIndex dictionaryEntry,
           dictionaryPriority = dictionaryPriority dictionaryEntry,
           sourceTermExactMatchCount = sourceTermExactMatchCount dictionaryEntry,
           maxTransformedTextLength = maxTransformedTextLength dictionaryEntry,
           headwords = hws, definitions = defs, pronunciations = prons,
           frequencies = frequencies dictionaryEntry\<rparr>))"

fun addEntriesTagTargets ::
  "(nat \<Rightarrow> tag list) \<Rightarrow> tagGroup list list \<Rightarrow> ('h, tagGroup) termDictionaryEntry list
     \<Rightarrow> tagGroup list list \<times> ('h, tag) termDictionaryEntry list" where
  "addEntriesTagTargets tagsAt tagTargets [] = (tagTargets, [])"
| "addEntriesTagTargets tagsAt tagTargets (dictionaryEntry # rest) =
     (let (tagTargets1, dictionaryEntry1) =
            addEntryTagTargets tagsAt tagTargets dictionaryEntry;
          (tagTargets2, rest1) = addEntriesTagTargets tagsAt tagTargets1 rest
      in (tagTargets2, dictionaryEntry1 # rest1))"

definition getTermTagTargets ::
  "(nat \<Rightarrow> tag list) \<Rightarrow> ('h, tagGroup) termDictionaryEntry list
     \<Rightarrow> tagGroup list list \<times> ('h, tag) termDictionaryEntry list" where
  "getTermTagTargets tagsAt dictionaryEntries = addEntriesTagTargets tagsAt [] dictionaryEntries"

text \<open>\<^verbatim>\<open>_clearTermTags\<close> calls \<^verbatim>\<open>_getTermTagTargets\<close> and drops the targets: nothing is pushed
  to the array of any target.\<close>

definition clearTermTags ::
  "('h, tagGroup) termDictionaryEntry list \<Rightarrow> ('h, tag) termDictionaryEntry list" where
  "clearTermTags dictionaryEntries = snd (getTermTagTargets (\<lambda>k. []) dictionaryEntries)"

subsection \<open>Tag expansion\<close>

definition getNameBase :: "string \<Rightarrow> string" where
  "getNameBase name = takeWhile (\<lambda>c. c \<noteq> CHR '':'') name"

definition createTag :: "databaseTag option \<Rightarrow> string \<Rightarrow> string \<Rightarrow> tag" where
  "createTag databaseTag name dictionary =
     \<lparr>tag_name = name,
      tag_category =
        (case Option.bind databaseTag dt_category of
           Some category \<Rightarrow> if length category > 0 then category else ''default''
         | None \<Rightarrow> ''default''),
      tag_order = (case Option.bind databaseTag dt_order of Some n \<Rightarrow> n | None \<Rightarrow> 0),
      tag_score = (case Option.bind databaseTag dt_score of Some n \<Rightarrow> n | None \<Rightarrow> 0),
      tag_content =
        (case Option.bind databaseTag dt_notes of
           Some notes \<Rightarrow> if length notes > 0 then [notes] else []
         | None \<Rightarrow> []),
      tag_dictionaries = [dictionary],
      tag_redundant = False\<rparr>"

text \<open>The first loop of \<^verbatim>\<open>_expandTagGroups\<close>. An item stands for a tag name of a dictionary
  and lists its targets, by their numbers, once for every occurrence of the name in the
  tag groups of the target. \<^verbatim>\<open>allItems\<close> has the items in the order of their creation;
  \<^verbatim>\<open>targetMap\<close> has a key for every dictionary of a tag group, in the order of the first
  occurrence.\<close>

record tagItem =
  ti_query :: string
  ti_dictionary :: string
  ti_tagName :: string
  ti_databaseTag :: "databaseTag option"
  ti_targets :: "nat list"

fun addItemTarget :: "string \<Rightarrow> string \<Rightarrow> nat \<Rightarrow> tagItem list \<Rightarrow> tagItem list" where
  "addItemTarget dictionary tagName target [] =
     [\<lparr>ti_query = getNameBase tagName, ti_dictionary = dictionary, ti_tagName = tagName,
       ti_databaseTag = None, ti_targets = [target]\<rparr>]"
| "addItemTarget dictionary tagName target (item # allItems) =
     (if ti_dictionary item = dictionary \<and> ti_tagName item = tagName
      then item\<lparr>ti_targets := ti_targets item @ [target]\<rparr> # allItems
      else item # addItemTarget dictionary tagName target allItems)"

definition addTargetItems :: "tagItem list \<Rightarrow> nat \<times> tagGroup list \<Rightarrow> tagItem list" where
  "addTargetItems allItems numbered =
     foldl (\<lambda>items tagGroup.
              foldl (\<lambda>items1 tagName.
                       addItemTarget (tg_dictionary tagGroup) tagName (fst numbered) items1)
                items (tg_tagNames tagGroup))
       allItems (snd numbered)"

definition collectItems :: "tagGroup list list \<Rightarrow> tagItem list" where
  "collectItems tagTargets = foldl addTargetItems [] (enumerate 0 tagTargets)"

definition targetDictionaries :: "tagGroup list list \<Rightarrow> string list" where
  "targetDictionaries tagTargets =
     foldl (\<lambda>dictionaries dictionary.
              if dictionary \<in> set dictionaries then dictionaries
              else dictionaries @ [dictionary])
       [] (map tg_dictionary (concat tagTargets))"

text \<open>The second loop, over the entries of \<^verbatim>\<open>targetMap\<close> and their items: a dictionary
  without a cache gets an empty one; an item whose query is in the cache of its dictionary
  takes the cached row, the others are the items to look up.\<close>

definition cachedTag :: "tagCache \<Rightarrow> tagItem \<Rightarrow> databaseTag option option" where
  "cachedTag cache item =
     (case map_of cache (ti_dictionary item) of
        None \<Rightarrow> None
      | Some dictionaryCache \<Rightarrow> map_of dictionaryCache (ti_query item))"

definition itemsByDictionary :: "string list \<Rightarrow> tagItem list \<Rightarrow> tagItem list" where
  "itemsByDictionary dictionaries allItems =
     concat (map (\<lambda>dictionary. filter (\<lambda>item. ti_dictionary item = dictionary) allItems)
               dictionaries)"

definition addMissingCaches :: "tagCache \<Rightarrow> string list \<Rightarrow> tagCache" where
  "addMissingCaches cache dictionaries =
     foldl (\<lambda>c dictionary. if map_of c dictionary = None then c @ [(dictionary, [])] else c)
       cache dictionaries"

text \<open>\<^verbatim>\<open>Map.prototype.set\<close> on an association list.\<close>

fun mapSet :: "('k \<times> 'v) list \<Rightarrow> 'k \<Rightarrow> 'v \<Rightarrow> ('k \<times> 'v) list" where
  "mapSet [] key v = [(key, v)]"
| "mapSet ((k, w) # rest) key v =
     (if k = key then (k, v) # rest else (k, w) # mapSet rest key v)"

text \<open>The loop over the rows of the lookup: the row of an item is the one at its position
  (\<^verbatim>\<open>null\<close> where the database returned fewer rows), and it is stored in the cache of the
  dictionary of the item under its query.\<close>

definition storeTag :: "tagCache \<Rightarrow> tagItem \<times> databaseTag option \<Rightarrow> tagCache" where
  "storeTag cache found =
     mapSet cache (ti_dictionary (fst found))
       (mapSet (case map_of cache (ti_dictionary (fst found)) of
                  None \<Rightarrow> [] | Some dictionaryCache \<Rightarrow> dictionaryCache)
          (ti_query (fst found)) (snd found))"

definition rowAt :: "databaseTag option list \<Rightarrow> nat \<Rightarrow> databaseTag option" where
  "rowAt databaseTags i = (if i < length databaseTags then databaseTags ! i else None)"

text \<open>The last loop pushes, for every item in the order of \<^verbatim>\<open>allItems\<close>, a new tag to the
  array of each of its targets.\<close>

definition pushItemTags :: "tag list list \<Rightarrow> tagItem \<Rightarrow> tag list list" where
  "pushItemTags tagLists item =
     foldl (\<lambda>lists k.
              lists[k := lists ! k @
                      [createTag (ti_databaseTag item) (ti_tagName item) (ti_dictionary item)]])
       tagLists (ti_targets item)"

text \<open>\<^verbatim>\<open>_expandTagGroups\<close>: the lookup, if one is made, the cache it leaves, and the contents
  of the arrays of the targets.\<close>

definition expandTagGroups ::
  "((string \<times> string) list \<Rightarrow> databaseTag option list) \<Rightarrow> tagCache \<Rightarrow> tagGroup list list
     \<Rightarrow> databaseCall list \<times> tagCache \<times> tag list list" where
  "expandTagGroups findTagMetaBulk cache tagTargets =
     (let allItems = collectItems tagTargets;
          dictionaries = targetDictionaries tagTargets;
          cache1 = addMissingCaches cache dictionaries;
          nonCachedItems =
            filter (\<lambda>item. cachedTag cache1 item = None)
              (itemsByDictionary dictionaries allItems);
          queries = map (\<lambda>item. (ti_query item, ti_dictionary item)) nonCachedItems;
          databaseTags = findTagMetaBulk queries;
          found = map (\<lambda>(i, item). (item, rowAt databaseTags i)) (enumerate 0 nonCachedItems);
          cache2 = (if length nonCachedItems > 0 then foldl storeTag cache1 found else cache1);
          resolved =
            map (\<lambda>item.
                   case cachedTag cache1 item of
                     Some databaseTag \<Rightarrow> item\<lparr>ti_databaseTag := databaseTag\<rparr>
                   | None \<Rightarrow>
                       (case find (\<lambda>f. ti_dictionary (fst f) = ti_dictionary item
                                        \<and> ti_tagName (fst f) = ti_tagName item) found of
                          Some f \<Rightarrow> item\<lparr>ti_databaseTag := snd f\<rparr>
                        | None \<Rightarrow> item))
              allItems
      in (if length nonCachedItems > 0 then [FindTagMetaBulk queries] else [],
          cache2,
          foldl pushItemTags (replicate (length tagTargets) []) resolved))"

text \<open>\<^verbatim>\<open>_groupTags\<close>: its comparison function, and the loop over the targets.\<close>

definition compareTags :: "(string \<Rightarrow> string \<Rightarrow> int) \<Rightarrow> tag \<Rightarrow> tag \<Rightarrow> int" where
  "compareTags stringComparer v1 v2 =
     (if tag_order v1 - tag_order v2 \<noteq> 0 then tag_order v1 - tag_order v2
      else stringComparer (tag_name v1) (tag_name v2))"

definition groupTags :: "(string \<Rightarrow> string \<Rightarrow> int) \<Rightarrow> tag list list \<Rightarrow> tag list list" where
  "groupTags stringComparer tagLists =
     map (\<lambda>tags. if length tags \<le> 1 then tags
                  else arraySort (compareTags stringComparer) (mergeSimilarTags tags))
       tagLists"

text \<open>\<^verbatim>\<open>_expandTermTags\<close>: the targets are collected, the contents of their arrays are
  computed, and the objects get them.\<close>

definition expandTermTags ::
  "((string \<times> string) list \<Rightarrow> databaseTag option list) \<Rightarrow> (string \<Rightarrow> string \<Rightarrow> int) \<Rightarrow> tagCache
     \<Rightarrow> ('h, tagGroup) termDictionaryEntry list
     \<Rightarrow> databaseCall list \<times> tagCache \<times> ('h, tag) termDictionaryEntry list" where
  "expandTermTags findTagMetaBulk stringComparer cache dictionaryEntries =
     (let tagTargets = fst (getTermTagTargets (\<lambda>k. []) dictionaryEntries);
          (calls, cache1, tagLists) = expandTagGroups findTagMetaBulk cache tagTargets;
          grouped = groupTags stringComparer tagLists
      in (calls, cache1,
          snd (getTermTagTargets (\<lambda>k. if k < length grouped then grouped ! k else [])
                 dictionaryEntries)))"

subsection \<open>The redundant tags and the order of the simple data\<close>

text \<open>\<^verbatim>\<open>_getTagNamesWithCategory\<close>; the default order of \<^verbatim>\<open>sort\<close> on strings is the order of
  their code units.\<close>

definition getTagNamesWithCategory :: "tag list \<Rightarrow> string \<Rightarrow> string list" where
  "getTagNamesWithCategory tags category =
     sort (map tag_name (filter (\<lambda>t. tag_category t = category) tags))"

text \<open>The loop of \<^verbatim>\<open>_flagRedundantDefinitionTags\<close>. The key of the names is their JSON text,
  which is equal for two lists of names exactly when the lists are equal; the model keeps
  the list, and \<open>None\<close> for the empty string that \<^verbatim>\<open>lastPartOfSpeech\<close> starts with, which is
  the key of no list. The set of the categories to remove is empty at the start of every
  round, so a round flags the tags of the category \<^verbatim>\<open>partOfSpeech\<close> exactly when its key is
  the last one.\<close>

fun flagRedundantLoop ::
  "string option \<Rightarrow> string list option \<Rightarrow> tag termDefinition list \<Rightarrow> tag termDefinition list" where
  "flagRedundantLoop lastDictionary lastPartOfSpeech [] = []"
| "flagRedundantLoop lastDictionary lastPartOfSpeech (d # defs) =
     (let partOfSpeech = getTagNamesWithCategory (def_tags d) ''partOfSpeech'';
          lastPartOfSpeech1 =
            (if lastDictionary \<noteq> Some (def_dictionary d) then None else lastPartOfSpeech)
      in if lastPartOfSpeech1 = Some partOfSpeech
         then d\<lparr>def_tags :=
                  map (\<lambda>t. if tag_category t = ''partOfSpeech'' then t\<lparr>tag_redundant := True\<rparr>
                           else t)
                    (def_tags d)\<rparr>
              # flagRedundantLoop (Some (def_dictionary d)) lastPartOfSpeech1 defs
         else d # flagRedundantLoop (Some (def_dictionary d)) (Some partOfSpeech) defs)"

definition flagRedundantDefinitionTags :: "tag termDefinition list \<Rightarrow> tag termDefinition list" where
  "flagRedundantDefinitionTags defs =
     (if length defs = 0 then defs else flagRedundantLoop None None defs)"

text \<open>The comparison function of \<^verbatim>\<open>_sortTermDictionaryEntrySimpleData\<close>, for the frequencies
  and for the pronunciations.\<close>

definition compareSimpleData ::
  "('a \<Rightarrow> int) \<Rightarrow> ('a \<Rightarrow> nat) \<Rightarrow> ('a \<Rightarrow> int) \<Rightarrow> ('a \<Rightarrow> nat) \<Rightarrow> 'a \<Rightarrow> 'a \<Rightarrow> int" where
  "compareSimpleData dictionaryPriorityOf headwordIndexOf dictionaryIndexOf indexOf v1 v2 =
     (if dictionaryPriorityOf v2 - dictionaryPriorityOf v1 \<noteq> 0
      then dictionaryPriorityOf v2 - dictionaryPriorityOf v1
      else if int (headwordIndexOf v1) - int (headwordIndexOf v2) \<noteq> 0
      then int (headwordIndexOf v1) - int (headwordIndexOf v2)
      else if dictionaryIndexOf v1 - dictionaryIndexOf v2 \<noteq> 0
      then dictionaryIndexOf v1 - dictionaryIndexOf v2
      else int (indexOf v1) - int (indexOf v2))"

definition sortTermFrequencies :: "termFrequency list \<Rightarrow> termFrequency list" where
  "sortTermFrequencies dataList =
     arraySort (compareSimpleData fr_dictionaryPriority fr_headwordIndex fr_dictionaryIndex
                  fr_index) dataList"

definition sortTermPronunciations :: "'t termPronunciation list \<Rightarrow> 't termPronunciation list" where
  "sortTermPronunciations dataList =
     arraySort (compareSimpleData pr_dictionaryPriority pr_headwordIndex pr_dictionaryIndex
                  pr_index) dataList"

subsection \<open>The function\<close>

text \<open>The map \<^verbatim>\<open>sortDictionaryMap\<close> of the mode \<^verbatim>\<open>'simple'\<close>: the list of the one key is
  filtered by the enabled dictionaries and folded into a new map.\<close>

definition sortDictionaryMap :: "string \<Rightarrow> enabledDictionaryMap \<Rightarrow> enabledDictionaryMap" where
  "sortDictionaryMap sortFrequencyDictionary enabledDictionaryMap =
     foldl (\<lambda>subMap key. mapSet subMap key (the (map_of enabledDictionaryMap key))) []
       (filter (\<lambda>key. map_of enabledDictionaryMap key \<noteq> None) [sortFrequencyDictionary])"

text \<open>The \<^verbatim>\<open>switch\<close> on the mode.\<close>

definition groupByMode ::
  "translator \<Rightarrow> findTermsMode \<Rightarrow> findTermsOptions \<Rightarrow> findState
     \<Rightarrow> error + (nat, tagGroup) termDictionaryEntry list" where
  "groupByMode tr mode options found =
     (case mode of
        ModeGroup \<Rightarrow>
          tr_groupDictionaryEntriesByHeadword tr (ft_store found) (ft_dictionaryEntries found)
      | ModeMerge \<Rightarrow>
          tr_getRelatedDictionaryEntries tr (ft_store found) (ft_dictionaryEntries found)
            (opt_mainDictionary options) (opt_enabledDictionaryMap options)
      | _ \<Rightarrow> Inr (ft_dictionaryEntries found))"

text \<open>Lines 95 to 106: the metadata and the tags, by the mode. The result has the log of
  the metadata lookups, the tag cache, and the entries or the error.\<close>

definition addMetaAndTags ::
  "translator \<Rightarrow> findTermsMode \<Rightarrow> findTermsOptions \<Rightarrow> (nat, tagGroup) termDictionaryEntry list
     \<Rightarrow> databaseCall list \<times> tagCache \<times> (error + (nat, tag) termDictionaryEntry list)" where
  "addMetaAndTags tr mode options dictionaryEntries =
     (if mode = ModeSimple
      then (case opt_sortFrequencyDictionary options of
              None \<Rightarrow> ([], tr_tagCache tr, Inr (clearTermTags dictionaryEntries))
            | Some sortFrequencyDictionary \<Rightarrow>
                (let (calls, r) =
                       addTermMeta tr dictionaryEntries
                         (sortDictionaryMap sortFrequencyDictionary
                            (opt_enabledDictionaryMap options))
                 in (calls, tr_tagCache tr,
                     case r of Inl e \<Rightarrow> Inl e
                             | Inr withMeta \<Rightarrow> Inr (clearTermTags withMeta))))
      else (let (calls, r) =
                  addTermMeta tr dictionaryEntries (opt_enabledDictionaryMap options)
            in case r of
                 Inl e \<Rightarrow> (calls, tr_tagCache tr, Inl e)
               | Inr withMeta \<Rightarrow>
                   (let (tagCalls, cache, expanded) =
                          expandTermTags (tr_findTagMetaBulk tr) (tr_stringComparer tr)
                            (tr_tagCache tr) withMeta
                    in (calls @ tagCalls, cache, Inr expanded))))"

text \<open>The loop at the end of \<^verbatim>\<open>findTerms\<close>, for one entry.\<close>

definition sortEntryData :: "('h, tag) termDictionaryEntry \<Rightarrow> ('h, tag) termDictionaryEntry" where
  "sortEntryData dictionaryEntry =
     (let defs = flagRedundantDefinitionTags (definitions dictionaryEntry)
      in dictionaryEntry
           \<lparr>definitions :=
              (if length defs > 1 then sortTermDictionaryEntryDefinitions defs else defs),
            frequencies :=
              (if length (frequencies dictionaryEntry) > 1
               then sortTermFrequencies (frequencies dictionaryEntry)
               else frequencies dictionaryEntry),
            pronunciations :=
              (if length (pronunciations dictionaryEntry) > 1
               then sortTermPronunciations (pronunciations dictionaryEntry)
               else pronunciations dictionaryEntry)\<rparr>)"

text \<open>Lines 108 to 119: the sort frequencies, the order of the entries, and the loop.\<close>

definition sortFoundEntries ::
  "translator \<Rightarrow> findTermsOptions \<Rightarrow> ('h, tag) termDictionaryEntry list
     \<Rightarrow> ('h, tag) termDictionaryEntry list" where
  "sortFoundEntries tr options dictionaryEntries =
     (let withOrder =
            (case opt_sortFrequencyDictionary options of
               None \<Rightarrow> dictionaryEntries
             | Some sortFrequencyDictionary \<Rightarrow>
                 updateSortFrequencies dictionaryEntries sortFrequencyDictionary
                   (opt_sortFrequencyDictionaryOrder options = ''ascending''));
          sorted =
            (if length withOrder > 1
             then sortTermDictionaryEntries (tr_stringComparer tr) withOrder else withOrder)
      in map sortEntryData sorted)"

record findTermsResult =
  ftr_dictionaryEntries :: "(nat, tag) termDictionaryEntry list"
  ftr_originalTextLength :: nat
  ftr_store :: hypothesisStore

text \<open>\<^verbatim>\<open>findTerms\<close>: the log of the metadata lookups, the tag cache it leaves, and the result
  or the error. The entries refer to their inflection hypotheses in the store of the
  result.\<close>

definition findTerms ::
  "translator \<Rightarrow> findTermsMode \<Rightarrow> string \<Rightarrow> findTermsOptions
     \<Rightarrow> databaseCall list \<times> tagCache \<times> (error + findTermsResult)" where
  "findTerms tr mode text options =
     (case findTermsInternal (opt_removeNonJapaneseCharacters options)
             (tr_getJapaneseOnlyText tr)
             (\<lambda>t. tr_getDeinflections tr t (opt_enabledDictionaryMap options) options)
             text (opt_enabledDictionaryMap options) of
        Inl e \<Rightarrow> ([], tr_tagCache tr, Inl e)
      | Inr found \<Rightarrow>
          (case groupByMode tr mode options found of
             Inl e \<Rightarrow> ([], tr_tagCache tr, Inl e)
           | Inr grouped \<Rightarrow>
               (let remaining =
                      (case opt_excludeDictionaryDefinitions options of
                         None \<Rightarrow> grouped
                       | Some excludeDictionaryDefinitions \<Rightarrow>
                           removeExcludedDefinitions grouped excludeDictionaryDefinitions);
                    (calls, cache, r) = addMetaAndTags tr mode options remaining
                in (calls, cache,
                    case r of
                      Inl e \<Rightarrow> Inl e
                    | Inr dictionaryEntries \<Rightarrow>
                        Inr \<lparr>ftr_dictionaryEntries = sortFoundEntries tr options dictionaryEntries,
                             ftr_originalTextLength = ft_originalTextLength found,
                             ftr_store = ft_store found\<rparr>))))"

text \<open>The three parts of what \<^verbatim>\<open>findTerms\<close> gives.\<close>

definition databaseCalls ::
  "databaseCall list \<times> tagCache \<times> (error + findTermsResult) \<Rightarrow> databaseCall list" where
  "databaseCalls outcome = fst outcome"

definition cacheLeft :: "databaseCall list \<times> tagCache \<times> (error + findTermsResult) \<Rightarrow> tagCache" where
  "cacheLeft outcome = fst (snd outcome)"

definition returned ::
  "databaseCall list \<times> tagCache \<times> (error + findTermsResult) \<Rightarrow> error + findTermsResult" where
  "returned outcome = snd (snd outcome)"

text \<open>For the statements: every tag list of an entry is empty; the lookups of tag metadata
  in a log; and a database whose rows carry the position of a term of the list.\<close>

definition tagsCleared :: "('h, 't) termDictionaryEntry \<Rightarrow> bool" where
  "tagsCleared e \<longleftrightarrow>
     list_all (\<lambda>h. hw_tags h = []) (headwords e)
     \<and> list_all (\<lambda>d. def_tags d = []) (definitions e)
     \<and> list_all (\<lambda>p. list_all (\<lambda>x. pi_tags x = []) (pr_pitches p)
                     \<and> list_all (\<lambda>x. pt_tags x = []) (pr_phoneticTranscriptions p))
         (pronunciations e)"

fun isTagMetaLookup :: "databaseCall \<Rightarrow> bool" where
  "isTagMetaLookup (FindTagMetaBulk items) = True"
| "isTagMetaLookup (FindTermMetaBulk termList dictionaries) = False"

definition rowsInRange :: "translator \<Rightarrow> bool" where
  "rowsInRange tr \<longleftrightarrow>
     (\<forall>termList dictionaries.
        list_all (\<lambda>row. tm_index row < length termList)
          (tr_findTermMetaBulk tr termList dictionaries))"

text \<open>Sample data for the lookup: a candidate with two hits of the same term and reading
  that carry tags, in the dictionaries \<^verbatim>\<open>D\<close> and \<^verbatim>\<open>E\<close>; a database whose dictionary \<^verbatim>\<open>F\<close> has
  a frequency, a pitch with a tag and a transcription with a tag for the term \<^verbatim>\<open>ab\<close> and knows the tag \<^verbatim>\<open>n\<close>; and
  options that sort by the frequencies of \<^verbatim>\<open>F\<close>.\<close>

definition taggedHit :: databaseEntry where
  "taggedHit =
     exactHit\<lparr>dbe_reading := ''ab'', dbe_definitionTags := [''n''], dbe_termTags := [''P'']\<rparr>"

definition taggedCandidate :: deinflection where
  "taggedCandidate =
     algorithmCandidate
       \<lparr>dfl_databaseEntries := [taggedHit, taggedHit\<lparr>dbe_id := 3, dbe_dictionary := ''E''\<rparr>]\<rparr>"

definition sampleTermMetaBulk :: "string list \<Rightarrow> enabledDictionaryMap \<Rightarrow> termMeta list" where
  "sampleTermMetaBulk termList dictionaries =
     concat (map (\<lambda>i. if termList ! i = ''ab'' \<and> map_of dictionaries ''F'' \<noteq> None
                       then [\<lparr>tm_index = i, tm_dictionary = ''F'',
                              tm_data = FreqData (FrequencyString ''7'')\<rparr>,
                             \<lparr>tm_index = i, tm_dictionary = ''F'',
                              tm_data = PitchData ''ab''
                                [\<lparr>pd_position = 1, pd_tags = Some [''t''],
                                  pd_nasal = SingleNumber 1, pd_devoice = NoNumber\<rparr>]\<rparr>,
                             \<lparr>tm_index = i, tm_dictionary = ''F'',
                              tm_data = IpaData ''ab''
                                [\<lparr>ipd_ipa = ''ab'', ipd_tags = Some [''u'']\<rparr>]\<rparr>]
                       else [])
               [0 ..< length termList])"

definition sampleTranslator :: translator where
  "sampleTranslator =
     \<lparr>tr_getJapaneseOnlyText = keepText,
      tr_getDeinflections = (\<lambda>text dictionaries options. [taggedCandidate]),
      tr_stringComparer = codeUnitComparer,
      tr_convertStringToNumber = (\<lambda>s. 7),
      tr_findTermMetaBulk = sampleTermMetaBulk,
      tr_findTagMetaBulk =
        map (\<lambda>q. if fst q = ''n''
                  then Some \<lparr>dt_category = Some ''partOfSpeech'', dt_notes = Some ''noun'',
                             dt_order = Some 0, dt_score = Some 0\<rparr>
                  else None),
      tr_tagCache = [],
      tr_groupDictionaryEntriesByHeadword = (\<lambda>store dictionaryEntries. Inr dictionaryEntries),
      tr_getRelatedDictionaryEntries =
        (\<lambda>store dictionaryEntries mainDictionary dictionaries. Inr dictionaryEntries)\<rparr>"

definition sampleOptions :: findTermsOptions where
  "sampleOptions =
     \<lparr>opt_removeNonJapaneseCharacters = False, opt_mainDictionary = ''D'',
      opt_enabledDictionaryMap =
        [(''D'', \<lparr>dd_index = 0, dd_priority = 0, dd_allowSecondarySearches = False\<rparr>),
         (''E'', \<lparr>dd_index = 1, dd_priority = 0, dd_allowSecondarySearches = False\<rparr>),
         (''F'', \<lparr>dd_index = 2, dd_priority = 0, dd_allowSecondarySearches = False\<rparr>)],
      opt_excludeDictionaryDefinitions = None,
      opt_sortFrequencyDictionary = Some ''F'',
      opt_sortFrequencyDictionaryOrder = ''ascending''\<rparr>"

text \<open>The sample translator with the three sample candidates of the term finder.\<close>

definition lengthTranslator :: translator where
  "lengthTranslator =
     sampleTranslator
       \<lparr>tr_getDeinflections := (\<lambda>text dictionaries options. sampleDeinflections text)\<rparr>"

(* ---- end of the definitions ---- *)

section \<open>Properties of the text-variant generator\<close>

lemma foldl_mult_prod: "foldl (\<lambda>acc len. acc * len) a ls = a * prod_list ls" for a :: nat
  by (induction ls arbitrary: a) (auto simp: algebra_simps)

lemma totalVariants_prod: "totalVariants space = prod_list (map (\<lambda>(key, vs). length vs) space)"
  by (simp add: totalVariants_def foldl_mult_prod)

lemma length_generateArrayVariants:
  "length (generateArrayVariants space) = prod_list (map (\<lambda>(key, vs). length vs) space)"
  by (simp add: generateArrayVariants_def totalVariants_prod)

lemma variantAt_inj:
  "\<forall>(k, vs) \<in> set space. distinct vs \<Longrightarrow> i < totalVariants space \<Longrightarrow> j < totalVariants space
   \<Longrightarrow> variantAt space i = variantAt space j \<Longrightarrow> i = j"
proof (induction space arbitrary: i j)
  case Nil
  then show ?case by (simp add: totalVariants_def)
next
  case (Cons a space)
  obtain k vs where a: "a = (k, vs)" by (cases a)
  let ?n = "length vs"
  from Cons.prems(2) have pos: "0 < ?n"
    by (cases "?n = 0") (auto simp: a totalVariants_prod)
  have ti: "i div ?n < totalVariants space"
    using Cons.prems(2) pos by (simp add: a totalVariants_prod less_mult_imp_div_less mult.commute)
  have tj: "j div ?n < totalVariants space"
    using Cons.prems(3) pos by (simp add: a totalVariants_prod less_mult_imp_div_less mult.commute)
  from Cons.prems(4) have hd: "vs ! (i mod ?n) = vs ! (j mod ?n)"
    and tl: "variantAt space (i div ?n) = variantAt space (j div ?n)"
    by (simp_all add: a)
  have d: "distinct vs" using Cons.prems(1) by (simp add: a)
  have "i mod ?n = j mod ?n"
    using hd d pos by (simp add: nth_eq_iff_index_eq)
  moreover have "i div ?n = j div ?n"
    using Cons.IH[OF _ ti tj tl] Cons.prems(1) by simp
  ultimately show ?case
    by (metis div_mult_mod_eq)
qed

lemma distinct_generateArrayVariants:
  "\<forall>(k, vs) \<in> set space. distinct vs \<Longrightarrow> distinct (generateArrayVariants space)"
  unfolding generateArrayVariants_def
  by (auto simp: distinct_map inj_on_def dest: variantAt_inj)

lemma objectSet_fresh: "k \<notin> fst ` set kvs \<Longrightarrow> objectSet k v kvs = kvs @ [(k, v)]"
  by (induction kvs) auto

lemma fold_objectSet_fresh:
  "distinct (map fst new) \<Longrightarrow> fst ` set new \<inter> fst ` set obj = {}
   \<Longrightarrow> fold (\<lambda>(key, setting). objectSet key (f setting)) new obj
       = obj @ map (\<lambda>(key, setting). (key, f setting)) new"
proof (induction new arbitrary: obj)
  case Nil
  then show ?case by simp
next
  case (Cons a new)
  obtain k s where a: "a = (k, s)" by (cases a)
  have fresh: "k \<notin> fst ` set obj" using Cons.prems(2) by (auto simp: a)
  have step: "objectSet k (f s) obj = obj @ [(k, f s)]" by (rule objectSet_fresh[OF fresh])
  have d: "distinct (map fst new)" using Cons.prems(1) by simp
  have disj: "fst ` set new \<inter> fst ` set (obj @ [(k, f s)]) = {}"
    using Cons.prems by (auto simp: a)
  show ?case
    using Cons.IH[OF d disj] by (simp add: a step)
qed

lemma prod_list_variant_axes:
  "prod_list (map (\<lambda>(key, vs). length vs)
      (map (\<lambda>(key, setting). (key, map Flag (getTextOptionEntryVariants setting))) tts))
   = 2 ^ length (filter (\<lambda>(key, setting). setting = ''variant'') tts)"
  by (induction tts) (auto simp: getTextOptionEntryVariants_def)


text \<open>
  Claim C5, as the code has it. A text-transformation axis yields two outcomes for the
  setting \<^verbatim>\<open>'variant'\<close> and one outcome for every other setting. The collapse-emphatic axis
  yields one outcome when the setting is off, two for \<^verbatim>\<open>'true'\<close> (the text as it is and the
  collapsed text) and three for \<^verbatim>\<open>'full'\<close>. The generator yields as many variants as the
  product of the axis sizes; they are pairwise different when no axis repeats an outcome.
  For the space of \<^verbatim>\<open>_getAlgorithmDeinflections\<close> this product is the number of configured
  text-replacement variants, times the size of the collapse-emphatic axis, times two for
  every transformation set to \<^verbatim>\<open>'variant'\<close>.
\<close>

theorem generateArrayVariants_count:
  "length (getTextOptionEntryVariants ''variant'') = 2
   \<and> (setting \<noteq> ''variant'' \<longrightarrow> length (getTextOptionEntryVariants setting) = 1)
   \<and> length (getCollapseEmphaticOptions c)
        = (if c = ''full'' then 3 else if c = ''true'' then 2 else 1)
   \<and> length (generateArrayVariants space) = prod_list (map (\<lambda>(key, vs). length vs) space)
   \<and> ((\<forall>(key, vs) \<in> set space. distinct vs) \<longrightarrow> distinct (generateArrayVariants space))
   \<and> (distinct (map fst tts) \<and> ''textReplacements'' \<notin> fst ` set tts
        \<and> ''collapseEmphaticOptions'' \<notin> fst ` set tts \<longrightarrow>
      length (generateArrayVariants (variantVectorSpace tr c tts))
        = length tr * (if c = ''full'' then 3 else if c = ''true'' then 2 else 1)
            * 2 ^ length (filter (\<lambda>(key, setting). setting = ''variant'') tts))"
proof -
  have 1: "length (getTextOptionEntryVariants ''variant'') = 2"
    by (simp add: getTextOptionEntryVariants_def)
  have 2: "setting \<noteq> ''variant'' \<longrightarrow> length (getTextOptionEntryVariants setting) = 1"
    by (simp add: getTextOptionEntryVariants_def)
  have 3: "length (getCollapseEmphaticOptions c)
             = (if c = ''full'' then 3 else if c = ''true'' then 2 else 1)"
    by (simp add: getCollapseEmphaticOptions_def)
  have 4: "length (generateArrayVariants space) = prod_list (map (\<lambda>(key, vs). length vs) space)"
    by (rule length_generateArrayVariants)
  have 5: "(\<forall>(key, vs) \<in> set space. distinct vs) \<longrightarrow> distinct (generateArrayVariants space)"
    using distinct_generateArrayVariants by blast
  have 6: "length (generateArrayVariants (variantVectorSpace tr c tts))
        = length tr * (if c = ''full'' then 3 else if c = ''true'' then 2 else 1)
            * 2 ^ length (filter (\<lambda>(key, setting). setting = ''variant'') tts)"
    if d: "distinct (map fst tts)" and a: "''textReplacements'' \<notin> fst ` set tts"
      and b: "''collapseEmphaticOptions'' \<notin> fst ` set tts"
  proof -
    let ?obj = "[(''textReplacements'', map TextReplacements tr),
        (''collapseEmphaticOptions'',
           map (\<lambda>(collapseEmphatic, collapseEmphaticFull).
                  CollapseEmphatic collapseEmphatic collapseEmphaticFull)
             (getCollapseEmphaticOptions c))]"
    have disj: "fst ` set tts \<inter> fst ` set ?obj = {}" using a b by auto
    have "variantVectorSpace tr c tts
        = ?obj @ map (\<lambda>(key, setting). (key, map Flag (getTextOptionEntryVariants setting))) tts"
      unfolding variantVectorSpace_def by (rule fold_objectSet_fresh[OF d disj])
    then have "length (generateArrayVariants (variantVectorSpace tr c tts))
        = length tr * length (getCollapseEmphaticOptions c)
            * prod_list (map (\<lambda>(key, vs). length vs)
                (map (\<lambda>(key, setting). (key, map Flag (getTextOptionEntryVariants setting))) tts))"
      unfolding length_generateArrayVariants by simp
    then show ?thesis
      unfolding prod_list_variant_axes 3 .
  qed
  show ?thesis using 1 2 3 4 5 6 by blast
qed

text \<open>The theorem at a concrete configuration: one replacement variant, collapsing set to
  \<^verbatim>\<open>'true'\<close>, one transformation set to \<^verbatim>\<open>'variant'\<close>: four variants, all different.\<close>

theorem generateArrayVariants_count_witness:
  "length (generateArrayVariants
      (variantVectorSpace [None] ''true'' [(''decapitalize'', ''variant'')])) = 4
   \<and> distinct (generateArrayVariants
      (variantVectorSpace [None] ''true'' [(''decapitalize'', ''variant'')]))"
  using generateArrayVariants_count[of "''true''" "''true''"
      "variantVectorSpace [None] ''true'' [(''decapitalize'', ''variant'')]"
      "[(''decapitalize'', ''variant'')]" "[None]"]
  by (simp add: variantVectorSpace_def getCollapseEmphaticOptions_def
      getTextOptionEntryVariants_def)

text \<open>Claim C5 as stated fails: with collapsing set to \<^verbatim>\<open>'true'\<close> (on) the axis has two
  outcomes, with \<^verbatim>\<open>'full'\<close> three, and a configuration with no other choice yields two
  variants where the claim counts one.\<close>

theorem collapseEmphatic_on_counterexample:
  "length (getCollapseEmphaticOptions ''true'') = 2
   \<and> length (getCollapseEmphaticOptions ''full'') = 3
   \<and> generateArrayVariants (variantVectorSpace [None] ''true'' [])
       = [[(''textReplacements'', TextReplacements None),
           (''collapseEmphaticOptions'', CollapseEmphatic False False)],
          [(''textReplacements'', TextReplacements None),
           (''collapseEmphaticOptions'', CollapseEmphatic True False)]]"
  by (simp add: getCollapseEmphaticOptions_def generateArrayVariants_def
      variantVectorSpace_def totalVariants_def upt_rec)

section \<open>Properties of the grouping fold\<close>

lemma length_addTermHeadwords: "length (snd (addTermHeadwords hm hs)) = length hs"
  by (induction hs arbitrary: hm) (simp_all add: case_prod_beta Let_def)

lemma map_fst_collectHeadwords: "map fst (snd (collectHeadwords hm es)) = es"
  by (induction es arbitrary: hm) (simp_all add: case_prod_beta Let_def)

lemma collectHeadwords_lengths:
  "(e, m) \<in> set (snd (collectHeadwords hm es)) \<Longrightarrow> length m = length (headwords e)"
proof (induction es arbitrary: hm)
  case Nil
  then show ?case by simp
next
  case (Cons a es)
  obtain hm1 m1 where a: "addTermHeadwords hm (headwords a) = (hm1, m1)" by fastforce
  have l: "length m1 = length (headwords a)"
    using length_addTermHeadwords[of hm "headwords a"] a by simp
  from Cons.prems have "(e, m) = (a, m1) \<or> (e, m) \<in> set (snd (collectHeadwords hm1 es))"
    by (auto simp: a split: prod.splits)
  then show ?case using l Cons.IH by auto
qed

lemma remapHeadwordIndices_total:
  "\<forall>i \<in> set is. i < length m \<Longrightarrow> \<exists>r. remapHeadwordIndices m is = Inr r"
  by (induction "is") auto

lemma addTermDefinitionsFast_total:
  "\<forall>d \<in> set ds. \<forall>i \<in> set (def_headwordIndices d). i < length m
   \<Longrightarrow> \<exists>r. addTermDefinitionsFast defs ds m = Inr r"
proof (induction ds arbitrary: defs)
  case Nil
  then show ?case by simp
next
  case (Cons d ds)
  then obtain r where "remapHeadwordIndices m (def_headwordIndices d) = Inr r"
    using remapHeadwordIndices_total[of "def_headwordIndices d" m] by auto
  then show ?case using Cons by simp
qed

lemma addTermDefinitions_total:
  "\<forall>d \<in> set ds. \<forall>i \<in> set (def_headwordIndices d). i < length m
   \<Longrightarrow> \<exists>r. addTermDefinitions defs ds m = Inr r"
proof (induction ds arbitrary: defs)
  case Nil
  then show ?case by simp
next
  case (Cons d ds)
  then obtain r where r: "remapHeadwordIndices m (def_headwordIndices d) = Inr r"
    using remapHeadwordIndices_total[of "def_headwordIndices d" m] by auto
  then obtain defs1 where "addTermDefinition defs d m = Inr defs1"
    by (simp add: addTermDefinition_def Let_def case_prod_beta)
  then show ?case using Cons by simp
qed

lemma mergeEntry_total:
  "\<forall>d \<in> set (definitions e). \<forall>i \<in> set (def_headwordIndices d). i < length m
   \<Longrightarrow> \<exists>st1. mergeEntry chk st (e, m) = Inr st1"
  using addTermDefinitions_total[of "definitions e" m]
    addTermDefinitionsFast_total[of "definitions e" m]
  by (auto simp: mergeEntry_def Let_def split: sum.splits) (metis Inl_Inr_False)+

lemma mergeEntries_total:
  "\<forall>(e, m) \<in> set des. \<forall>d \<in> set (definitions e). \<forall>i \<in> set (def_headwordIndices d).
      i < length m
   \<Longrightarrow> \<exists>st1. mergeEntries chk st des = Inr st1"
proof (induction des arbitrary: st)
  case Nil
  then show ?case by simp
next
  case (Cons de des)
  obtain e m where de: "de = (e, m)" by (cases de)
  from Cons.prems obtain st1 where "mergeEntry chk st (e, m) = Inr st1"
    using mergeEntry_total[of e m chk st] by (auto simp: de)
  then show ?case using Cons by (simp add: de)
qed

lemma createGroupedDictionaryEntry_total:
  assumes "list_all wfEntry es"
  shows "\<exists>r. createGroupedDictionaryEntry es chk = Inr r"
proof -
  obtain hws des where c: "collectHeadwords [] es = (hws, des)" by fastforce
  have "\<forall>(e, m) \<in> set des. \<forall>d \<in> set (definitions e). \<forall>i \<in> set (def_headwordIndices d).
          i < length m"
  proof (clarify)
    fix e m d i
    assume em: "(e, m) \<in> set des" and d: "d \<in> set (definitions e)"
      and i: "i \<in> set (def_headwordIndices d)"
    have "length m = length (headwords e)"
      using collectHeadwords_lengths[of e m "[]" es] em c by simp
    moreover have "e \<in> set es" using map_fst_collectHeadwords[of "[]" es] em c
      by (metis fst_conv image_eqI list.set_map snd_conv)
    ultimately show "i < length m" using assms d i by (auto simp: wfEntry_def list_all_iff)
  qed
  then obtain st1 where
    "mergeEntries (if length des \<le> 1 then False else chk) initialGroupState des = Inr st1"
    using mergeEntries_total by blast
  then show ?thesis by (simp add: createGroupedDictionaryEntry_def c)
qed

lemma mergeEntry_hyps:
  "mergeEntry chk st (e, m) = Inr st1
   \<Longrightarrow> gs_inflectionHypotheses st1 = pickStep (gs_inflectionHypotheses st) e"
  by (auto simp: mergeEntry_def Let_def mergePrimary_def pickStep_def
      split: sum.splits if_splits option.splits)

lemma mergeEntries_hyps:
  "mergeEntries chk st des = Inr st1
   \<Longrightarrow> gs_inflectionHypotheses st1
       = foldl pickStep (gs_inflectionHypotheses st) (map fst des)"
proof (induction des arbitrary: st)
  case Nil
  then show ?case by simp
next
  case (Cons de des)
  obtain e m where de: "de = (e, m)" by (cases de)
  from Cons.prems obtain st2 where s: "mergeEntry chk st (e, m) = Inr st2"
    and r: "mergeEntries chk st2 des = Inr st1"
    by (auto simp: de split: sum.splits)
  show ?case using Cons.IH[OF r] mergeEntry_hyps[OF s] by (simp add: de)
qed

lemma foldl_pickStep:
  "(case foldl pickStep None es of
      None \<Rightarrow> \<forall>e \<in> set es. \<not> isPrimary e
    | Some h \<Rightarrow> \<exists>i. firstShortestPrimary es i \<and> h = inflectionHypotheses (es ! i))"
proof (induction es rule: rev_induct)
  case Nil
  then show ?case by simp
next
  case (snoc x xs)
  show ?case
  proof (cases "foldl pickStep None xs")
    case None
    with snoc have np: "\<forall>e \<in> set xs. \<not> isPrimary e" by simp
    show ?thesis
    proof (cases "isPrimary x")
      case True
      have "firstShortestPrimary (xs @ [x]) (length xs)"
        using np True by (auto simp: firstShortestPrimary_def nth_append)
      moreover have "foldl pickStep None (xs @ [x]) = Some (inflectionHypotheses x)"
        using None True by (simp add: pickStep_def[of None x])
      ultimately show ?thesis by auto
    next
      case False
      have "foldl pickStep None (xs @ [x]) = None"
        using None False by (simp add: pickStep_def[of None x])
      then show ?thesis using np False by simp
    qed
  next
    case (Some h)
    with snoc obtain i where i: "firstShortestPrimary xs i"
      and h: "h = inflectionHypotheses (xs ! i)"
      by auto
    have il: "i < length xs" using i by (simp add: firstShortestPrimary_def)
    show ?thesis
    proof (cases "isPrimary x \<and> length (inflectionHypotheses x) < length h")
      case True
      have "firstShortestPrimary (xs @ [x]) (length xs)"
        unfolding firstShortestPrimary_def
      proof (intro conjI allI impI)
        show "length xs < length (xs @ [x])" by simp
        show "isPrimary ((xs @ [x]) ! length xs)" using True by simp
      next
        fix j assume j: "j < length (xs @ [x])" and p: "isPrimary ((xs @ [x]) ! j)"
        show "length (inflectionHypotheses ((xs @ [x]) ! length xs))
                \<le> length (inflectionHypotheses ((xs @ [x]) ! j))"
        proof (cases "j < length xs")
          case jl: True
          then have "length h \<le> length (inflectionHypotheses (xs ! j))"
            using i p h by (auto simp: firstShortestPrimary_def nth_append)
          then show ?thesis using True jl by (simp add: nth_append)
        next
          case False
          then have "j = length xs" using j by simp
          then show ?thesis by simp
        qed
      next
        fix j assume j: "j < length xs" and p: "isPrimary ((xs @ [x]) ! j)"
        then have "length h \<le> length (inflectionHypotheses (xs ! j))"
          using i h by (auto simp: firstShortestPrimary_def nth_append)
        then show "length (inflectionHypotheses ((xs @ [x]) ! length xs))
                     < length (inflectionHypotheses ((xs @ [x]) ! j))"
          using True j by (simp add: nth_append)
      qed
      moreover have "foldl pickStep None (xs @ [x]) = Some (inflectionHypotheses x)"
        using Some True by (simp add: pickStep_def[of "Some h" x])
      ultimately show ?thesis by auto
    next
      case False
      have "firstShortestPrimary (xs @ [x]) i"
        unfolding firstShortestPrimary_def
      proof (intro conjI allI impI)
        show "i < length (xs @ [x])" using il by simp
        show "isPrimary ((xs @ [x]) ! i)"
          using i il by (simp add: firstShortestPrimary_def nth_append)
      next
        fix j assume j: "j < length (xs @ [x])" and p: "isPrimary ((xs @ [x]) ! j)"
        show "length (inflectionHypotheses ((xs @ [x]) ! i))
                \<le> length (inflectionHypotheses ((xs @ [x]) ! j))"
        proof (cases "j < length xs")
          case True
          then show ?thesis using i p il by (auto simp: firstShortestPrimary_def nth_append)
        next
          case jf: False
          then have "j = length xs" using j by simp
          then show ?thesis using False p h il by (auto simp: nth_append)
        qed
      next
        fix j assume j: "j < i" and p: "isPrimary ((xs @ [x]) ! j)"
        then show "length (inflectionHypotheses ((xs @ [x]) ! i))
                     < length (inflectionHypotheses ((xs @ [x]) ! j))"
          using i il by (auto simp: firstShortestPrimary_def nth_append)
      qed
      moreover have "foldl pickStep None (xs @ [x]) = Some h"
        using Some False by (auto simp: pickStep_def[of "Some h" x])
      ultimately show ?thesis using h il by (auto simp: nth_append)
    qed
  qed
qed

lemma createGroupedDictionaryEntry_hyps:
  assumes "createGroupedDictionaryEntry es chk = Inr r"
  shows "inflectionHypotheses r
           = (case foldl pickStep None es of Some hypotheses \<Rightarrow> hypotheses | None \<Rightarrow> [])"
proof -
  obtain hws des where c: "collectHeadwords [] es = (hws, des)" by fastforce
  have m: "map fst des = es" using map_fst_collectHeadwords[of "[]" es] c by simp
  from assms obtain st where
    st: "mergeEntries (if length des \<le> 1 then False else chk) initialGroupState des = Inr st"
    and r: "r = createTermDictionaryEntry (gs_isPrimary st)
                 (case gs_inflectionHypotheses st of Some hypotheses \<Rightarrow> hypotheses | None \<Rightarrow> [])
                 (gs_score st) (gs_dictionaryIndex st) (gs_dictionaryPriority st)
                 (countSourceTermExactMatches hws)
                 (gs_maxTransformedTextLength st) hws (gs_definitions st)"
    by (auto simp: createGroupedDictionaryEntry_def c split: sum.splits)
  have "gs_inflectionHypotheses st = foldl pickStep None es"
    using mergeEntries_hyps[OF st] m by (simp add: initialGroupState_def)
  then show ?thesis by (simp add: r createTermDictionaryEntry_def)
qed

text \<open>
  Claim C9. Folding a group of well-formed entries yields an entry. When some member is
  primary, its inflection hypotheses are those of the first primary member among the
  primary members with the fewest hypotheses; members that are not primary play no part.
  When no member is primary, the list is empty.
\<close>

theorem createGroupedDictionaryEntry_inflectionHypotheses:
  assumes "list_all wfEntry es"
  shows "\<exists>r. createGroupedDictionaryEntry es chk = Inr r \<and>
           (if list_ex isPrimary es
            then \<exists>i. firstShortestPrimary es i
                   \<and> inflectionHypotheses r = inflectionHypotheses (es ! i)
            else inflectionHypotheses r = [])"
proof -
  obtain r where r: "createGroupedDictionaryEntry es chk = Inr r"
    using createGroupedDictionaryEntry_total[OF assms] by blast
  note h = createGroupedDictionaryEntry_hyps[OF r]
  show ?thesis
  proof (cases "foldl pickStep None es")
    case None
    then have "\<not> list_ex isPrimary es"
      using foldl_pickStep[of es] by (simp add: list_ex_iff)
    then show ?thesis using r h None by simp
  next
    case (Some hs)
    then obtain i where i: "firstShortestPrimary es i" and hs: "hs = inflectionHypotheses (es ! i)"
      using foldl_pickStep[of es] by auto
    then have "list_ex isPrimary es"
      by (auto simp: firstShortestPrimary_def list_ex_iff)
    then show ?thesis using r h Some i hs by auto
  qed
qed

text \<open>The theorem at the sample group: the fold yields the hypotheses of the second member,
  the first of the two primary members with one hypothesis.\<close>

theorem createGroupedDictionaryEntry_inflectionHypotheses_witness:
  "list_all wfEntry sampleGroup \<and> list_ex isPrimary sampleGroup
   \<and> (\<exists>r. createGroupedDictionaryEntry sampleGroup True = Inr r
          \<and> (\<exists>i. firstShortestPrimary sampleGroup i
                \<and> inflectionHypotheses r = inflectionHypotheses (sampleGroup ! i))
          \<and> inflectionHypotheses r = [3])"
proof -
  have wf: "list_all wfEntry sampleGroup"
    by (simp add: sampleGroup_def wfEntry_def createTermDictionaryEntryFromDatabaseEntry_def
        createTermDictionaryEntry_def createTermHeadword_def createTermDefinition_def
        Let_def case_prod_beta)
  have ex: "list_ex isPrimary sampleGroup"
    by (simp add: sampleGroup_def createTermDictionaryEntryFromDatabaseEntry_def
        createTermDictionaryEntry_def Let_def case_prod_beta)
  obtain r where r: "createGroupedDictionaryEntry sampleGroup True = Inr r"
    and i: "\<exists>i. firstShortestPrimary sampleGroup i
               \<and> inflectionHypotheses r = inflectionHypotheses (sampleGroup ! i)"
    using createGroupedDictionaryEntry_inflectionHypotheses[OF wf, of True] ex by auto
  have "foldl pickStep None sampleGroup = Some [3]"
    by (simp add: sampleGroup_def pickStep_def createTermDictionaryEntryFromDatabaseEntry_def
        createTermDictionaryEntry_def Let_def case_prod_beta)
  then have "inflectionHypotheses r = [3]"
    using createGroupedDictionaryEntry_hyps[OF r] by simp
  then show ?thesis using wf ex r i by blast
qed

section \<open>Headwords of a grouped entry\<close>

lemma hasPrimaryTermSource_iff: "hasPrimaryTermSource ss \<longleftrightarrow> (\<exists>s \<in> set ss. primaryTermSource s)"
  by (induction ss) (auto simp: primaryTermSource_def)

lemma countSourceTermExactMatches_filter:
  "countSourceTermExactMatches hs = length (filter (\<lambda>h. hasPrimaryTermSource (hw_sources h)) hs)"
  by (induction hs) auto

lemma findPosition_Some:
  "findPosition P xs = Some p \<Longrightarrow> p < length xs \<and> P (xs ! p) \<and> (\<forall>j < p. \<not> P (xs ! j))"
proof (induction xs arbitrary: p)
  case Nil
  then show ?case by simp
next
  case (Cons x xs)
  show ?case
  proof (cases "P x")
    case True
    then show ?thesis using Cons.prems by auto
  next
    case False
    then obtain q where q: "findPosition P xs = Some q" and p: "p = Suc q"
      using Cons.prems by auto
    show ?thesis using Cons.IH[OF q] False p by (auto simp: less_Suc_eq_0_disj)
  qed
qed

lemma findPosition_None: "findPosition P xs = None \<longleftrightarrow> (\<forall>x \<in> set xs. \<not> P x)"
  by (induction xs) auto

lemma hasPTS_addUniqueSource:
  "hasPrimaryTermSource (addUniqueSource ss n) \<longleftrightarrow> hasPrimaryTermSource ss \<or> primaryTermSource n"
  by (induction ss) (auto simp: primaryTermSource_def sameSource_def)

lemma hasPTS_foldl_addUniqueSource:
  "hasPrimaryTermSource (foldl addUniqueSource ss ns) \<longleftrightarrow> hasPrimaryTermSource ss \<or> hasPrimaryTermSource ns"
  by (induction ns arbitrary: ss) (auto simp: hasPTS_addUniqueSource primaryTermSource_def)

lemma hasPTS_addUniqueSources:
  "hasPrimaryTermSource (addUniqueSources ss ns) \<longleftrightarrow> hasPrimaryTermSource ss \<or> hasPrimaryTermSource ns"
  by (cases ns; cases ss) (auto simp: addUniqueSources_def hasPTS_foldl_addUniqueSource simp del: foldl_Cons)

lemma map_hwKey_update:
  "map hwKey (hm[p := (hm ! p)\<lparr>hw_sources := a, hw_tags := b, hw_wordClasses := c\<rparr>]) = map hwKey hm"
  by (cases "p < length hm") (simp_all add: map_update hwKey_def list_update_same_conv list_update_beyond)

lemma addTermHeadword_keys:
  "map hwKey (fst (addTermHeadword hm new))
     = (if hwKey new \<in> set (map hwKey hm) then map hwKey hm else map hwKey hm @ [hwKey new])"
proof (cases "findPosition (sameHeadword (hw_term new) (hw_reading new)) hm")
  case None
  then have "hwKey new \<notin> set (map hwKey hm)"
    by (auto simp: findPosition_None sameHeadword_def hwKey_def)
  then show ?thesis using None
    by (simp add: addTermHeadword_def Let_def createTermHeadword_def hwKey_def list_update_append)
next
  case (Some p)
  note f = findPosition_Some[OF Some]
  then have "hwKey (hm ! p) = hwKey new" by (simp add: sameHeadword_def hwKey_def)
  moreover have "hwKey (hm ! p) \<in> hwKey ` set hm" using f by (intro imageI) simp
  ultimately have "hwKey new \<in> set (map hwKey hm)" by simp
  then show ?thesis using Some
    by (simp add: addTermHeadword_def Let_def map_hwKey_update)
qed

lemma addTermHeadword_pts:
  assumes d: "distinct (map hwKey hm)"
  shows "hasKeyPTS (fst (addTermHeadword hm new)) k
         \<longleftrightarrow> hasKeyPTS hm k \<or> (hwKey new = k \<and> hasPrimaryTermSource (hw_sources new))"
proof (cases "findPosition (sameHeadword (hw_term new) (hw_reading new)) hm")
  case None
  then have nk: "\<forall>h \<in> set hm. hwKey h \<noteq> hwKey new"
    by (auto simp: findPosition_None sameHeadword_def hwKey_def)
  have "fst (addTermHeadword hm new) = hm @ [\<lparr>hw_index = length hm, hw_term = hw_term new, hw_reading = hw_reading new,
      hw_sources = addUniqueSources [] (hw_sources new), hw_tags = addUniqueTagGroups [] (hw_tags new),
      hw_wordClasses = addUniqueSimple [] (hw_wordClasses new)\<rparr>]"
    using None by (simp add: addTermHeadword_def Let_def createTermHeadword_def list_update_append)
  then show ?thesis
    by (auto simp: hasKeyPTS_def hwKey_def hasPTS_addUniqueSources)
next
  case (Some p)
  note f = findPosition_Some[OF Some]
  have kp: "hwKey (hm ! p) = hwKey new" using f by (simp add: sameHeadword_def hwKey_def)
  have pl: "p < length hm" using f by simp
  define h1 where "h1 = (hm ! p)\<lparr>hw_sources := addUniqueSources (hw_sources (hm ! p)) (hw_sources new),
             hw_tags := addUniqueTagGroups (hw_tags (hm ! p)) (hw_tags new),
             hw_wordClasses := addUniqueSimple (hw_wordClasses (hm ! p)) (hw_wordClasses new)\<rparr>"
  have eq: "fst (addTermHeadword hm new) = hm[p := h1]"
    using Some by (simp add: addTermHeadword_def Let_def h1_def)
  have k1: "hwKey h1 = hwKey new" using kp by (simp add: h1_def hwKey_def)
  have s1: "hasPrimaryTermSource (hw_sources h1) \<longleftrightarrow> hasPrimaryTermSource (hw_sources (hm ! p)) \<or> hasPrimaryTermSource (hw_sources new)"
    by (simp add: h1_def hasPTS_addUniqueSources)
  have uniq: "j = p" if "j < length hm" "hwKey (hm ! j) = hwKey new" for j
    using nth_eq_iff_index_eq[OF d, of j p] kp pl that by simp
  have char: "hasKeyPTS xs k \<longleftrightarrow> (\<exists>j < length xs. hwKey (xs ! j) = k \<and> hasPrimaryTermSource (hw_sources (xs ! j)))"
    for xs :: "tagGroup termHeadword list"
  proof
    assume "hasKeyPTS xs k"
    then obtain h where "h \<in> set xs" "hwKey h = k" "hasPrimaryTermSource (hw_sources h)"
      unfolding hasKeyPTS_def by blast
    then show "\<exists>j < length xs. hwKey (xs ! j) = k \<and> hasPrimaryTermSource (hw_sources (xs ! j))"
      by (auto simp: in_set_conv_nth)
  next
    assume "\<exists>j < length xs. hwKey (xs ! j) = k \<and> hasPrimaryTermSource (hw_sources (xs ! j))"
    then obtain j where "j < length xs" "hwKey (xs ! j) = k" "hasPrimaryTermSource (hw_sources (xs ! j))"
      by blast
    then show "hasKeyPTS xs k" unfolding hasKeyPTS_def using nth_mem by blast
  qed
  show ?thesis
  proof
    assume "hasKeyPTS (fst (addTermHeadword hm new)) k"
    then obtain j where j: "j < length hm" and kj: "hwKey (hm[p := h1] ! j) = k"
      and sj: "hasPrimaryTermSource (hw_sources (hm[p := h1] ! j))"
      unfolding eq char by auto
    show "hasKeyPTS hm k \<or> (hwKey new = k \<and> hasPrimaryTermSource (hw_sources new))"
    proof (cases "j = p")
      case True
      then have "hwKey new = k" and "hasPrimaryTermSource (hw_sources h1)"
        using j kj sj k1 by simp_all
      then show ?thesis using s1 kp pl unfolding char by auto
    next
      case False
      then show ?thesis using j kj sj unfolding char by auto
    qed
  next
    assume a: "hasKeyPTS hm k \<or> (hwKey new = k \<and> hasPrimaryTermSource (hw_sources new))"
    show "hasKeyPTS (fst (addTermHeadword hm new)) k"
    proof (cases "hwKey new = k")
      case True
      have "hasPrimaryTermSource (hw_sources (hm ! p)) \<or> hasPrimaryTermSource (hw_sources new)"
        using a True uniq unfolding char by auto
      then have "hasPrimaryTermSource (hw_sources h1)" using s1 by simp
      then show ?thesis unfolding eq char using k1 True pl by auto
    next
      case False
      with a obtain j where j: "j < length hm" and kj: "hwKey (hm ! j) = k" and sj: "hasPrimaryTermSource (hw_sources (hm ! j))"
        unfolding char by auto
      have "j \<noteq> p" using kj kp False by auto
      then have "hm[p := h1] ! j = hm ! j" by simp
      then show ?thesis unfolding eq char using j kj sj by auto
    qed
  qed
qed

lemma addTermHeadwords_inv:
  "distinct (map hwKey hm) \<Longrightarrow>
     distinct (map hwKey (fst (addTermHeadwords hm hs)))
     \<and> (\<forall>k. hasKeyPTS (fst (addTermHeadwords hm hs)) k \<longleftrightarrow> hasKeyPTS hm k \<or> hasKeyPTS hs k)"
proof (induction hs arbitrary: hm)
  case Nil
  then show ?case by (simp add: hasKeyPTS_def)
next
  case (Cons new hs)
  obtain hm1 i where a: "addTermHeadword hm new = (hm1, i)" by fastforce
  have k1: "map hwKey hm1
     = (if hwKey new \<in> set (map hwKey hm) then map hwKey hm else map hwKey hm @ [hwKey new])"
    using addTermHeadword_keys[of hm new] a by simp
  have d1: "distinct (map hwKey hm1)" using Cons.prems unfolding k1 by simp
  have p1: "hasKeyPTS hm1 k \<longleftrightarrow> hasKeyPTS hm k \<or> (hwKey new = k \<and> hasPrimaryTermSource (hw_sources new))" for k
    using addTermHeadword_pts[OF Cons.prems, of new k] a by simp
  have eq: "fst (addTermHeadwords hm (new # hs)) = fst (addTermHeadwords hm1 hs)"
    by (simp add: a case_prod_beta)
  have c: "hasKeyPTS (new # hs) k \<longleftrightarrow> (hwKey new = k \<and> hasPrimaryTermSource (hw_sources new)) \<or> hasKeyPTS hs k" for k
    by (auto simp: hasKeyPTS_def)
  show ?case unfolding eq using Cons.IH[OF d1] p1 c by blast
qed

lemma collectHeadwords_inv:
  "distinct (map hwKey hm) \<Longrightarrow>
     distinct (map hwKey (fst (collectHeadwords hm es)))
     \<and> (\<forall>k. hasKeyPTS (fst (collectHeadwords hm es)) k
            \<longleftrightarrow> hasKeyPTS hm k \<or> (\<exists>e \<in> set es. hasKeyPTS (headwords e) k))"
proof (induction es arbitrary: hm)
  case Nil
  then show ?case by simp
next
  case (Cons e es)
  obtain hm1 m where a: "addTermHeadwords hm (headwords e) = (hm1, m)" by fastforce
  have both: "distinct (map hwKey hm1)
      \<and> (\<forall>k. hasKeyPTS hm1 k \<longleftrightarrow> hasKeyPTS hm k \<or> hasKeyPTS (headwords e) k)"
    using addTermHeadwords_inv[OF Cons.prems, of "headwords e"] unfolding a fst_conv .
  have i1: "distinct (map hwKey hm1)" using both by blast
  have p1: "hasKeyPTS hm1 k \<longleftrightarrow> hasKeyPTS hm k \<or> hasKeyPTS (headwords e) k" for k
    using both by blast
  have eq: "fst (collectHeadwords hm (e # es)) = fst (collectHeadwords hm1 es)"
    by (simp add: a case_prod_beta)
  show ?case unfolding eq using Cons.IH[OF i1] p1 by auto
qed

lemma length_filter_card_keys:
  assumes "distinct (map hwKey hs)"
  shows "length (filter (\<lambda>h. hasPrimaryTermSource (hw_sources h)) hs) = card {k. hasKeyPTS hs k}"
proof -
  let ?P = "\<lambda>h. hasPrimaryTermSource (hw_sources h)"
  have d: "distinct hs" and inj: "inj_on hwKey (set hs)"
    using assms by (simp_all add: distinct_map)
  have "length (filter ?P hs) = card (set (filter ?P hs))"
    using distinct_card[of "filter ?P hs"] d by (simp del: set_filter)
  also have "\<dots> = card (hwKey ` set (filter ?P hs))"
    using inj by (intro card_image[symmetric]) (auto simp: inj_on_def)
  also have "hwKey ` set (filter ?P hs) = {k. hasKeyPTS hs k}"
    by (force simp: hasKeyPTS_def)
  finally show ?thesis .
qed

lemma createGroupedDictionaryEntry_headwords:
  assumes "createGroupedDictionaryEntry es chk = Inr r"
  shows "headwords r = fst (collectHeadwords [] es)
         \<and> sourceTermExactMatchCount r = countSourceTermExactMatches (headwords r)"
  using assms
  by (auto simp: createGroupedDictionaryEntry_def createTermDictionaryEntry_def Let_def
      split: prod.splits sum.splits)

text \<open>
  Claim C3, as the code has it. An entry assembled from a single database entry has the
  count 1 exactly when it is primary and the deinflected text equals the term of the
  database entry, and 0 otherwise. An entry built by the grouping fold from well-formed
  members has as its count the number of its headwords with at least one source that is
  primary and matched the term; its headwords have pairwise different (term, reading)
  keys, so this is the number of keys for which some headword of some member has such a
  source.
\<close>

theorem sourceTermExactMatchCount_assembled_and_grouped:
  "sourceTermExactMatchCount
     (createTermDictionaryEntryFromDatabaseEntry databaseEntry originalText transformedText
        deinflectedText reasons primary enabledDictionaryMap)
     = (if primary \<and> deinflectedText = dbe_term databaseEntry then 1 else 0)
   \<and> (list_all wfEntry es \<longrightarrow>
        (\<exists>r. createGroupedDictionaryEntry es chk = Inr r
           \<and> sourceTermExactMatchCount r
               = length (filter (\<lambda>h. \<exists>s \<in> set (hw_sources h). primaryTermSource s) (headwords r))
           \<and> distinct (map hwKey (headwords r))
           \<and> sourceTermExactMatchCount r
               = card {k. \<exists>e \<in> set es. \<exists>h \<in> set (headwords e).
                            hwKey h = k \<and> (\<exists>s \<in> set (hw_sources h). primaryTermSource s)}))"
proof (intro conjI impI)
  show "sourceTermExactMatchCount
     (createTermDictionaryEntryFromDatabaseEntry databaseEntry originalText transformedText
        deinflectedText reasons primary enabledDictionaryMap)
     = (if primary \<and> deinflectedText = dbe_term databaseEntry then 1 else 0)"
    by (simp add: createTermDictionaryEntryFromDatabaseEntry_def createTermDictionaryEntry_def
        Let_def case_prod_beta)
next
  assume wf: "list_all wfEntry es"
  obtain r where r: "createGroupedDictionaryEntry es chk = Inr r"
    using createGroupedDictionaryEntry_total[OF wf] by blast
  note h = createGroupedDictionaryEntry_headwords[OF r]
  have both: "distinct (map hwKey (headwords r))
      \<and> (\<forall>k. hasKeyPTS (headwords r) k
            \<longleftrightarrow> hasKeyPTS ([] :: tagGroup termHeadword list) k
                  \<or> (\<exists>e \<in> set es. hasKeyPTS (headwords e) k))"
    unfolding conjunct1[OF h] by (rule collectHeadwords_inv) simp
  have inv: "distinct (map hwKey (headwords r))" using both by blast
  have e: "\<not> hasKeyPTS ([] :: tagGroup termHeadword list) k" for k
    by (simp add: hasKeyPTS_def)
  have pts: "hasKeyPTS (headwords r) k \<longleftrightarrow> (\<exists>e \<in> set es. hasKeyPTS (headwords e) k)" for k
    using both e by blast
  have c1: "sourceTermExactMatchCount r
      = length (filter (\<lambda>h. \<exists>s \<in> set (hw_sources h). primaryTermSource s) (headwords r))"
    using h by (simp add: countSourceTermExactMatches_filter hasPrimaryTermSource_iff)
  have "sourceTermExactMatchCount r = card {k. hasKeyPTS (headwords r) k}"
    using h length_filter_card_keys[OF inv] by (simp add: countSourceTermExactMatches_filter)
  also have "{k. hasKeyPTS (headwords r) k}
      = {k. \<exists>e \<in> set es. \<exists>h \<in> set (headwords e).
                            hwKey h = k \<and> (\<exists>s \<in> set (hw_sources h). primaryTermSource s)}"
    unfolding pts by (simp add: hasKeyPTS_def hasPrimaryTermSource_iff)
  finally have c2: "sourceTermExactMatchCount r
               = card {k. \<exists>e \<in> set es. \<exists>h \<in> set (headwords e).
                            hwKey h = k \<and> (\<exists>s \<in> set (hw_sources h). primaryTermSource s)}" .
  show "\<exists>r. createGroupedDictionaryEntry es chk = Inr r
           \<and> sourceTermExactMatchCount r
               = length (filter (\<lambda>h. \<exists>s \<in> set (hw_sources h). primaryTermSource s) (headwords r))
           \<and> distinct (map hwKey (headwords r))
           \<and> sourceTermExactMatchCount r
               = card {k. \<exists>e \<in> set es. \<exists>h \<in> set (headwords e).
                            hwKey h = k \<and> (\<exists>s \<in> set (hw_sources h). primaryTermSource s)}"
    using r c1 inv c2 by blast
qed

text \<open>The theorem at the sample group and at an exact hit.\<close>

theorem sourceTermExactMatchCount_assembled_and_grouped_witness:
  "list_all wfEntry sampleGroup
   \<and> (\<exists>r. createGroupedDictionaryEntry sampleGroup True = Inr r
          \<and> sourceTermExactMatchCount r
               = length (filter (\<lambda>h. \<exists>s \<in> set (hw_sources h). primaryTermSource s) (headwords r))
          \<and> sourceTermExactMatchCount r = 1)
   \<and> sourceTermExactMatchCount
       (createTermDictionaryEntryFromDatabaseEntry exactHit ''ab'' ''ab'' ''ab''
          ([] :: nat list) True []) = 1"
proof -
  have wf: "list_all wfEntry sampleGroup"
    by code_simp
  note t = sourceTermExactMatchCount_assembled_and_grouped
    [of exactHit "''ab''" "''ab''" "''ab''" "[] :: nat list" True "[]" sampleGroup True]
  from t wf obtain r where r: "createGroupedDictionaryEntry sampleGroup True = Inr r"
    and c: "sourceTermExactMatchCount r
               = length (filter (\<lambda>h. \<exists>s \<in> set (hw_sources h). primaryTermSource s) (headwords r))"
    by blast
  have "map_sum id sourceTermExactMatchCount (createGroupedDictionaryEntry sampleGroup True)
          = Inr 1"
    by code_simp
  then have "sourceTermExactMatchCount r = 1" by (simp add: r)
  moreover have "sourceTermExactMatchCount
       (createTermDictionaryEntryFromDatabaseEntry exactHit ''ab'' ''ab'' ''ab''
          ([] :: nat list) True []) = 1"
    using t by (simp add: exactHit_def)
  ultimately show ?thesis using wf r c by blast
qed

text \<open>Claim C3 as stated fails for an entry that is returned as assembled (modes split and
  simple): under prefix matching the query \<^verbatim>\<open>ab\<close> hits the term \<^verbatim>\<open>abc\<close>; the entry is
  primary and its only headword has a primary source matched on the term, yet the count
  is 0 because the deinflected text is not the term.\<close>

theorem sourceTermExactMatchCount_prefix_counterexample:
  "sourceTermExactMatchCount
      (createTermDictionaryEntryFromDatabaseEntry prefixHit ''ab'' ''ab'' ''ab''
         ([] :: nat list) True []) = 0
   \<and> countSourceTermExactMatches (headwords
      (createTermDictionaryEntryFromDatabaseEntry prefixHit ''ab'' ''ab'' ''ab''
         ([] :: nat list) True [])) = 1"
  by code_simp

section \<open>Properties of tag merging\<close>

lemma addUniqueSimple_set: "set (addUniqueSimple xs ys) = set xs \<union> set ys"
  by (induction ys arbitrary: xs) auto

lemma addUniqueSimple_distinct: "distinct xs \<Longrightarrow> distinct (addUniqueSimple xs ys)"
  by (induction ys arbitrary: xs) auto

lemma addUniqueSimple_prefix: "take (length xs) (addUniqueSimple xs ys) = xs"
proof (induction ys arbitrary: xs)
  case Nil
  then show ?case by simp
next
  case (Cons y ys)
  show ?case
  proof (cases "y \<in> set xs")
    case True
    then show ?thesis using Cons by simp
  next
    case False
    have "take (length xs) (addUniqueSimple (xs @ [y]) ys)
        = take (length xs) (take (length (xs @ [y])) (addUniqueSimple (xs @ [y]) ys))"
      by simp
    also have "\<dots> = take (length xs) (xs @ [y])" by (simp only: Cons.IH)
    finally show ?thesis using False by simp
  qed
qed

text \<open>What a group of similar tags folds to.\<close>

lemma foldl_mergeTag_key: "tagKey (foldl mergeTag t ts) = tagKey t"
  by (induction ts arbitrary: t) (auto simp: mergeTag_def tagKey_def)

lemma mergeInto_eq:
  "mergeInto tag1 tags
     = (foldl mergeTag tag1 (filter (\<lambda>x. tagKey x = tagKey tag1) tags),
        filter (\<lambda>x. tagKey x \<noteq> tagKey tag1) tags)"
proof (induction tags arbitrary: tag1)
  case Nil
  then show ?case by simp
next
  case (Cons tag2 rest)
  have k: "tagKey (mergeTag tag1 tag2) = tagKey tag1" by (simp add: mergeTag_def tagKey_def)
  show ?case
  proof (cases "tagKey tag2 = tagKey tag1")
    case True
    then show ?thesis using Cons[of "mergeTag tag1 tag2"] k by (auto simp: tagKey_def)
  next
    case False
    then show ?thesis using Cons[of tag1] by (auto simp: tagKey_def)
  qed
qed

lemma mergeSimilarTags_Cons:
  "mergeSimilarTags (tag1 # tags)
     = foldl mergeTag tag1 (filter (\<lambda>x. tagKey x = tagKey tag1) tags)
       # mergeSimilarTags (filter (\<lambda>x. tagKey x \<noteq> tagKey tag1) tags)"
  by (simp add: mergeInto_eq)

lemma mergeSimilarTags_member:
  "t \<in> set (mergeSimilarTags tags) \<Longrightarrow>
     \<exists>g gs. filter (\<lambda>x. tagKey x = tagKey t) tags = g # gs \<and> t = foldl mergeTag g gs"
proof (induction tags arbitrary: t rule: mergeSimilarTags.induct)
  case 1
  then show ?case by simp
next
  case (2 tag1 tags)
  let ?same = "filter (\<lambda>x. tagKey x = tagKey tag1) tags"
  let ?rest = "filter (\<lambda>x. tagKey x \<noteq> tagKey tag1) tags"
  have r: "snd (mergeInto tag1 tags) = ?rest" by (simp add: mergeInto_eq)
  from "2.prems" have "t = foldl mergeTag tag1 ?same \<or> t \<in> set (mergeSimilarTags ?rest)"
    by (simp add: mergeSimilarTags_Cons del: mergeSimilarTags.simps)
  then show ?case
  proof
    assume t: "t = foldl mergeTag tag1 ?same"
    then have "tagKey t = tagKey tag1" by (simp add: foldl_mergeTag_key)
    then show ?thesis using t by simp
  next
    assume "t \<in> set (mergeSimilarTags ?rest)"
    then obtain g gs where g: "filter (\<lambda>x. tagKey x = tagKey t) ?rest = g # gs"
      and t: "t = foldl mergeTag g gs"
      using "2.IH"[of t] r by auto
    have "g \<in> set (filter (\<lambda>x. tagKey x = tagKey t) ?rest)" unfolding g by simp
    then have "tagKey g = tagKey t" and "tagKey g \<noteq> tagKey tag1" by auto
    then have ne: "tagKey tag1 \<noteq> tagKey t" by simp
    have "filter (\<lambda>x. tagKey x = tagKey t) ?rest = filter (\<lambda>x. tagKey x = tagKey t) tags"
      using ne by (auto intro: filter_cong)
    then show ?thesis using g t ne by auto
  qed
qed

lemma mergeSimilarTags_keys:
  "set (map tagKey (mergeSimilarTags tags)) = set (map tagKey tags)
   \<and> distinct (map tagKey (mergeSimilarTags tags))"
proof (induction tags rule: mergeSimilarTags.induct)
  case 1
  then show ?case by simp
next
  case (2 tag1 tags)
  let ?same = "filter (\<lambda>x. tagKey x = tagKey tag1) tags"
  let ?rest = "filter (\<lambda>x. tagKey x \<noteq> tagKey tag1) tags"
  have r: "snd (mergeInto tag1 tags) = ?rest" by (simp add: mergeInto_eq)
  have ih: "set (map tagKey (mergeSimilarTags ?rest)) = set (map tagKey ?rest)"
    "distinct (map tagKey (mergeSimilarTags ?rest))"
    using "2.IH" r by simp_all
  have e: "mergeSimilarTags (tag1 # tags) = foldl mergeTag tag1 ?same # mergeSimilarTags ?rest"
    by (rule mergeSimilarTags_Cons)
  have "set (map tagKey ?rest) = set (map tagKey tags) - {tagKey tag1}" by auto
  then show ?case unfolding e using ih by (auto simp: foldl_mergeTag_key)
qed

lemma foldl_mergeTag_fields:
  "tag_order (foldl mergeTag g gs) = Min (tag_order ` set (g # gs))
   \<and> tag_score (foldl mergeTag g gs) = Max (tag_score ` set (g # gs))
   \<and> tag_dictionaries (foldl mergeTag g gs) = concat (map tag_dictionaries (g # gs))
   \<and> set (tag_content (foldl mergeTag g gs)) = (\<Union>x \<in> set (g # gs). set (tag_content x))
   \<and> take (length (tag_content g)) (tag_content (foldl mergeTag g gs)) = tag_content g
   \<and> (distinct (tag_content g) \<longrightarrow> distinct (tag_content (foldl mergeTag g gs)))
   \<and> tag_redundant (foldl mergeTag g gs) = tag_redundant g"
proof (induction gs arbitrary: g)
  case Nil
  then show ?case by simp
next
  case (Cons x gs)
  let ?m = "mergeTag g x"
  note ih = Cons.IH[of ?m]
  have o: "Min (tag_order ` set (?m # gs)) = Min (tag_order ` set (g # x # gs))"
  proof (cases "gs = []")
    case True
    then show ?thesis by (simp add: mergeTag_def)
  next
    case False
    then show ?thesis by (simp add: mergeTag_def min.assoc)
  qed
  have s: "Max (tag_score ` set (?m # gs)) = Max (tag_score ` set (g # x # gs))"
  proof (cases "gs = []")
    case True
    then show ?thesis by (simp add: mergeTag_def)
  next
    case False
    then show ?thesis by (simp add: mergeTag_def max.assoc)
  qed
  have d: "concat (map tag_dictionaries (?m # gs)) = concat (map tag_dictionaries (g # x # gs))"
    by (simp add: mergeTag_def)
  have c: "(\<Union>y \<in> set (?m # gs). set (tag_content y)) = (\<Union>y \<in> set (g # x # gs). set (tag_content y))"
    by (auto simp: mergeTag_def addUniqueSimple_set)
  have p: "take (length (tag_content g)) (tag_content ?m) = tag_content g"
    by (simp add: mergeTag_def addUniqueSimple_prefix)
  have l: "length (tag_content g) \<le> length (tag_content ?m)"
    using p by (metis length_take min.cobounded2 min.commute order_refl take_all_iff)
  have "take (length (tag_content g)) (tag_content (foldl mergeTag ?m gs))
      = take (length (tag_content g)) (take (length (tag_content ?m)) (tag_content (foldl mergeTag ?m gs)))"
    using l by (simp add: min_def)
  also have "\<dots> = tag_content g" using ih p by simp
  finally have p2: "take (length (tag_content g)) (tag_content (foldl mergeTag ?m gs)) = tag_content g" .
  have dd: "distinct (tag_content g) \<longrightarrow> distinct (tag_content ?m)"
    by (simp add: mergeTag_def addUniqueSimple_distinct)
  have r: "tag_redundant ?m = tag_redundant g" by (simp add: mergeTag_def)
  show ?case
    using ih o s d c p2 dd r by simp
qed

text \<open>
  Claim C8, as the code has it. After \<^verbatim>\<open>_mergeSimilarTags\<close> no two tags of the list share
  name and category, and the names and categories that occur are those of the input. Each
  resulting tag stands for the input tags of its name and category, in their order: its
  order is their minimum, its score their maximum, its dictionaries are all their
  dictionary lists one after the other (repetitions included), its content holds exactly
  their content items, starts with the content of the first of them and repeats no item
  unless the first tag did.
\<close>

theorem mergeSimilarTags_merge_rule:
  "distinct (map tagKey (mergeSimilarTags tags))
   \<and> set (map tagKey (mergeSimilarTags tags)) = set (map tagKey tags)
   \<and> (\<forall>t \<in> set (mergeSimilarTags tags).
        \<exists>g gs. filter (\<lambda>x. tagKey x = tagKey t) tags = g # gs
          \<and> tag_order t = Min (tag_order ` set (g # gs))
          \<and> tag_score t = Max (tag_score ` set (g # gs))
          \<and> tag_dictionaries t = concat (map tag_dictionaries (g # gs))
          \<and> set (tag_content t) = (\<Union>x \<in> set (g # gs). set (tag_content x))
          \<and> take (length (tag_content g)) (tag_content t) = tag_content g
          \<and> (distinct (tag_content g) \<longrightarrow> distinct (tag_content t)))
   \<and> (tagKey tag1 = tagKey tag2 \<longrightarrow>
        mergeSimilarTags [tag1, tag2]
          = [tag1\<lparr>tag_order := min (tag_order tag1) (tag_order tag2),
                   tag_score := max (tag_score tag1) (tag_score tag2),
                   tag_dictionaries := tag_dictionaries tag1 @ tag_dictionaries tag2,
                   tag_content := addUniqueSimple (tag_content tag1) (tag_content tag2)\<rparr>])"
proof (intro conjI ballI impI)
  show "distinct (map tagKey (mergeSimilarTags tags))"
    using mergeSimilarTags_keys[of tags] by blast
  show "set (map tagKey (mergeSimilarTags tags)) = set (map tagKey tags)"
    using mergeSimilarTags_keys[of tags] by blast
next
  fix t assume "t \<in> set (mergeSimilarTags tags)"
  then obtain g gs where g: "filter (\<lambda>x. tagKey x = tagKey t) tags = g # gs"
    and t: "t = foldl mergeTag g gs"
    using mergeSimilarTags_member by blast
  show "\<exists>g gs. filter (\<lambda>x. tagKey x = tagKey t) tags = g # gs
          \<and> tag_order t = Min (tag_order ` set (g # gs))
          \<and> tag_score t = Max (tag_score ` set (g # gs))
          \<and> tag_dictionaries t = concat (map tag_dictionaries (g # gs))
          \<and> set (tag_content t) = (\<Union>x \<in> set (g # gs). set (tag_content x))
          \<and> take (length (tag_content g)) (tag_content t) = tag_content g
          \<and> (distinct (tag_content g) \<longrightarrow> distinct (tag_content t))"
    using g foldl_mergeTag_fields[of g gs] unfolding t by blast
next
  assume "tagKey tag1 = tagKey tag2"
  then show "mergeSimilarTags [tag1, tag2]
          = [tag1\<lparr>tag_order := min (tag_order tag1) (tag_order tag2),
                   tag_score := max (tag_score tag1) (tag_score tag2),
                   tag_dictionaries := tag_dictionaries tag1 @ tag_dictionaries tag2,
                   tag_content := addUniqueSimple (tag_content tag1) (tag_content tag2)\<rparr>]"
    by (simp add: tagKey_def mergeTag_def)
qed

text \<open>The theorem at the sample tags: the two noun tags become one.\<close>

theorem mergeSimilarTags_merge_rule_witness:
  "tagKey nounTag = tagKey nounTag2
   \<and> distinct (map tagKey (mergeSimilarTags [nounTag, verbTag, nounTag2]))
   \<and> mergeSimilarTags [nounTag, nounTag2]
       = [nounTag\<lparr>tag_order := 1, tag_score := 7, tag_dictionaries := [''D'', ''E''],
                   tag_content := [''noun'', ''common'']\<rparr>]
   \<and> mergeSimilarTags [nounTag, verbTag, nounTag2]
       = [nounTag\<lparr>tag_order := 1, tag_score := 7, tag_dictionaries := [''D'', ''E''],
                   tag_content := [''noun'', ''common'']\<rparr>, verbTag]"
proof -
  have k: "tagKey nounTag = tagKey nounTag2"
    by (simp add: tagKey_def nounTag2_def)
  note t = mergeSimilarTags_merge_rule[of "[nounTag, verbTag, nounTag2]" nounTag nounTag2]
  have 1: "distinct (map tagKey (mergeSimilarTags [nounTag, verbTag, nounTag2]))"
    using t by blast
  have 2: "mergeSimilarTags [nounTag, nounTag2]
       = [nounTag\<lparr>tag_order := 1, tag_score := 7, tag_dictionaries := [''D'', ''E''],
                   tag_content := [''noun'', ''common'']\<rparr>]"
    using t k by (simp add: nounTag_def nounTag2_def)
  have 3: "mergeSimilarTags [nounTag, verbTag, nounTag2]
       = [nounTag\<lparr>tag_order := 1, tag_score := 7, tag_dictionaries := [''D'', ''E''],
                   tag_content := [''noun'', ''common'']\<rparr>, verbTag]"
    by code_simp
  show ?thesis using k 1 2 3 by blast
qed

text \<open>Claim C8 as stated fails for the dictionaries: they are pushed, not added uniquely.
  Two tags of the same name, category and dictionary (a tag name listed twice in one tag
  group) merge into a tag that names the dictionary twice.\<close>

theorem mergeSimilarTags_dictionaries_counterexample:
  "map tag_dictionaries (mergeSimilarTags [nounTag, nounTag]) = [[''D'', ''D'']]"
  by code_simp

section \<open>Properties of frequency reordering\<close>

lemma foldl_scanFrequency:
  "foldl (scanFrequency dictionary) st items =
     \<lparr>fs_frequencyMap = (\<lambda>h. case lastFrequency dictionary items h of
                                 None \<Rightarrow> fs_frequencyMap st h | Some v \<Rightarrow> Some v),
      fs_frequencyMin = foldl min (fs_frequencyMin st)
          (map fr_frequency (filter (\<lambda>f. fr_dictionary f = dictionary) items)),
      fs_frequencyMax = foldl max (fs_frequencyMax st)
          (map fr_frequency (filter (\<lambda>f. fr_dictionary f = dictionary) items))\<rparr>"
proof (induction items arbitrary: st)
  case Nil
  then show ?case by (simp add: lastFrequency_def)
next
  case (Cons x items)
  show ?case
    unfolding foldl_Cons Cons.IH
    by (auto simp: scanFrequency_def lastFrequency_def fun_eq_iff split: list.splits option.splits)
qed

lemma foldl_min_Min: "foldl min (a::int) xs = Min (insert a (set xs))"
proof (induction xs arbitrary: a)
  case Nil
  then show ?case by simp
next
  case (Cons x xs)
  have "Min (insert (min a x) (set xs)) = Min (insert a (insert x (set xs)))"
    by (cases "set xs = {}") (simp_all add: min.assoc)
  then show ?case using Cons by simp
qed

lemma foldl_max_Max: "foldl max (a::int) xs = Max (insert a (set xs))"
proof (induction xs arbitrary: a)
  case Nil
  then show ?case by simp
next
  case (Cons x xs)
  have "Max (insert (max a x) (set xs)) = Max (insert a (insert x (set xs)))"
    by (cases "set xs = {}") (simp_all add: max.assoc)
  then show ?case using Cons by simp
qed

lemma frequencyOrderOf_safe:
  assumes "list_all safeInteger fs"
  shows "frequencyOrderOf ascending (foldl min MAX_SAFE_INTEGER fs) (foldl max MIN_SAFE_INTEGER fs)
           = orderFrom ascending fs"
proof (cases "fs = []")
  case True
  then show ?thesis
    by (simp add: frequencyOrderOf_def orderFrom_def MAX_SAFE_INTEGER_def MIN_SAFE_INTEGER_def)
next
  case False
  have fin: "finite (set fs)" and ne: "set fs \<noteq> {}" using False by simp_all
  have b: "\<forall>x \<in> set fs. MIN_SAFE_INTEGER \<le> x \<and> x \<le> MAX_SAFE_INTEGER"
    using assms by (simp add: list_all_iff safeInteger_def)
  have mn: "foldl min MAX_SAFE_INTEGER fs = Min (set fs)"
    unfolding foldl_min_Min using b ne fin by (simp add: min_absorb2)
  have mx: "foldl max MIN_SAFE_INTEGER fs = Max (set fs)"
    unfolding foldl_max_Max using b ne fin by (simp add: max_absorb2)
  have "Min (set fs) \<le> Max (set fs)" using fin ne by (simp add: Min_le_iff)
  then show ?thesis using False by (simp add: mn mx frequencyOrderOf_def orderFrom_def)
qed

lemma foldl_scanHeadwordIndex:
  "foldl (scanHeadwordIndex m) (mn, mx) his
     = (foldl min mn (List.map_filter m his), foldl max mx (List.map_filter m his))"
  by (induction his arbitrary: mn mx)
     (auto simp: scanHeadwordIndex_def List.map_filter_def split: option.splits)

lemma lastFrequency_in:
  "lastFrequency dictionary items h = Some v
   \<Longrightarrow> v \<in> set (map fr_frequency (filter (\<lambda>f. fr_dictionary f = dictionary) items))"
proof -
  assume a: "lastFrequency dictionary items h = Some v"
  let ?fs = "filter (\<lambda>f. fr_dictionary f = dictionary \<and> fr_headwordIndex f = h) items"
  from a have ne: "?fs \<noteq> []" and v: "v = fr_frequency (last ?fs)"
    by (auto simp: lastFrequency_def split: list.splits)
  have "last ?fs \<in> set ?fs" using ne by (rule last_in_set)
  then have "last ?fs \<in> set (filter (\<lambda>f. fr_dictionary f = dictionary) items)" by auto
  then show ?thesis unfolding v by (simp only: set_map) (rule imageI)
qed

lemma headwordFrequencies_safe:
  assumes "list_all safeInteger (dictionaryFrequencies dictionary e)"
  shows "list_all safeInteger (headwordFrequencies dictionary e d)"
proof -
  have "set (headwordFrequencies dictionary e d) \<subseteq> set (dictionaryFrequencies dictionary e)"
    using lastFrequency_in[of dictionary "frequencies e"]
    by (auto simp: headwordFrequencies_def dictionaryFrequencies_def List.map_filter_def)
  then show ?thesis using assms by (auto simp: list_all_iff)
qed

lemma updateSortFrequency_entry:
  assumes "list_all safeInteger (dictionaryFrequencies dictionary e)"
  shows "frequencyOrder (updateSortFrequency dictionary ascending e)
           = orderFrom ascending (dictionaryFrequencies dictionary e)"
  using frequencyOrderOf_safe[OF assms, of ascending]
  by (simp add: updateSortFrequency_def Let_def foldl_scanFrequency dictionaryFrequencies_def)

lemma updateSortFrequency_definitions:
  assumes "list_all safeInteger (dictionaryFrequencies dictionary e)"
  shows "map def_frequencyOrder (definitions (updateSortFrequency dictionary ascending e))
           = map (\<lambda>d. orderFrom ascending (headwordFrequencies dictionary e d)) (definitions e)"
proof -
  have m: "fs_frequencyMap (foldl (scanFrequency dictionary)
                 \<lparr>fs_frequencyMap = Map.empty, fs_frequencyMin = MAX_SAFE_INTEGER,
                  fs_frequencyMax = MIN_SAFE_INTEGER\<rparr> (frequencies e))
        = lastFrequency dictionary (frequencies e)"
    by (auto simp: foldl_scanFrequency fun_eq_iff split: option.splits)
  have "def_frequencyOrder (updateDefinitionSortFrequency
            (lastFrequency dictionary (frequencies e)) ascending d)
          = orderFrom ascending (headwordFrequencies dictionary e d)" for d :: "'b termDefinition"
    using frequencyOrderOf_safe[OF headwordFrequencies_safe[OF assms, of d], of ascending]
    by (simp add: updateDefinitionSortFrequency_def Let_def foldl_scanHeadwordIndex
        headwordFrequencies_def)
  then show ?thesis
    by (simp add: updateSortFrequency_def Let_def m)
qed

lemma updateSortFrequency_rest:
  "map (\<lambda>d. d\<lparr>def_frequencyOrder := 0\<rparr>) (definitions (updateSortFrequency dictionary ascending e))
     = map (\<lambda>d. d\<lparr>def_frequencyOrder := 0\<rparr>) (definitions e)
   \<and> (updateSortFrequency dictionary ascending e)\<lparr>frequencyOrder := 0, definitions := []\<rparr>
       = e\<lparr>frequencyOrder := 0, definitions := []\<rparr>"
  by (simp add: updateSortFrequency_def Let_def updateDefinitionSortFrequency_def)

text \<open>
  Claim C6, as the code has it. Let the frequencies an entry has from the sorting
  dictionary be safe integers. Its \<^verbatim>\<open>frequencyOrder\<close> becomes their minimum (ascending) or
  their negated maximum (descending), and \<^verbatim>\<open>MAX_SAFE_INTEGER\<close> (ascending) or 0
  (descending) when there are none. Every definition gets the same from the frequencies it
  sees through its headword indices, where a headword contributes the frequency of its
  last record from that dictionary only. Nothing else of the entries changes.
\<close>

theorem updateSortFrequencies_order:
  assumes "list_all (\<lambda>e. list_all safeInteger (dictionaryFrequencies dictionary e)) es"
  shows "map frequencyOrder (updateSortFrequencies es dictionary ascending)
           = map (\<lambda>e. orderFrom ascending (dictionaryFrequencies dictionary e)) es
         \<and> map (\<lambda>e. map def_frequencyOrder (definitions e))
               (updateSortFrequencies es dictionary ascending)
           = map (\<lambda>e. map (\<lambda>d. orderFrom ascending (headwordFrequencies dictionary e d))
                         (definitions e)) es
         \<and> map (\<lambda>e. map (\<lambda>d. d\<lparr>def_frequencyOrder := 0\<rparr>) (definitions e))
               (updateSortFrequencies es dictionary ascending)
           = map (\<lambda>e. map (\<lambda>d. d\<lparr>def_frequencyOrder := 0\<rparr>) (definitions e)) es
         \<and> map (\<lambda>e. e\<lparr>frequencyOrder := 0, definitions := []\<rparr>)
               (updateSortFrequencies es dictionary ascending)
           = map (\<lambda>e. e\<lparr>frequencyOrder := 0, definitions := []\<rparr>) es"
  using assms
  by (simp add: updateSortFrequencies_def list_all_iff updateSortFrequency_entry
      updateSortFrequency_definitions updateSortFrequency_rest)

text \<open>The theorem at the sample entry, in both directions and for a dictionary the entry
  has no frequency from.\<close>

theorem updateSortFrequencies_order_witness:
  "list_all (\<lambda>e. list_all safeInteger (dictionaryFrequencies ''F'' e)) [twoFrequenciesEntry]
   \<and> map frequencyOrder (updateSortFrequencies [twoFrequenciesEntry] ''F'' True) = [5]
   \<and> map frequencyOrder (updateSortFrequencies [twoFrequenciesEntry] ''F'' False) = [- 10]
   \<and> map frequencyOrder (updateSortFrequencies [twoFrequenciesEntry] ''G'' True)
       = [MAX_SAFE_INTEGER]
   \<and> map frequencyOrder (updateSortFrequencies [twoFrequenciesEntry] ''G'' False) = [0]"
proof -
  have s: "list_all (\<lambda>e. list_all safeInteger (dictionaryFrequencies d e)) [twoFrequenciesEntry]"
    for d
    by (simp add: dictionaryFrequencies_def twoFrequenciesEntry_def frequencyRecord_def
        safeInteger_def MAX_SAFE_INTEGER_def MIN_SAFE_INTEGER_def)
  have f: "dictionaryFrequencies ''F'' twoFrequenciesEntry = [5, 10]"
    by (simp add: dictionaryFrequencies_def twoFrequenciesEntry_def frequencyRecord_def)
  have g: "dictionaryFrequencies ''G'' twoFrequenciesEntry = []"
    by (simp add: dictionaryFrequencies_def twoFrequenciesEntry_def frequencyRecord_def)
  show ?thesis
    using s[of "''F''"]
      updateSortFrequencies_order[OF s[of "''F''"], of True]
      updateSortFrequencies_order[OF s[of "''F''"], of False]
      updateSortFrequencies_order[OF s[of "''G''"], of True]
      updateSortFrequencies_order[OF s[of "''G''"], of False]
    by (simp add: f g orderFrom_def)
qed

text \<open>Claim C6 as stated fails in two ways. The sample entry has the frequencies 5 and 10
  for its only headword; ascending, the entry gets 5, but its only definition, which refers
  to that headword, gets 10: the map from headword index to frequency keeps the last
  record. And a single frequency above the safe integers is not its own minimum: the
  running minimum starts at \<^verbatim>\<open>MAX_SAFE_INTEGER\<close>.\<close>

theorem updateSortFrequencies_counterexample:
  "map fr_headwordIndex (frequencies twoFrequenciesEntry) = [0, 0]
   \<and> map def_headwordIndices (definitions twoFrequenciesEntry) = [[0]]
   \<and> frequencyOrder (updateSortFrequency ''F'' True twoFrequenciesEntry) = 5
   \<and> map def_frequencyOrder (definitions (updateSortFrequency ''F'' True twoFrequenciesEntry))
       = [10]
   \<and> map fr_frequency (frequencies hugeFrequencyEntry) = [9007199254740992]
   \<and> frequencyOrder (updateSortFrequency ''F'' True hugeFrequencyEntry) = 9007199254740991"
  by code_simp

section \<open>Properties of the sorter\<close>

lemma mset_insertBy: "mset (insertBy cmp x ys) = add_mset x (mset ys)"
  by (induction ys) auto

lemma mset_arraySort: "mset (arraySort cmp xs) = mset xs"
  by (induction xs) (auto simp: arraySort_def mset_insertBy)

lemma set_arraySort: "set (arraySort cmp xs) = set xs"
  using mset_arraySort[of cmp xs] by (metis set_mset_mset)

lemma arraySort_Cons: "arraySort cmp (x # xs) = insertBy cmp x (arraySort cmp xs)"
  by (simp add: arraySort_def)

lemma consistentComparator_mono:
  "consistentComparator S cmp \<Longrightarrow> T \<subseteq> S \<Longrightarrow> consistentComparator T cmp"
  unfolding consistentComparator_def by (meson subsetD)

lemma consistent_sym0:
  "consistentComparator S cmp \<Longrightarrow> a \<in> S \<Longrightarrow> b \<in> S \<Longrightarrow> cmp a b = 0 \<Longrightarrow> cmp b a = 0"
  unfolding consistentComparator_def by (metis less_irrefl linorder_neqE_linordered_idom)

lemma consistent_refl: "consistentComparator S cmp \<Longrightarrow> a \<in> S \<Longrightarrow> cmp a a = 0"
  unfolding consistentComparator_def by (metis less_asym linorder_neqE_linordered_idom)

lemma consistent_total:
  "consistentComparator S cmp \<Longrightarrow> a \<in> S \<Longrightarrow> b \<in> S \<Longrightarrow> \<not> cmp a b \<le> 0 \<Longrightarrow> cmp b a < 0"
  unfolding consistentComparator_def by (metis not_le)

lemma consistent_trans:
  "consistentComparator S cmp \<Longrightarrow> a \<in> S \<Longrightarrow> b \<in> S \<Longrightarrow> c \<in> S
   \<Longrightarrow> cmp a b \<le> 0 \<Longrightarrow> cmp b c \<le> 0 \<Longrightarrow> cmp a c \<le> 0"
  unfolding consistentComparator_def by blast

lemma consistent_strict_trans1:
  assumes c: "consistentComparator S cmp" and "a \<in> S" "b \<in> S" "d \<in> S"
    and ab: "cmp a b < 0" and bd: "cmp b d \<le> 0"
  shows "cmp a d < 0"
proof (rule ccontr)
  assume "\<not> cmp a d < 0"
  then have "cmp d a \<le> 0"
    using c assms(2,4) unfolding consistentComparator_def by (metis not_le)
  then have "cmp b a \<le> 0" using consistent_trans[OF c assms(3,4,2) bd] by simp
  moreover have "cmp b a > 0" using c ab assms(2,3) unfolding consistentComparator_def by blast
  ultimately show False by simp
qed

lemma consistent_strict_trans2:
  assumes c: "consistentComparator S cmp" and "a \<in> S" "b \<in> S" "d \<in> S"
    and ab: "cmp a b \<le> 0" and bd: "cmp b d < 0"
  shows "cmp a d < 0"
proof (rule ccontr)
  assume "\<not> cmp a d < 0"
  then have "cmp d a \<le> 0"
    using c assms(2,4) unfolding consistentComparator_def by (metis not_le)
  then have "cmp d b \<le> 0" using consistent_trans[OF c assms(4,2,3) _ ab] by simp
  moreover have "cmp d b > 0" using c bd assms(3,4) unfolding consistentComparator_def by blast
  ultimately show False by simp
qed

lemma sorted_insertBy:
  assumes c: "consistentComparator S cmp" and "x \<in> S" "set ys \<subseteq> S"
    and "sorted_wrt (\<lambda>a b. cmp a b \<le> 0) ys"
  shows "sorted_wrt (\<lambda>a b. cmp a b \<le> 0) (insertBy cmp x ys)"
  using assms(3,4)
proof (induction ys)
  case Nil
  then show ?case by simp
next
  case (Cons y ys)
  show ?case
  proof (cases "cmp x y \<le> 0")
    case True
    have "cmp x z \<le> 0" if z: "z \<in> set ys" for z
    proof -
      have "y \<in> S" "z \<in> S" using Cons.prems(1) z by auto
      moreover have "cmp y z \<le> 0" using Cons.prems(2) z by simp
      ultimately show ?thesis using consistent_trans[OF c assms(2) _ _ True] by blast
    qed
    then have "\<forall>z \<in> set ys. cmp x z \<le> 0" by blast
    then show ?thesis using True Cons.prems by simp
  next
    case False
    then have yx: "cmp y x \<le> 0" using consistent_total[OF c assms(2)] Cons.prems(1) by fastforce
    have "set (insertBy cmp x ys) = insert x (set ys)"
      using mset_insertBy[of cmp x ys] by (metis set_mset_add_mset_insert set_mset_mset)
    then show ?thesis using False yx Cons by auto
  qed
qed

lemma sorted_arraySort:
  assumes "consistentComparator (set xs) cmp"
  shows "sorted_wrt (\<lambda>a b. cmp a b \<le> 0) (arraySort cmp xs)"
  using assms
proof (induction xs)
  case Nil
  then show ?case by (simp add: arraySort_def)
next
  case (Cons x xs)
  have c: "consistentComparator (set xs) cmp"
    using Cons.prems by (rule consistentComparator_mono) auto
  show ?case
    unfolding arraySort_Cons
    by (rule sorted_insertBy[OF Cons.prems]) (auto simp: set_arraySort Cons.IH[OF c])
qed

lemma filter_insertBy_eq:
  assumes c: "consistentComparator S cmp" and "x \<in> S" "set ys \<subseteq> S" "e \<in> S"
    and e: "cmp e x = 0"
  shows "filter (\<lambda>y. cmp e y = 0) (insertBy cmp x ys) = x # filter (\<lambda>y. cmp e y = 0) ys"
  using assms(3)
proof (induction ys)
  case Nil
  then show ?case using e by simp
next
  case (Cons y ys)
  show ?case
  proof (cases "cmp x y \<le> 0")
    case True
    then show ?thesis using e by simp
  next
    case False
    have yS: "y \<in> S" using Cons.prems by simp
    have "cmp e y \<noteq> 0"
    proof
      assume "cmp e y = 0"
      moreover have "cmp x e = 0" using consistent_sym0[OF c assms(4,2) e] .
      ultimately have "cmp x y \<le> 0" using consistent_trans[OF c assms(2,4) yS] by simp
      then show False using False by simp
    qed
    then show ?thesis using False Cons by simp
  qed
qed

lemma filter_insertBy_neq:
  assumes "cmp e x \<noteq> 0"
  shows "filter (\<lambda>y. cmp e y = 0) (insertBy cmp x ys) = filter (\<lambda>y. cmp e y = 0) ys"
  using assms by (induction ys) auto

lemma stable_arraySort:
  assumes "consistentComparator (insert e (set xs)) cmp"
  shows "filter (\<lambda>y. cmp e y = 0) (arraySort cmp xs) = filter (\<lambda>y. cmp e y = 0) xs"
  using assms
proof (induction xs)
  case Nil
  then show ?case by (simp add: arraySort_def)
next
  case (Cons x xs)
  have c: "consistentComparator (insert e (set xs)) cmp"
    using Cons.prems by (rule consistentComparator_mono) auto
  show ?case
  proof (cases "cmp e x = 0")
    case True
    have "filter (\<lambda>y. cmp e y = 0) (insertBy cmp x (arraySort cmp xs))
        = x # filter (\<lambda>y. cmp e y = 0) (arraySort cmp xs)"
      by (rule filter_insertBy_eq[OF Cons.prems _ _ _ True]) (auto simp: set_arraySort)
    then show ?thesis using True Cons.IH[OF c] by (simp add: arraySort_Cons)
  next
    case False
    then show ?thesis using Cons.IH[OF c] by (simp add: arraySort_Cons filter_insertBy_neq)
  qed
qed

lemma consistent_ascendingBy: "consistentComparator S (ascendingBy key)"
  by (auto simp: consistentComparator_def ascendingBy_def)

lemma consistent_descendingBy: "consistentComparator S (descendingBy key)"
  by (auto simp: consistentComparator_def descendingBy_def)

lemma consistent_inOrder_Nil: "consistentComparator S (inOrder [])"
  by (simp add: consistentComparator_def)

lemma consistent_antisym0:
  assumes c: "consistentComparator S cmp" and "a \<in> S" "b \<in> S"
    and "cmp a b \<le> 0" "cmp b a \<le> 0"
  shows "cmp a b = 0"
proof (rule ccontr)
  assume "cmp a b \<noteq> 0"
  then have "cmp a b < 0" using assms(4) by simp
  then have "cmp b a > 0" using c assms(2,3) unfolding consistentComparator_def by blast
  then show False using assms(5) by simp
qed

lemma consistent_inOrder_Cons:
  assumes c: "consistentComparator S order"
    and r: "\<And>a. a \<in> S \<Longrightarrow> consistentComparator {b \<in> S. order a b = 0} (inOrder orders)"
  shows "consistentComparator S (inOrder (order # orders))"
  unfolding consistentComparator_def
proof (intro conjI ballI impI)
  fix a b assume a: "a \<in> S" and b: "b \<in> S"
  show "inOrder (order # orders) a b < 0 \<longleftrightarrow> inOrder (order # orders) b a > 0"
  proof (cases "order a b = 0")
    case True
    then have ba: "order b a = 0" using consistent_sym0[OF c a b] by simp
    have "a \<in> {x \<in> S. order a x = 0}" using a consistent_refl[OF c a] by simp
    moreover have "b \<in> {x \<in> S. order a x = 0}" using b True by simp
    ultimately have "inOrder orders a b < 0 \<longleftrightarrow> inOrder orders b a > 0"
      using r[OF a] unfolding consistentComparator_def by blast
    then show ?thesis using True ba by simp
  next
    case False
    then have "order b a \<noteq> 0" using consistent_sym0[OF c b a] by auto
    moreover have "order a b < 0 \<longleftrightarrow> order b a > 0"
      using c a b unfolding consistentComparator_def by blast
    ultimately show ?thesis using False by simp
  qed
next
  fix a b d assume a: "a \<in> S" and b: "b \<in> S" and d: "d \<in> S"
    and h: "inOrder (order # orders) a b \<le> 0 \<and> inOrder (order # orders) b d \<le> 0"
  have ab: "order a b \<le> 0" and bd: "order b d \<le> 0"
    using h by (auto split: if_splits)
  show "inOrder (order # orders) a d \<le> 0"
  proof (cases "order a b < 0 \<or> order b d < 0")
    case True
    then have "order a d < 0"
      using consistent_strict_trans1[OF c a b d _ bd] consistent_strict_trans2[OF c a b d ab]
      by blast
    then show ?thesis by simp
  next
    case False
    then have ab0: "order a b = 0" and bd0: "order b d = 0" using ab bd by auto
    have "order a d \<le> 0" using consistent_trans[OF c a b d] ab0 bd0 by simp
    moreover have "order d a \<le> 0"
      using consistent_trans[OF c d b a] consistent_sym0[OF c a b ab0]
        consistent_sym0[OF c b d bd0] by simp
    ultimately have ad0: "order a d = 0"
      using consistent_antisym0[OF c a d] by simp
    have "a \<in> {x \<in> S. order a x = 0}" using a consistent_refl[OF c a] by simp
    moreover have "b \<in> {x \<in> S. order a x = 0}" using b ab0 by simp
    moreover have "d \<in> {x \<in> S. order a x = 0}" using d ad0 by simp
    moreover have "inOrder orders a b \<le> 0 \<and> inOrder orders b d \<le> 0"
      using h ab0 bd0 by simp
    ultimately have "inOrder orders a d \<le> 0"
      using r[OF a] unfolding consistentComparator_def by blast
    then show ?thesis using ad0 by simp
  qed
qed

lemma consistent_inOrder_all:
  "(\<And>order. order \<in> set orders \<Longrightarrow> consistentComparator S order)
   \<Longrightarrow> consistentComparator S (inOrder orders)"
proof (induction orders arbitrary: S)
  case Nil
  show ?case by (rule consistent_inOrder_Nil)
next
  case (Cons order orders)
  show ?case
  proof (rule consistent_inOrder_Cons)
    show "consistentComparator S order" using Cons.prems by simp
  next
    fix a assume "a \<in> S"
    show "consistentComparator {b \<in> S. order a b = 0} (inOrder orders)"
    proof (rule Cons.IH)
      fix c assume "c \<in> set orders"
      then have "consistentComparator S c" using Cons.prems by simp
      then show "consistentComparator {b \<in> S. order a b = 0} c"
        by (rule consistentComparator_mono) auto
    qed
  qed
qed

lemma consistent_key:
  assumes c: "consistentComparator (key ` S) order"
  shows "consistentComparator S (\<lambda>a b. order (key a) (key b))"
  unfolding consistentComparator_def
proof (intro conjI ballI impI)
  fix a b assume "a \<in> S" "b \<in> S"
  then have "key a \<in> key ` S" "key b \<in> key ` S" by simp_all
  then show "order (key a) (key b) < 0 \<longleftrightarrow> 0 < order (key b) (key a)"
    using c unfolding consistentComparator_def by blast
next
  fix a b d assume "a \<in> S" "b \<in> S" "d \<in> S"
    and h: "order (key a) (key b) \<le> 0 \<and> order (key b) (key d) \<le> 0"
  then have "key a \<in> key ` S" "key b \<in> key ` S" "key d \<in> key ` S" by simp_all
  then show "order (key a) (key d) \<le> 0"
    using consistent_trans[OF c] h by blast
qed

lemma consistent_positionwise:
  assumes c: "consistentComparator UNIV order"
  shows "consistentComparator {xs. length xs = n} (positionwise order)"
proof (induction n)
  case 0
  then show ?case by (simp add: consistentComparator_def)
next
  case (Suc n)
  have sym: "order x y < 0 \<longleftrightarrow> order y x > 0" for x y
    using c unfolding consistentComparator_def by simp
  have z: "order x y = 0 \<longleftrightarrow> order y x = 0" for x y
    using consistent_sym0[OF c, of x y] consistent_sym0[OF c, of y x] by auto
  show ?case
    unfolding consistentComparator_def
  proof (intro conjI ballI impI)
    fix a b :: "'a list" assume "a \<in> {xs. length xs = Suc n}" "b \<in> {xs. length xs = Suc n}"
    then obtain x xs y ys where a: "a = x # xs" and b: "b = y # ys"
      and l: "length xs = n" "length ys = n"
      by (auto simp: length_Suc_conv)
    have "positionwise order xs ys < 0 \<longleftrightarrow> positionwise order ys xs > 0"
      using Suc l unfolding consistentComparator_def by simp
    then show "positionwise order a b < 0 \<longleftrightarrow> positionwise order b a > 0"
      using sym[of x y] z[of x y] by (simp add: a b)
  next
    fix a b d :: "'a list"
    assume "a \<in> {xs. length xs = Suc n}" "b \<in> {xs. length xs = Suc n}"
      "d \<in> {xs. length xs = Suc n}"
      and h: "positionwise order a b \<le> 0 \<and> positionwise order b d \<le> 0"
    then obtain x xs y ys w ws where a: "a = x # xs" and b: "b = y # ys" and d: "d = w # ws"
      and l: "length xs = n" "length ys = n" "length ws = n"
      by (auto simp: length_Suc_conv)
    have xy: "order x y \<le> 0" and yw: "order y w \<le> 0"
      using h by (auto simp: a b d split: if_splits)
    show "positionwise order a d \<le> 0"
    proof (cases "order x y < 0 \<or> order y w < 0")
      case True
      then have "order x w < 0"
        using consistent_strict_trans1[OF c _ _ _ _ yw, of x]
          consistent_strict_trans2[OF c _ _ _ xy, of w] by blast
      then show ?thesis by (simp add: a d)
    next
      case False
      then have xy0: "order x y = 0" and yw0: "order y w = 0" using xy yw by auto
      have "order x w \<le> 0" using consistent_trans[OF c _ _ _ xy yw] by simp
      moreover have "order w x \<le> 0"
        using consistent_trans[OF c, of w y x] z[of x y] z[of y w] xy0 yw0 by simp
      ultimately have xw0: "order x w = 0" using consistent_antisym0[OF c, of x w] by simp
      have "positionwise order xs ys \<le> 0 \<and> positionwise order ys ws \<le> 0"
        using h xy0 yw0 by (simp add: a b d)
      then have "positionwise order xs ws \<le> 0"
        using Suc l unfolding consistentComparator_def by blast
      then show ?thesis using xw0 by (simp add: a d)
    qed
  qed
qed

lemma compareHeadwordTerms_eq:
  "compareHeadwordTerms sc hs1 hs2
     = positionwise (inOrder [descendingBy (\<lambda>trm. int (length trm)), sc])
         (map hw_term hs1) (map hw_term hs2)"
  by (induction sc hs1 hs2 rule: compareHeadwordTerms.induct) (simp_all add: descendingBy_def)

lemma compareTermDictionaryEntries_eq: "compareTermDictionaryEntries sc = entryOrder sc"
  by (intro ext)
     (simp add: compareTermDictionaryEntries_def entryOrder_def headwordTermOrder_def
        compareHeadwordTerms_eq ascendingBy_def descendingBy_def)

lemma compareHeadwordIndices_eq:
  "compareHeadwordIndices is1 is2 = positionwise (ascendingBy int) is1 is2"
  by (induction is1 is2 rule: compareHeadwordIndices.induct) (simp_all add: ascendingBy_def)

lemma compareTermDefinitions_eq: "compareTermDefinitions = definitionOrder"
  by (intro ext)
     (simp add: compareTermDefinitions_def definitionOrder_def headwordIndexOrder_def
        compareHeadwordIndices_eq ascendingBy_def descendingBy_def)

lemma consistent_headwordIndexOrder:
  assumes "\<And>d. d \<in> S \<Longrightarrow> length (def_headwordIndices d) = n"
  shows "consistentComparator S headwordIndexOrder"
proof -
  have "consistentComparator {xs. length xs = n} (positionwise (ascendingBy int))"
    by (rule consistent_positionwise) (rule consistent_ascendingBy)
  then have "consistentComparator (def_headwordIndices ` S) (positionwise (ascendingBy int))"
    by (rule consistentComparator_mono) (use assms in auto)
  then have "consistentComparator S
      (\<lambda>a b. positionwise (ascendingBy int) (def_headwordIndices a) (def_headwordIndices b))"
    by (rule consistent_key)
  then show ?thesis unfolding headwordIndexOrder_def[abs_def] .
qed

lemma consistent_definitionOrder: "consistentComparator S definitionOrder"
proof -
  let ?len = "descendingBy (\<lambda>d. int (length (def_headwordIndices d)))"
  let ?tail = "[headwordIndexOrder, ascendingBy def_dictionaryIndex, descendingBy scoreFromTags,
                ascendingBy (\<lambda>d. int (def_index d))]"
  have tail: "consistentComparator T (inOrder (?len # ?tail))" for T :: "tag termDefinition set"
  proof (rule consistent_inOrder_Cons)
    show "consistentComparator T ?len" by (rule consistent_descendingBy)
  next
    fix a assume "a \<in> T"
    let ?C = "{b \<in> T. ?len a b = 0}"
    have h: "consistentComparator ?C headwordIndexOrder"
      by (rule consistent_headwordIndexOrder[of _ "length (def_headwordIndices a)"])
         (simp add: descendingBy_def)
    show "consistentComparator ?C (inOrder ?tail)"
      by (rule consistent_inOrder_all)
         (use h in \<open>auto simp: consistent_ascendingBy consistent_descendingBy\<close>)
  qed
  have 3: "consistentComparator T (inOrder (descendingBy def_score # ?len # ?tail))"
    for T :: "tag termDefinition set"
    by (rule consistent_inOrder_Cons) (rule consistent_descendingBy, rule tail)
  have 2: "consistentComparator T
      (inOrder (descendingBy def_dictionaryPriority # descendingBy def_score # ?len # ?tail))"
    for T :: "tag termDefinition set"
    by (rule consistent_inOrder_Cons) (rule consistent_descendingBy, rule 3)
  have "consistentComparator S
      (inOrder (ascendingBy def_frequencyOrder # descendingBy def_dictionaryPriority
                  # descendingBy def_score # ?len # ?tail))"
    by (rule consistent_inOrder_Cons) (rule consistent_ascendingBy, rule 2)
  then show ?thesis unfolding definitionOrder_def .
qed

lemma consistent_headwordTermOrder:
  assumes sc: "consistentComparator UNIV sc"
    and n: "\<And>e. e \<in> S \<Longrightarrow> length (headwords e) = n"
  shows "consistentComparator S (headwordTermOrder sc)"
proof -
  let ?o = "inOrder [descendingBy (\<lambda>trm. int (length trm)), sc]"
  have "consistentComparator UNIV ?o"
    by (rule consistent_inOrder_all) (use sc in \<open>auto simp: consistent_descendingBy\<close>)
  then have "consistentComparator {xs. length xs = n} (positionwise ?o)"
    by (rule consistent_positionwise)
  then have "consistentComparator ((\<lambda>e. map hw_term (headwords e)) ` S) (positionwise ?o)"
    by (rule consistentComparator_mono) (use n in auto)
  then have "consistentComparator S
      (\<lambda>a b. positionwise ?o (map hw_term (headwords a)) (map hw_term (headwords b)))"
    by (rule consistent_key)
  then show ?thesis unfolding headwordTermOrder_def[abs_def] .
qed

lemma consistent_inOrder_list:
  "list_all (consistentComparator S) orders \<Longrightarrow> consistentComparator S (inOrder orders)"
  by (rule consistent_inOrder_all) (simp add: list_all_iff)

lemma consistent_entryOrder:
  assumes sc: "consistentComparator UNIV sc"
    and n: "\<And>e. e \<in> S \<Longrightarrow> length (headwords e) = n"
  shows "consistentComparator S (entryOrder sc)"
  unfolding entryOrder_def
  by (rule consistent_inOrder_list)
     (simp add: consistent_ascendingBy consistent_descendingBy
        consistent_headwordTermOrder[OF sc n])

lemma consistent_codeUnitComparer: "consistentComparator UNIV codeUnitComparer"
  by (auto simp: consistentComparator_def codeUnitComparer_def)

text \<open>
  Claim C7, as the code has it. The comparison function of the definition sort is the
  combination, in this order, of: ascending \<^verbatim>\<open>frequency_order\<close>, descending
  \<^verbatim>\<open>dictionary_priority\<close>, descending \<^verbatim>\<open>score\<close>, descending number of headword indices,
  ascending headword indices position by position, ascending \<^verbatim>\<open>dictionary_index\<close>,
  descending sum of tag scores, ascending original index. The sort rearranges the
  definitions, the result is in that order throughout, and definitions the order does not
  tell apart keep their places.
\<close>

theorem sortTermDictionaryEntryDefinitions_order:
  "compareTermDefinitions = definitionOrder
   \<and> mset (sortTermDictionaryEntryDefinitions defs) = mset defs
   \<and> inDefinitionOrder (sortTermDictionaryEntryDefinitions defs)
   \<and> filter (\<lambda>y. definitionOrder d y = 0) (sortTermDictionaryEntryDefinitions defs)
       = filter (\<lambda>y. definitionOrder d y = 0) defs"
proof (intro conjI)
  show "compareTermDefinitions = definitionOrder" by (rule compareTermDefinitions_eq)
  show "mset (sortTermDictionaryEntryDefinitions defs) = mset defs"
    by (simp add: sortTermDictionaryEntryDefinitions_def mset_arraySort)
  show "inDefinitionOrder (sortTermDictionaryEntryDefinitions defs)"
    unfolding sortTermDictionaryEntryDefinitions_def compareTermDefinitions_eq
      inDefinitionOrder_def
    by (rule sorted_arraySort) (rule consistent_definitionOrder)
  show "filter (\<lambda>y. definitionOrder d y = 0) (sortTermDictionaryEntryDefinitions defs)
       = filter (\<lambda>y. definitionOrder d y = 0) defs"
    unfolding sortTermDictionaryEntryDefinitions_def compareTermDefinitions_eq
    by (rule stable_arraySort) (rule consistent_definitionOrder)
qed

text \<open>The theorem at the two sample definitions: the one with two headword indices comes
  first.\<close>

theorem sortTermDictionaryEntryDefinitions_order_witness:
  "inDefinitionOrder
     (sortTermDictionaryEntryDefinitions [singleIndexDefinition, twoIndexDefinition])
   \<and> sortTermDictionaryEntryDefinitions [singleIndexDefinition, twoIndexDefinition]
       = [twoIndexDefinition, singleIndexDefinition]"
proof -
  have "sortTermDictionaryEntryDefinitions [singleIndexDefinition, twoIndexDefinition]
       = [twoIndexDefinition, singleIndexDefinition]"
    by code_simp
  moreover have "inDefinitionOrder
     (sortTermDictionaryEntryDefinitions [singleIndexDefinition, twoIndexDefinition])"
    using sortTermDictionaryEntryDefinitions_order
      [of "[singleIndexDefinition, twoIndexDefinition]" singleIndexDefinition]
    by (rule conjunct1[OF conjunct2[OF conjunct2]])
  ultimately show ?thesis by (intro conjI)
qed

text \<open>Claim C7 as stated fails: of two definitions that agree on frequency order,
  dictionary priority and score, the one with the headword indices \<^verbatim>\<open>[1]\<close> is
  lexicographically before the one with \<^verbatim>\<open>[2, 3]\<close>, but the sort puts the longer list
  first.\<close>

theorem sortTermDictionaryEntryDefinitions_lexicographic_counterexample:
  "definitionOrderAsStated singleIndexDefinition twoIndexDefinition < 0
   \<and> sortTermDictionaryEntryDefinitions [singleIndexDefinition, twoIndexDefinition]
       = [twoIndexDefinition, singleIndexDefinition]"
  by code_simp

text \<open>
  Claim C1, as the code has it. The comparison function of the entry sort is the
  combination, in this order, of: descending \<^verbatim>\<open>max_transformed_text_length\<close>, ascending
  number of inflection hypotheses, descending \<^verbatim>\<open>source_term_exact_match_count\<close>, ascending
  \<^verbatim>\<open>frequency_order\<close>, descending \<^verbatim>\<open>dictionary_priority\<close>, descending \<^verbatim>\<open>score\<close>, pairwise
  headword-term comparison (descending term length, then the string comparer), descending
  number of definitions, ascending \<^verbatim>\<open>dictionary_index\<close>. The sort rearranges the entries.
  When the string comparer is a consistent ordering and the entries have the same number
  of headwords (as they have in the modes group, split and simple, where it is one), the
  result is in that order throughout and entries the order does not tell apart keep their
  insertion order.
\<close>

theorem sortTermDictionaryEntries_order:
  assumes "consistentComparator UNIV stringComparer"
    and "list_all (\<lambda>e. length (headwords e) = n) es"
  shows "compareTermDictionaryEntries stringComparer = entryOrder stringComparer
         \<and> mset (sortTermDictionaryEntries stringComparer es) = mset es
         \<and> inEntryOrder stringComparer
              (sortTermDictionaryEntries stringComparer es)
         \<and> list_all (\<lambda>e. filter (\<lambda>y. entryOrder stringComparer e y = 0)
                             (sortTermDictionaryEntries stringComparer es)
                           = filter (\<lambda>y. entryOrder stringComparer e y = 0) es) es"
proof (intro conjI)
  have c: "consistentComparator (set es) (entryOrder stringComparer)"
    by (rule consistent_entryOrder[OF assms(1), of _ n]) (use assms(2) in \<open>simp add: list_all_iff\<close>)
  show "compareTermDictionaryEntries stringComparer = entryOrder stringComparer"
    by (rule compareTermDictionaryEntries_eq)
  show "mset (sortTermDictionaryEntries stringComparer es) = mset es"
    by (simp add: sortTermDictionaryEntries_def mset_arraySort)
  show "inEntryOrder stringComparer
          (sortTermDictionaryEntries stringComparer es)"
    unfolding sortTermDictionaryEntries_def compareTermDictionaryEntries_eq inEntryOrder_def
    by (rule sorted_arraySort) (rule c)
  show "list_all (\<lambda>e. filter (\<lambda>y. entryOrder stringComparer e y = 0)
                             (sortTermDictionaryEntries stringComparer es)
                           = filter (\<lambda>y. entryOrder stringComparer e y = 0) es) es"
    unfolding list_all_iff sortTermDictionaryEntries_def compareTermDictionaryEntries_eq
  proof
    fix e assume "e \<in> set es"
    then have "insert e (set es) = set es" by auto
    then show "filter (\<lambda>y. entryOrder stringComparer e y = 0)
                 (arraySort (entryOrder stringComparer) es)
               = filter (\<lambda>y. entryOrder stringComparer e y = 0) es"
      using stable_arraySort[of e es "entryOrder stringComparer"] c by simp
  qed
qed

text \<open>The theorem at four entries with one headword each: the longest source text first,
  then the higher score, then the terms in the order of the comparer.\<close>

theorem sortTermDictionaryEntries_order_witness:
  "consistentComparator UNIV codeUnitComparer
   \<and> list_all (\<lambda>e. length (headwords e) = 1)
       [plainEntry ''b'' 1 0, plainEntry ''a'' 1 0, plainEntry ''abc'' 3 0, plainEntry ''a'' 1 5]
   \<and> inEntryOrder codeUnitComparer
       (sortTermDictionaryEntries codeUnitComparer
          [plainEntry ''b'' 1 0, plainEntry ''a'' 1 0, plainEntry ''abc'' 3 0, plainEntry ''a'' 1 5])
   \<and> sortTermDictionaryEntries codeUnitComparer
          [plainEntry ''b'' 1 0, plainEntry ''a'' 1 0, plainEntry ''abc'' 3 0, plainEntry ''a'' 1 5]
       = [plainEntry ''abc'' 3 0, plainEntry ''a'' 1 5, plainEntry ''a'' 1 0, plainEntry ''b'' 1 0]"
proof -
  have l: "list_all (\<lambda>e. length (headwords e) = 1)
       [plainEntry ''b'' 1 0, plainEntry ''a'' 1 0, plainEntry ''abc'' 3 0, plainEntry ''a'' 1 5]"
    by (simp add: plainEntry_def createTermDictionaryEntry_def)
  have v: "sortTermDictionaryEntries codeUnitComparer
          [plainEntry ''b'' 1 0, plainEntry ''a'' 1 0, plainEntry ''abc'' 3 0, plainEntry ''a'' 1 5]
       = [plainEntry ''abc'' 3 0, plainEntry ''a'' 1 5, plainEntry ''a'' 1 0, plainEntry ''b'' 1 0]"
    by code_simp
  have s: "inEntryOrder codeUnitComparer
       (sortTermDictionaryEntries codeUnitComparer
          [plainEntry ''b'' 1 0, plainEntry ''a'' 1 0, plainEntry ''abc'' 3 0, plainEntry ''a'' 1 5])"
    using sortTermDictionaryEntries_order[OF consistent_codeUnitComparer l] by (rule conjunct1[OF conjunct2[OF conjunct2]])
  show ?thesis
    by (intro conjI) (fact consistent_codeUnitComparer l s v)+
qed

text \<open>Claim C1 as stated fails for entries with different numbers of headwords, which merge
  mode builds. The three sample entries agree on every key before the headword terms. The
  sort leaves them as they are, the first entry before the third, although the two agree
  on their only common headword position and the third has more definitions: by the
  order of the claim the third entry belongs before the first. (The first goes before the
  second by the number of definitions, the second before the third by the second headword,
  the third before the first by the number of definitions: no arrangement of the three is
  in order.)\<close>

theorem sortTermDictionaryEntries_merge_counterexample:
  "sortTermDictionaryEntries codeUnitComparer [mergedEntryA, mergedEntryB, mergedEntryC]
     = [mergedEntryA, mergedEntryB, mergedEntryC]
   \<and> entryOrder codeUnitComparer mergedEntryA mergedEntryB < 0
   \<and> entryOrder codeUnitComparer mergedEntryB mergedEntryC < 0
   \<and> entryOrder codeUnitComparer mergedEntryC mergedEntryA < 0
   \<and> \<not> inEntryOrder codeUnitComparer
         (sortTermDictionaryEntries codeUnitComparer [mergedEntryA, mergedEntryB, mergedEntryC])"
proof -
  have s: "sortTermDictionaryEntries codeUnitComparer [mergedEntryA, mergedEntryB, mergedEntryC]
     = [mergedEntryA, mergedEntryB, mergedEntryC]"
    by code_simp
  have ab: "entryOrder codeUnitComparer mergedEntryA mergedEntryB < 0" by code_simp
  have bc: "entryOrder codeUnitComparer mergedEntryB mergedEntryC < 0" by code_simp
  have ca: "entryOrder codeUnitComparer mergedEntryC mergedEntryA < 0" by code_simp
  have ac: "entryOrder codeUnitComparer mergedEntryA mergedEntryC > 0" by code_simp
  have "\<not> inEntryOrder codeUnitComparer
         [mergedEntryA, mergedEntryB, mergedEntryC]"
    using ac by (simp add: inEntryOrder_def)
  then show ?thesis using s ab bc ca by simp
qed

section \<open>Properties of the term finder\<close>

lemma areInflectionHyphothesesEqual_iff:
  "areInflectionHyphothesesEqual h1 h2 \<longleftrightarrow> set h1 = set h2"
proof
  assume a: "areInflectionHyphothesesEqual h1 h2"
  then have sub: "set h1 \<subseteq> set h2" and c: "card (set h1) = card (set h2)"
    by (auto simp: areInflectionHyphothesesEqual_def list_all_iff length_remdups_card_conv)
  show "set h1 = set h2"
    by (rule card_subset_eq) (use sub c in auto)
next
  assume "set h1 = set h2"
  then show "areInflectionHyphothesesEqual h1 h2"
    by (simp add: areInflectionHyphothesesEqual_def list_all_iff length_remdups_card_conv)
qed

lemma created_entry_shape:
  "headwords (createTermDictionaryEntryFromDatabaseEntry dbe ot tt dt hyps p m)
     = [createTermHeadword 0 (dbe_term dbe)
          (if length (dbe_reading dbe) > 0 then dbe_reading dbe else dbe_term dbe)
          [createSource ot tt dt (dbe_matchType dbe) (dbe_matchSource dbe) p]
          (if length (dbe_termTags dbe) > 0 then [createTagGroup (dbe_dictionary dbe) (dbe_termTags dbe)] else [])
          (dbe_rules dbe)]
   \<and> map def_id (definitions (createTermDictionaryEntryFromDatabaseEntry dbe ot tt dt hyps p m)) = [dbe_id dbe]
   \<and> isPrimary (createTermDictionaryEntryFromDatabaseEntry dbe ot tt dt hyps p m) = p
   \<and> inflectionHypotheses (createTermDictionaryEntryFromDatabaseEntry dbe ot tt dt hyps p m) = hyps"
  by (simp add: createTermDictionaryEntryFromDatabaseEntry_def createTermDictionaryEntry_def
      createTermDefinition_def Let_def case_prod_beta)

lemma hasDefinitionId_created:
  "hasDefinitionId i (createTermDictionaryEntryFromDatabaseEntry dbe ot tt dt hyps p m) \<longleftrightarrow> i = dbe_id dbe"
  using created_entry_shape[of dbe ot tt dt hyps p m]
  by (auto simp: hasDefinitionId_def list_ex_iff)


lemma findInvariant_merge:
  assumes inv: "findInvariant st" and k: "k < length (ft_dictionaryEntries st)"
  shows "findInvariant (mergeInflectionHypotheses st k hyps)
         \<and> ft_originalTextLength (mergeInflectionHypotheses st k hyps) = ft_originalTextLength st
         \<and> ft_ids (mergeInflectionHypotheses st k hyps) = ft_ids st"
proof -
  let ?es = "ft_dictionaryEntries st"
  let ?st' = "mergeInflectionHypotheses st k hyps"
  obtain new where es': "ft_dictionaryEntries ?st' = ?es[k := (?es ! k)\<lparr>inflectionHypotheses := new\<rparr>]"
    by (simp add: mergeInflectionHypotheses_def Let_def)
  have same: "hasDefinitionId i (ft_dictionaryEntries ?st' ! j) = hasDefinitionId i (?es ! j)
      \<and> headwords (ft_dictionaryEntries ?st' ! j) = headwords (?es ! j)"
    if "j < length ?es" for i j
    using that k unfolding es' by (cases "j = k") (simp_all add: hasDefinitionId_def)
  have len: "length (ft_dictionaryEntries ?st') = length ?es" unfolding es' by simp
  have ids: "ft_ids ?st' = ft_ids st" by (simp add: mergeInflectionHypotheses_def Let_def)
  have 1: "list_ex (hasDefinitionId i) (ft_dictionaryEntries ?st')" if "i \<in> ft_ids st" for i
  proof -
    from inv that have "list_ex (hasDefinitionId i) ?es" by (simp add: findInvariant_def)
    then obtain j where "j < length ?es" "hasDefinitionId i (?es ! j)"
      by (auto simp: list_ex_iff in_set_conv_nth)
    then have "j < length (ft_dictionaryEntries ?st')"
      and "hasDefinitionId i (ft_dictionaryEntries ?st' ! j)"
      using same[of j i] len by simp_all
    then have "\<exists>x \<in> set (ft_dictionaryEntries ?st'). hasDefinitionId i x"
      using nth_mem by blast
    then show ?thesis by (simp add: list_ex_iff)
  qed
  have 2: "list_all (\<lambda>e. case headwords e of [] \<Rightarrow> False | h # hs \<Rightarrow> hw_sources h \<noteq> [])
             (ft_dictionaryEntries ?st')"
    unfolding list_all_length
  proof (intro allI impI)
    fix j assume j: "j < length (ft_dictionaryEntries ?st')"
    then have "case headwords (?es ! j) of [] \<Rightarrow> False | h # hs \<Rightarrow> hw_sources h \<noteq> []"
      using inv len by (simp add: findInvariant_def list_all_length)
    then show "case headwords (ft_dictionaryEntries ?st' ! j) of [] \<Rightarrow> False
               | h # hs \<Rightarrow> hw_sources h \<noteq> []"
      using same[of j] j len by simp
  qed
  have "ft_originalTextLength ?st' = ft_originalTextLength st"
    by (simp add: mergeInflectionHypotheses_def Let_def)
  then show ?thesis using 1 2 ids by (simp add: findInvariant_def)
qed

lemma findInvariant_position:
  assumes inv: "findInvariant st" and i: "i \<in> ft_ids st"
  shows "\<exists>k h hs src srcs. findPosition (hasDefinitionId i) (ft_dictionaryEntries st) = Some k
           \<and> k < length (ft_dictionaryEntries st)
           \<and> headwords (ft_dictionaryEntries st ! k) = h # hs \<and> hw_sources h = src # srcs"
proof -
  from inv i have "list_ex (hasDefinitionId i) (ft_dictionaryEntries st)"
    by (simp add: findInvariant_def)
  then have "findPosition (hasDefinitionId i) (ft_dictionaryEntries st) \<noteq> None"
    by (simp add: findPosition_None list_ex_iff)
  then obtain k where k: "findPosition (hasDefinitionId i) (ft_dictionaryEntries st) = Some k"
    by auto
  then have kl: "k < length (ft_dictionaryEntries st)" using findPosition_Some by blast
  then have "case headwords (ft_dictionaryEntries st ! k) of [] \<Rightarrow> False
             | h # hs \<Rightarrow> hw_sources h \<noteq> []"
    using inv by (simp add: findInvariant_def list_all_length)
  then obtain h hs src srcs where "headwords (ft_dictionaryEntries st ! k) = h # hs"
    "hw_sources h = src # srcs"
    by (auto split: list.splits simp: neq_Nil_conv)
  then show ?thesis using k kl by blast
qed

lemma processDatabaseEntry_inv:
  assumes inv: "findInvariant st"
  shows "\<exists>st'. processDatabaseEntry m d hyps st dbe = Inr st' \<and> findInvariant st'
           \<and> ft_originalTextLength st' = ft_originalTextLength st"
proof (cases "dbe_id dbe \<in> ft_ids st")
  case True
  from findInvariant_position[OF inv True] obtain k h hs src srcs where
    k: "findPosition (hasDefinitionId (dbe_id dbe)) (ft_dictionaryEntries st) = Some k"
    and kl: "k < length (ft_dictionaryEntries st)"
    and h: "headwords (ft_dictionaryEntries st ! k) = h # hs" and s: "hw_sources h = src # srcs"
    by blast
  show ?thesis
    using True k h s findInvariant_merge[OF inv kl, of hyps] inv
    by (simp add: processDatabaseEntry_def)
next
  case False
  show ?thesis
  proof (cases "''non-lemma'' \<in> set (dbe_definitionTags dbe)")
    case True
    then show ?thesis using False inv by (simp add: processDatabaseEntry_def)
  next
    case nl: False
    let ?e = "createTermDictionaryEntryFromDatabaseEntry dbe (dfl_originalText d)
                (dfl_transformedText d) (dfl_deinflectedText d) hyps True m"
    let ?st' = "st\<lparr>ft_dictionaryEntries := ft_dictionaryEntries st @ [?e],
                   ft_ids := insert (dbe_id dbe) (ft_ids st)\<rparr>"
    have r: "processDatabaseEntry m d hyps st dbe = Inr ?st'"
      using False nl by (simp add: processDatabaseEntry_def)
    have "findInvariant ?st'"
      using inv created_entry_shape[of dbe "dfl_originalText d" "dfl_transformedText d"
          "dfl_deinflectedText d" hyps True m]
      by (auto simp: findInvariant_def hasDefinitionId_created createTermHeadword_def)
    then show ?thesis using r by simp
  qed
qed

lemma processDatabaseEntries_inv:
  "findInvariant st \<Longrightarrow>
     \<exists>st'. processDatabaseEntries m d hyps st dbes = Inr st' \<and> findInvariant st'
           \<and> ft_originalTextLength st' = ft_originalTextLength st"
proof (induction dbes arbitrary: st)
  case Nil
  then show ?case by simp
next
  case (Cons dbe dbes)
  from processDatabaseEntry_inv[OF Cons.prems, of m d hyps dbe] obtain st1 where
    1: "processDatabaseEntry m d hyps st dbe = Inr st1" and i1: "findInvariant st1"
    and l1: "ft_originalTextLength st1 = ft_originalTextLength st"
    by blast
  from Cons.IH[OF i1] obtain st' where
    "processDatabaseEntries m d hyps st1 dbes = Inr st'" "findInvariant st'"
    "ft_originalTextLength st' = ft_originalTextLength st1"
    by blast
  then show ?case using 1 l1 by simp
qed

lemma findInvariant_store: "findInvariant (st\<lparr>ft_store := s\<rparr>) = findInvariant st"
  by (simp add: findInvariant_def)

lemma findInvariant_length:
  "findInvariant (st\<lparr>ft_originalTextLength := n\<rparr>) = findInvariant st"
  by (simp add: findInvariant_def)

lemma processDeinflection_inv:
  assumes inv: "findInvariant st"
  shows "\<exists>st'. processDeinflection m st d = Inr st' \<and> findInvariant st'
           \<and> ft_originalTextLength st'
               = foldl max (ft_originalTextLength st) (countedLengths [d])"
proof (cases "dfl_databaseEntries d = []")
  case True
  then show ?thesis using inv by (simp add: processDeinflection_def countedLengths_def)
next
  case False
  let ?st1 = "if \<not> dfl_isDictionaryDeinflection d
              then st\<lparr>ft_originalTextLength :=
                        max (ft_originalTextLength st) (length (dfl_originalText d))\<rparr>
              else st"
  let ?al = "allocate (ft_store ?st1) (dfl_inflectionHypotheses d)"
  have i1: "findInvariant (?st1\<lparr>ft_store := fst ?al\<rparr>)"
    using inv by (simp add: findInvariant_store findInvariant_length)
  from processDatabaseEntries_inv[OF i1, of m d "snd ?al" "dfl_databaseEntries d"]
  obtain st' where r: "processDatabaseEntries m d (snd ?al) (?st1\<lparr>ft_store := fst ?al\<rparr>)
                         (dfl_databaseEntries d) = Inr st'"
    and i': "findInvariant st'"
    and l: "ft_originalTextLength st' = ft_originalTextLength (?st1\<lparr>ft_store := fst ?al\<rparr>)"
    by blast
  have "processDeinflection m st d = Inr st'"
    using False r by (simp add: processDeinflection_def Let_def)
  moreover have "ft_originalTextLength st'
      = foldl max (ft_originalTextLength st) (countedLengths [d])"
    using l False by (simp add: countedLengths_def)
  ultimately show ?thesis using i' by blast
qed

lemma processDeinflections_inv:
  "findInvariant st \<Longrightarrow>
     \<exists>st'. processDeinflections m st ds = Inr st' \<and> findInvariant st'
           \<and> ft_originalTextLength st' = foldl max (ft_originalTextLength st) (countedLengths ds)"
proof (induction ds arbitrary: st)
  case Nil
  then show ?case by (simp add: countedLengths_def)
next
  case (Cons d ds)
  from processDeinflection_inv[OF Cons.prems, of m d] obtain st1 where
    1: "processDeinflection m st d = Inr st1" and i1: "findInvariant st1"
    and l1: "ft_originalTextLength st1 = foldl max (ft_originalTextLength st) (countedLengths [d])"
    by blast
  from Cons.IH[OF i1] obtain st' where
    2: "processDeinflections m st1 ds = Inr st'" and i2: "findInvariant st'"
    and l2: "ft_originalTextLength st' = foldl max (ft_originalTextLength st1) (countedLengths ds)"
    by blast
  have "countedLengths (d # ds) = countedLengths [d] @ countedLengths ds"
    by (simp add: countedLengths_def)
  then have "foldl max (ft_originalTextLength st) (countedLengths (d # ds))
      = foldl max (ft_originalTextLength st1) (countedLengths ds)"
    using l1 by (simp only: foldl_append)
  then show ?case using 1 2 i2 l2 by simp
qed

lemma foldl_max_nat: "foldl max (a::nat) xs = Max (set (a # xs))"
proof (induction xs arbitrary: a)
  case Nil
  then show ?case by simp
next
  case (Cons x xs)
  have "Max (insert (max a x) (set xs)) = Max (insert a (insert x (set xs)))"
    by (cases "set xs = {}") (simp_all add: max.assoc)
  then show ?case using Cons by simp
qed

lemma findInvariant_initial: "findInvariant initialFindState"
  by (simp add: findInvariant_def initialFindState_def)

text \<open>
  \<^verbatim>\<open>_findTermsInternal\<close> returns, and the original text length it returns is 0 when the
  filtered text is empty and otherwise the largest length of the original text over the
  candidates that have at least one database entry and were not made by dictionary
  deinflection (0 when there is no such candidate).
\<close>

lemma findTermsInternal_length:
  "\<exists>r. findTermsInternal removeNonJapaneseCharacters getJapaneseOnlyText getDeinflections text
          enabledDictionaryMap = Inr r
     \<and> ft_originalTextLength r =
         (if (if removeNonJapaneseCharacters then getJapaneseOnlyText text else text) = [] then 0
          else Max (set (0 # countedLengths (getDeinflections
                 (if removeNonJapaneseCharacters then getJapaneseOnlyText text else text)))))"
proof -
  let ?t = "if removeNonJapaneseCharacters then getJapaneseOnlyText text else text"
  show ?thesis
  proof (cases "?t = []")
    case True
    then show ?thesis by (simp add: findTermsInternal_def initialFindState_def)
  next
    case False
    from processDeinflections_inv[OF findInvariant_initial, of enabledDictionaryMap
        "getDeinflections ?t"]
    obtain st' where "processDeinflections enabledDictionaryMap initialFindState
        (getDeinflections ?t) = Inr st'"
      and "ft_originalTextLength st' = foldl max (ft_originalTextLength initialFindState)
            (countedLengths (getDeinflections ?t))"
      by blast
    then show ?thesis using False
      by (simp add: findTermsInternal_def foldl_max_nat initialFindState_def Let_def)
  qed
qed

lemma hypothesis_copy:
  "\<lparr>ih_source = ih_source x, ih_inflections = ih_inflections x\<rparr> = (x :: inflectionHypothesis)"
  by simp

lemma findDuplicate_cong:
  assumes "\<And>b. b \<in> set E \<Longrightarrow> ih_inflections (H ! b) = ih_inflections (H0 ! b)"
  shows "findDuplicate H E i = findDuplicate H0 E i"
  unfolding findDuplicate_def using assms by (intro find_cong) auto

lemma findDuplicate_Some_in: "findDuplicate H E i = Some b \<Longrightarrow> b \<in> set E"
  unfolding findDuplicate_def by (auto simp: find_Some_iff)

text \<open>The state of the merge loop after the addresses \<open>as\<close>, relative to the store \<open>H0\<close> it
  started from.\<close>

lemma merge_loop:
  assumes vE: "\<And>b. b \<in> set E \<Longrightarrow> b < length H0"
    and vA: "\<And>a. a \<in> set as \<Longrightarrow> a < length H0 \<and> a \<notin> set E"
  shows "let H = fst (foldl (mergeHypothesis E) (H0, []) as);
             new = snd (foldl (mergeHypothesis E) (H0, []) as)
         in length H = length H0
            \<and> new = map (\<lambda>a. H0 ! a) (filter (\<lambda>a. firstDuplicate H0 E a = None) as)
            \<and> (\<forall>c < length H0. ih_inflections (H ! c) = ih_inflections (H0 ! c)
                   \<and> (c \<notin> set E \<longrightarrow> H ! c = H0 ! c))
            \<and> (\<forall>b \<in> set E. ih_source (H ! b)
                   = (if \<exists>a \<in> set as. firstDuplicate H0 E a = Some b
                            \<and> ih_source (H0 ! a) \<noteq> ih_source (H0 ! b)
                      then Both else ih_source (H0 ! b)))"
  using vA
proof (induction as rule: rev_induct)
  case Nil
  then show ?case by simp
next
  case (snoc a as)
  define H where "H = fst (foldl (mergeHypothesis E) (H0, []) as)"
  define new where "new = snd (foldl (mergeHypothesis E) (H0, []) as)"
  have ih: "length H = length H0"
    "new = map (\<lambda>a. H0 ! a) (filter (\<lambda>a. firstDuplicate H0 E a = None) as)"
    "\<And>c. c < length H0 \<Longrightarrow> ih_inflections (H ! c) = ih_inflections (H0 ! c)"
    "\<And>c. c < length H0 \<Longrightarrow> c \<notin> set E \<Longrightarrow> H ! c = H0 ! c"
    "\<And>b. b \<in> set E \<Longrightarrow> ih_source (H ! b)
                   = (if \<exists>a \<in> set as. firstDuplicate H0 E a = Some b
                            \<and> ih_source (H0 ! a) \<noteq> ih_source (H0 ! b)
                      then Both else ih_source (H0 ! b))"
    using snoc.IH snoc.prems unfolding H_def new_def Let_def by auto
  have a: "a < length H0" "a \<notin> set E" using snoc.prems by auto
  have Ha: "H ! a = H0 ! a" using ih(4) a by simp
  have fd: "findDuplicate H E (ih_inflections (H0 ! a)) = firstDuplicate H0 E a"
    unfolding firstDuplicate_def by (rule findDuplicate_cong) (use ih(3) vE in auto)
  have step: "foldl (mergeHypothesis E) (H0, []) (as @ [a]) = mergeHypothesis E (H, new) a"
    by (simp add: H_def new_def)
  show ?case
  proof (cases "firstDuplicate H0 E a")
    case None
    have r: "mergeHypothesis E (H, new) a = (H, new @ [H0 ! a])"
      using None fd Ha by (simp add: mergeHypothesis_def Let_def)
    have "\<And>b. (\<exists>x \<in> set (as @ [a]). firstDuplicate H0 E x = Some b
                  \<and> ih_source (H0 ! x) \<noteq> ih_source (H0 ! b))
              \<longleftrightarrow> (\<exists>x \<in> set as. firstDuplicate H0 E x = Some b
                  \<and> ih_source (H0 ! x) \<noteq> ih_source (H0 ! b))"
      using None by auto
    then show ?thesis
      unfolding step r Let_def using ih None by simp
  next
    case (Some b)
    have bE: "b \<in> set E" using Some findDuplicate_Some_in unfolding firstDuplicate_def by blast
    have bl: "b < length H0" using vE bE by simp
    have ex: "(\<exists>x \<in> set (as @ [a]). firstDuplicate H0 E x = Some b'
                  \<and> ih_source (H0 ! x) \<noteq> ih_source (H0 ! b'))
              \<longleftrightarrow> (\<exists>x \<in> set as. firstDuplicate H0 E x = Some b'
                  \<and> ih_source (H0 ! x) \<noteq> ih_source (H0 ! b'))
                 \<or> (b' = b \<and> ih_source (H0 ! a) \<noteq> ih_source (H0 ! b))" for b'
      using Some by auto
    show ?thesis
    proof (cases "ih_source (H ! b) \<noteq> ih_source (H0 ! a)")
      case True
      let ?H' = "H[b := (H ! b)\<lparr>ih_source := Both\<rparr>]"
      have r: "mergeHypothesis E (H, new) a = (?H', new)"
        using Some fd Ha True by (simp add: mergeHypothesis_def Let_def)
      have 1: "length ?H' = length H0" using ih(1) by simp
      have 3: "ih_inflections (?H' ! c) = ih_inflections (H0 ! c)
               \<and> (c \<notin> set E \<longrightarrow> ?H' ! c = H0 ! c)" if "c < length H0" for c
        using that ih(1,3,4) bE by (cases "c = b") auto
      have 4: "ih_source (?H' ! b') = (if \<exists>x \<in> set (as @ [a]). firstDuplicate H0 E x = Some b'
                            \<and> ih_source (H0 ! x) \<noteq> ih_source (H0 ! b')
                      then Both else ih_source (H0 ! b'))" if "b' \<in> set E" for b'
      proof (cases "b' = b")
        case eq: True
        have "ih_source (?H' ! b) = Both" using bl ih(1) by simp
        moreover have "(\<exists>x \<in> set as. firstDuplicate H0 E x = Some b
                  \<and> ih_source (H0 ! x) \<noteq> ih_source (H0 ! b))
                 \<or> ih_source (H0 ! a) \<noteq> ih_source (H0 ! b)"
        proof (cases "ih_source (H ! b) = ih_source (H0 ! b)")
          case True
          then show ?thesis using \<open>ih_source (H ! b) \<noteq> ih_source (H0 ! a)\<close> by simp
        next
          case False
          then show ?thesis using ih(5)[OF bE] by (auto split: if_splits)
        qed
        ultimately show ?thesis unfolding ex eq by simp
      next
        case False
        then have "?H' ! b' = H ! b'" by simp
        then show ?thesis unfolding ex using ih(5)[OF that] False by simp
      qed
      show ?thesis
        unfolding step r Let_def fst_conv snd_conv
        using 1 3 4 ih(2) Some by simp
    next
      case False
      have r: "mergeHypothesis E (H, new) a = (H, new)"
        using Some fd Ha False by (simp add: mergeHypothesis_def Let_def)
      have 4: "ih_source (H ! b') = (if \<exists>x \<in> set (as @ [a]). firstDuplicate H0 E x = Some b'
                            \<and> ih_source (H0 ! x) \<noteq> ih_source (H0 ! b')
                      then Both else ih_source (H0 ! b'))" if "b' \<in> set E" for b'
      proof (cases "b' = b \<and> ih_source (H0 ! a) \<noteq> ih_source (H0 ! b)")
        case True
        then have "ih_source (H ! b) \<noteq> ih_source (H0 ! b)" using False by simp
        then have "ih_source (H ! b) = Both" using ih(5)[OF bE] by (auto split: if_splits)
        then show ?thesis unfolding ex using True by simp
      next
        case False
        then show ?thesis unfolding ex using ih(5)[OF that] by auto
      qed
      show ?thesis
        unfolding step r Let_def fst_conv snd_conv
        using ih(1,2,3,4) 4 Some by simp
    qed
  qed
qed

lemma map_nth_append_upt:
  "map (\<lambda>a. (H @ new) ! a) [length H ..< length H + length new] = new"
proof -
  have "[length H ..< length H + length new] = map (\<lambda>i. i + length H) [0 ..< length new]"
    by (simp add: map_add_upt add.commute)
  then have "map (\<lambda>a. (H @ new) ! a) [length H ..< length H + length new]
      = map (\<lambda>i. (H @ new) ! (length H + i)) [0 ..< length new]"
    by (simp add: o_def add.commute)
  also have "\<dots> = map (\<lambda>i. new ! i) [0 ..< length new]"
    by (simp only: nth_append_length_plus)
  also have "\<dots> = new" by (rule map_nth)
  finally show ?thesis .
qed

lemma mergeInflectionHypotheses_mergedInto:
  assumes "separateHypotheses st k hypotheses"
  shows "mergedInto st k hypotheses (mergeInflectionHypotheses st k hypotheses)"
proof -
  let ?existing = "inflectionHypotheses (ft_dictionaryEntries st ! k)"
  let ?store = "ft_store st"
  let ?m = "foldl (mergeHypothesis ?existing) (?store, []) hypotheses"
  let ?merged = "fst ?m" and ?new = "snd ?m"
  let ?added = "filter (\<lambda>a. firstDuplicate ?store ?existing a = None) hypotheses"
  have vE: "\<And>b. b \<in> set ?existing \<Longrightarrow> b < length ?store"
    and vA: "\<And>a. a \<in> set hypotheses \<Longrightarrow> a < length ?store \<and> a \<notin> set ?existing"
    using assms by (auto simp: separateHypotheses_def list_all_iff)
  note l = merge_loop[of ?existing ?store hypotheses, OF vE vA, unfolded Let_def]
  have 1: "length ?merged = length ?store" using l by blast
  have 2: "?new = map (\<lambda>a. ?store ! a) ?added" using l by blast
  have 3: "\<And>c. c < length ?store \<Longrightarrow> ih_inflections (?merged ! c) = ih_inflections (?store ! c)
               \<and> (c \<notin> set ?existing \<longrightarrow> ?merged ! c = ?store ! c)"
    using l by blast
  have 4: "\<And>b. b \<in> set ?existing \<Longrightarrow> ih_source (?merged ! b)
                   = (if \<exists>a \<in> set hypotheses. firstDuplicate ?store ?existing a = Some b
                            \<and> ih_source (?store ! a) \<noteq> ih_source (?store ! b)
                      then Both else ih_source (?store ! b))"
    using l by blast
  have ln: "length ?new = length ?added" using 2 by simp
  have st': "mergeInflectionHypotheses st k hypotheses
      = st\<lparr>ft_dictionaryEntries :=
               (ft_dictionaryEntries st)
                 [k := (ft_dictionaryEntries st ! k)
                    \<lparr>inflectionHypotheses := ?existing @ [length ?store ..< length ?store + length ?added]\<rparr>],
             ft_store := ?merged @ ?new\<rparr>"
    by (simp add: mergeInflectionHypotheses_def Let_def allocate_def 1 ln)
  have m: "map (\<lambda>a. (?merged @ ?new) ! a) [length ?store ..< length ?store + length ?added]
             = map (\<lambda>a. ?store ! a) ?added"
    using map_nth_append_upt[of ?merged ?new] unfolding 1 ln 2[symmetric] .
  have low: "(?merged @ ?new) ! c = ?merged ! c" if "c < length ?store" for c
    using that 1 by (simp add: nth_append)
  show ?thesis
    unfolding mergedInto_def Let_def st'
    using 1 ln m low 3 4 vE by simp
qed

text \<open>
  Claim C2, as the code has it, for one database entry of a candidate whose hypothesis
  objects are at the addresses \<open>hypotheses\<close>.
  \<^item> The first sighting of an id whose entry is not marked \<^verbatim>\<open>non-lemma\<close> appends a new
    primary entry, which refers to the hypotheses of the candidate, and records the id;
    a database entry marked \<^verbatim>\<open>non-lemma\<close> is skipped and its id is not recorded.
  \<^item> For a later sighting the existing entry is the first entry with a definition of
    that id. When the transformed text of the candidate is strictly shorter than that of
    the first source of the existing entry, nothing changes. Otherwise the hypotheses of
    the candidate are merged into the existing entry, as \<open>mergedInto\<close> says (shown for a
    candidate whose hypothesis objects are not those of the existing entry).
  \<^item> Two hypotheses count as equal when their inflections are equal as sets.
\<close>

theorem processDatabaseEntry_deduplicates:
  "(dbe_id databaseEntry \<notin> ft_ids st \<and> ''non-lemma'' \<notin> set (dbe_definitionTags databaseEntry)
      \<longrightarrow> processDatabaseEntry enabledDictionaryMap d hypotheses st databaseEntry
            = Inr (st\<lparr>ft_dictionaryEntries :=
                        ft_dictionaryEntries st @
                          [createTermDictionaryEntryFromDatabaseEntry databaseEntry
                             (dfl_originalText d) (dfl_transformedText d) (dfl_deinflectedText d)
                             hypotheses True enabledDictionaryMap],
                      ft_ids := insert (dbe_id databaseEntry) (ft_ids st)\<rparr>))
   \<and> (dbe_id databaseEntry \<notin> ft_ids st \<and> ''non-lemma'' \<in> set (dbe_definitionTags databaseEntry)
      \<longrightarrow> processDatabaseEntry enabledDictionaryMap d hypotheses st databaseEntry = Inr st)
   \<and> (dbe_id databaseEntry \<in> ft_ids st \<and> findInvariant st
      \<longrightarrow> (\<exists>k h hs src srcs.
             findPosition (hasDefinitionId (dbe_id databaseEntry)) (ft_dictionaryEntries st) = Some k
             \<and> k < length (ft_dictionaryEntries st)
             \<and> headwords (ft_dictionaryEntries st ! k) = h # hs \<and> hw_sources h = src # srcs
             \<and> (length (dfl_transformedText d) < length (src_transformedText src)
                  \<longrightarrow> processDatabaseEntry enabledDictionaryMap d hypotheses st databaseEntry
                        = Inr st)
             \<and> (length (dfl_transformedText d) \<ge> length (src_transformedText src)
                  \<longrightarrow> processDatabaseEntry enabledDictionaryMap d hypotheses st databaseEntry
                        = Inr (mergeInflectionHypotheses st k hypotheses)
                      \<and> (separateHypotheses st k hypotheses
                           \<longrightarrow> mergedInto st k hypotheses
                                 (mergeInflectionHypotheses st k hypotheses)))))
   \<and> (areInflectionHyphothesesEqual inflections1 inflections2
        \<longleftrightarrow> set inflections1 = set inflections2)"
proof (intro conjI impI)
  assume a: "dbe_id databaseEntry \<in> ft_ids st \<and> findInvariant st"
  from findInvariant_position[of st "dbe_id databaseEntry"] a obtain k h hs src srcs where
    k: "findPosition (hasDefinitionId (dbe_id databaseEntry)) (ft_dictionaryEntries st) = Some k"
    and kl: "k < length (ft_dictionaryEntries st)"
    and h: "headwords (ft_dictionaryEntries st ! k) = h # hs" and s: "hw_sources h = src # srcs"
    by blast
  have 1: "length (dfl_transformedText d) < length (src_transformedText src)
             \<longrightarrow> processDatabaseEntry enabledDictionaryMap d hypotheses st databaseEntry = Inr st"
    using a k h s by (simp add: processDatabaseEntry_def)
  have 2: "length (dfl_transformedText d) \<ge> length (src_transformedText src)
             \<longrightarrow> processDatabaseEntry enabledDictionaryMap d hypotheses st databaseEntry
                   = Inr (mergeInflectionHypotheses st k hypotheses)
                 \<and> (separateHypotheses st k hypotheses
                      \<longrightarrow> mergedInto st k hypotheses (mergeInflectionHypotheses st k hypotheses))"
    using a k h s mergeInflectionHypotheses_mergedInto[of st k hypotheses]
    by (simp add: processDatabaseEntry_def)
  show "\<exists>k h hs src srcs.
             findPosition (hasDefinitionId (dbe_id databaseEntry)) (ft_dictionaryEntries st) = Some k
             \<and> k < length (ft_dictionaryEntries st)
             \<and> headwords (ft_dictionaryEntries st ! k) = h # hs \<and> hw_sources h = src # srcs
             \<and> (length (dfl_transformedText d) < length (src_transformedText src)
                  \<longrightarrow> processDatabaseEntry enabledDictionaryMap d hypotheses st databaseEntry
                        = Inr st)
             \<and> (length (dfl_transformedText d) \<ge> length (src_transformedText src)
                  \<longrightarrow> processDatabaseEntry enabledDictionaryMap d hypotheses st databaseEntry
                        = Inr (mergeInflectionHypotheses st k hypotheses)
                      \<and> (separateHypotheses st k hypotheses
                           \<longrightarrow> mergedInto st k hypotheses
                                 (mergeInflectionHypotheses st k hypotheses)))"
    using k kl h s 1 2 by blast
qed (simp_all add: processDatabaseEntry_def areInflectionHyphothesesEqual_iff)

text \<open>The theorem at the sample state: the second sighting of the database entry merges the
  two hypotheses of the dictionary candidate into the existing entry. The existing
  hypothesis with the inflection \<^verbatim>\<open>past\<close> becomes \<^verbatim>\<open>'both'\<close>; a copy of the hypothesis
  with the inflection \<^verbatim>\<open>plural\<close> is added at the new address 3.\<close>

theorem processDatabaseEntry_deduplicates_witness:
  "dbe_id exactHit \<in> ft_ids secondSightingState
   \<and> findInvariant secondSightingState
   \<and> separateHypotheses secondSightingState 0 [1, 2]
   \<and> processDatabaseEntry [] dictionaryCandidate [1, 2] secondSightingState exactHit
       = Inr (mergeInflectionHypotheses secondSightingState 0 [1, 2])
   \<and> mergedInto secondSightingState 0 [1, 2]
       (mergeInflectionHypotheses secondSightingState 0 [1, 2])
   \<and> map inflectionHypotheses
         (ft_dictionaryEntries (mergeInflectionHypotheses secondSightingState 0 [1, 2]))
       = [[0, 3]]
   \<and> ft_store (mergeInflectionHypotheses secondSightingState 0 [1, 2])
       = [\<lparr>ih_source = Both, ih_inflections = [''past'']\<rparr>,
          \<lparr>ih_source = Dictionary, ih_inflections = [''past'']\<rparr>,
          \<lparr>ih_source = Dictionary, ih_inflections = [''plural'']\<rparr>,
          \<lparr>ih_source = Dictionary, ih_inflections = [''plural'']\<rparr>]"
proof -
  have i: "dbe_id exactHit \<in> ft_ids secondSightingState"
    by (simp add: exactHit_def secondSightingState_def)
  have p: "findPosition (hasDefinitionId (dbe_id exactHit))
             (ft_dictionaryEntries secondSightingState) = Some 0"
    by code_simp
  have hw: "map (map src_transformedText \<circ> hw_sources)
              (headwords (ft_dictionaryEntries secondSightingState ! 0)) = [[''ab'']]"
    by code_simp
  have inv: "findInvariant secondSightingState"
    unfolding findInvariant_def
    by (simp add: secondSightingState_def created_entry_shape[THEN conjunct1]
        hasDefinitionId_created createTermHeadword_def exactHit_def)
  have sep: "separateHypotheses secondSightingState 0 [1, 2]"
    by code_simp
  note t = processDatabaseEntry_deduplicates
    [of exactHit secondSightingState "[]" dictionaryCandidate "[1, 2]"]
  from t i inv obtain k h hs src srcs where
    k: "findPosition (hasDefinitionId (dbe_id exactHit))
          (ft_dictionaryEntries secondSightingState) = Some k"
    and h: "headwords (ft_dictionaryEntries secondSightingState ! k) = h # hs"
      "hw_sources h = src # srcs"
    and m: "length (dfl_transformedText dictionaryCandidate) \<ge> length (src_transformedText src)
             \<longrightarrow> processDatabaseEntry [] dictionaryCandidate [1, 2] secondSightingState exactHit
                   = Inr (mergeInflectionHypotheses secondSightingState k [1, 2])
                 \<and> (separateHypotheses secondSightingState k [1, 2]
                      \<longrightarrow> mergedInto secondSightingState k [1, 2]
                            (mergeInflectionHypotheses secondSightingState k [1, 2]))"
    by blast
  have k0: "k = 0" using k p by simp
  have "src_transformedText src = ''ab''" using h hw unfolding k0 by simp
  then have r: "processDatabaseEntry [] dictionaryCandidate [1, 2] secondSightingState exactHit
                   = Inr (mergeInflectionHypotheses secondSightingState 0 [1, 2])"
    and mi: "mergedInto secondSightingState 0 [1, 2]
                            (mergeInflectionHypotheses secondSightingState 0 [1, 2])"
    using m sep unfolding k0 by (simp_all add: dictionaryCandidate_def)
  have v1: "map inflectionHypotheses
         (ft_dictionaryEntries (mergeInflectionHypotheses secondSightingState 0 [1, 2]))
       = [[0, 3]]"
    by code_simp
  have v2: "ft_store (mergeInflectionHypotheses secondSightingState 0 [1, 2])
       = [\<lparr>ih_source = Both, ih_inflections = [''past'']\<rparr>,
          \<lparr>ih_source = Dictionary, ih_inflections = [''past'']\<rparr>,
          \<lparr>ih_source = Dictionary, ih_inflections = [''plural'']\<rparr>,
          \<lparr>ih_source = Dictionary, ih_inflections = [''plural'']\<rparr>]"
    by code_simp
  show ?thesis
    by (intro conjI) (fact i inv sep r mi v1 v2)+
qed

text \<open>Claim C2 as stated fails in two ways. Hypotheses are compared as sets, not as
  multisets: the existing hypothesis with the inflections \<^verbatim>\<open>past, past\<close> and the merged
  one with \<^verbatim>\<open>past\<close> are duplicates, so nothing is added and the existing source becomes
  \<^verbatim>\<open>'both'\<close>. And the first sighting of a database entry marked \<^verbatim>\<open>non-lemma\<close> appends no
  entry.\<close>

theorem processDatabaseEntry_multiset_counterexample:
  "areInflectionHyphothesesEqual [''past'', ''past''] [''past'']
   \<and> mset [''past'', ''past''] \<noteq> mset [''past'']
   \<and> map_sum id (map inflectionHypotheses \<circ> ft_dictionaryEntries)
         (processDatabaseEntry [] pastCandidate [1] doublePastState exactHit) = Inr [[0]]
   \<and> map_sum id ft_store (processDatabaseEntry [] pastCandidate [1] doublePastState exactHit)
       = Inr [\<lparr>ih_source = Both, ih_inflections = [''past'', ''past'']\<rparr>,
              \<lparr>ih_source = Dictionary, ih_inflections = [''past'']\<rparr>]
   \<and> dbe_id nonLemmaHit \<notin> ft_ids initialFindState
   \<and> map_sum id ft_dictionaryEntries
         (processDatabaseEntry [] algorithmCandidate [] initialFindState nonLemmaHit) = Inr []"
proof -
  have 1: "areInflectionHyphothesesEqual [''past'', ''past''] [''past'']" by code_simp
  have 2: "mset [''past'', ''past''] \<noteq> mset [''past'']" by simp
  have 3: "map_sum id (map inflectionHypotheses \<circ> ft_dictionaryEntries)
         (processDatabaseEntry [] pastCandidate [1] doublePastState exactHit) = Inr [[0]]"
    by code_simp
  have 4: "map_sum id ft_store (processDatabaseEntry [] pastCandidate [1] doublePastState exactHit)
       = Inr [\<lparr>ih_source = Both, ih_inflections = [''past'', ''past'']\<rparr>,
              \<lparr>ih_source = Dictionary, ih_inflections = [''past'']\<rparr>]"
    by code_simp
  have 5: "dbe_id nonLemmaHit \<notin> ft_ids initialFindState" by (simp add: initialFindState_def)
  have 6: "map_sum id ft_dictionaryEntries
         (processDatabaseEntry [] algorithmCandidate [] initialFindState nonLemmaHit) = Inr []"
    by code_simp
  show ?thesis by (intro conjI) (fact 1 2 3 4 5 6)+
qed

section \<open>Properties of the lookup of terms\<close>

lemma findTermsInternal_returns:
  "\<exists>found. findTermsInternal removeNonJapaneseCharacters getJapaneseOnlyText getDeinflections
             text enabledDictionaryMap = Inr found"
proof -
  from processDeinflections_inv[OF findInvariant_initial] show ?thesis
    unfolding findTermsInternal_def Let_def by (metis (full_types))
qed

lemma snd_addTagExpansionTargets:
  "snd (addTagExpansionTargets tagsOf withTags (\<lambda>k. []) tagTargets objects)
     = map (\<lambda>object. withTags object []) objects"
  by (induction objects arbitrary: tagTargets) (simp_all add: Let_def split_beta)

lemma pronunciation_tags_cleared:
  "list_all (\<lambda>x. pi_tags x = []) (pr_pitches (snd (addPronunciationTargets (\<lambda>k. []) tagTargets p)))
   \<and> list_all (\<lambda>x. pt_tags x = [])
       (pr_phoneticTranscriptions (snd (addPronunciationTargets (\<lambda>k. []) tagTargets p)))"
  by (simp add: addPronunciationTargets_def split_beta createTermPronunciation_def
      snd_addTagExpansionTargets list_all_iff pitchWithTags_def
      phoneticTranscriptionWithTags_def)

lemma pronunciations_tags_cleared:
  "list_all (\<lambda>p. list_all (\<lambda>x. pi_tags x = []) (pr_pitches p)
                 \<and> list_all (\<lambda>x. pt_tags x = []) (pr_phoneticTranscriptions p))
     (snd (addPronunciationsTargets (\<lambda>k. []) tagTargets ps))"
  by (induction ps arbitrary: tagTargets)
     (simp_all add: split_beta pronunciation_tags_cleared)

lemma entry_tags_cleared: "tagsCleared (snd (addEntryTagTargets (\<lambda>k. []) tagTargets e))"
  by (simp add: addEntryTagTargets_def split_beta tagsCleared_def snd_addTagExpansionTargets
      list_all_iff headwordWithTags_def definitionWithTags_def
      pronunciations_tags_cleared[unfolded list_all_iff])

lemma entries_tags_cleared: "list_all tagsCleared (snd (addEntriesTagTargets (\<lambda>k. []) tagTargets es))"
  by (induction es arbitrary: tagTargets) (simp_all add: split_beta entry_tags_cleared)

lemma clearTermTags_cleared: "list_all tagsCleared (clearTermTags es)"
  by (simp add: clearTermTags_def getTermTagTargets_def entries_tags_cleared)

lemma applyTermMetas_returns:
  "list_all (\<lambda>row. tm_index row < length headwordReadingMaps) metas \<Longrightarrow>
     \<exists>es'. applyTermMetas c m headwordReadingMaps metas es = Inr es'"
  by (induction metas arbitrary: es) (simp_all add: split_beta)

lemma tagsCleared_updateSortFrequency:
  "tagsCleared (updateSortFrequency dictionary ascending e) = tagsCleared e"
  by (simp add: tagsCleared_def updateSortFrequency_def Let_def list_all_iff
      updateDefinitionSortFrequency_def)

lemma flagRedundantLoop_cleared:
  "list_all (\<lambda>d. def_tags d = []) defs \<Longrightarrow>
     list_all (\<lambda>d. def_tags d = []) (flagRedundantLoop lastDictionary lastPartOfSpeech defs)"
  by (induction defs arbitrary: lastDictionary lastPartOfSpeech) (simp_all add: Let_def)

lemma flagRedundantDefinitionTags_cleared:
  "\<forall>d \<in> set defs. def_tags d = [] \<Longrightarrow>
     \<forall>d \<in> set (flagRedundantDefinitionTags defs). def_tags d = []"
  using flagRedundantLoop_cleared[of defs None None]
  by (simp add: flagRedundantDefinitionTags_def list_all_iff)

lemma tagsCleared_sortEntryData: "tagsCleared e \<Longrightarrow> tagsCleared (sortEntryData e)"
  using flagRedundantDefinitionTags_cleared[of "definitions e"]
  by (simp add: tagsCleared_def sortEntryData_def Let_def list_all_iff set_arraySort
      sortTermDictionaryEntryDefinitions_def sortTermPronunciations_def)

lemma sortFoundEntries_cleared:
  "list_all tagsCleared es \<Longrightarrow> list_all tagsCleared (sortFoundEntries tr options es)"
  by (simp add: sortFoundEntries_def Let_def list_all_iff set_arraySort
      sortTermDictionaryEntries_def updateSortFrequencies_def tagsCleared_updateSortFrequency
      tagsCleared_sortEntryData split: option.splits)

lemma sortDictionaryMap_eq:
  "sortDictionaryMap sortFrequencyDictionary enabledDictionaryMap =
     (case map_of enabledDictionaryMap sortFrequencyDictionary of
        None \<Rightarrow> [] | Some details \<Rightarrow> [(sortFrequencyDictionary, details)])"
  by (simp add: sortDictionaryMap_def split: option.splits)

lemma addMetaAndTags_simple_calls:
  "fst (addMetaAndTags tr ModeSimple options es) =
     (case opt_sortFrequencyDictionary options of
        None \<Rightarrow> []
      | Some sortFrequencyDictionary \<Rightarrow>
          [FindTermMetaBulk (map fst (collectTargets es))
             (sortDictionaryMap sortFrequencyDictionary (opt_enabledDictionaryMap options))])"
  by (simp add: addMetaAndTags_def addTermMeta_def Let_def split: option.splits)

lemma addMetaAndTags_simple_cleared:
  "snd (snd (addMetaAndTags tr ModeSimple options es)) = Inr es' \<Longrightarrow> list_all tagsCleared es'"
  by (auto simp add: addMetaAndTags_def split_beta clearTermTags_cleared
      split: option.splits sum.splits)

lemma addMetaAndTags_simple_returns:
  "rowsInRange tr \<Longrightarrow> \<exists>es'. snd (snd (addMetaAndTags tr ModeSimple options es)) = Inr es'"
proof (cases "opt_sortFrequencyDictionary options")
  case None
  then show ?thesis by (simp add: addMetaAndTags_def)
next
  case (Some d)
  assume r: "rowsInRange tr"
  let ?m = "sortDictionaryMap d (opt_enabledDictionaryMap options)"
  from r have "list_all (\<lambda>row. tm_index row < length (map snd (collectTargets es)))
     (tr_findTermMetaBulk tr (map fst (collectTargets es)) ?m)"
    unfolding rowsInRange_def
    using allE[of _ "map fst (collectTargets es)"] by (metis length_map)
  from applyTermMetas_returns[OF this] obtain es1 where
    "applyTermMetas (tr_convertStringToNumber tr) ?m (map snd (collectTargets es))
       (tr_findTermMetaBulk tr (map fst (collectTargets es)) ?m) es = Inr es1"
    by blast
  then show ?thesis using Some by (simp add: addMetaAndTags_def addTermMeta_def Let_def)
qed


lemma findTerms_simple_unfold:
  assumes "findTermsInternal (opt_removeNonJapaneseCharacters options)
             (tr_getJapaneseOnlyText tr)
             (\<lambda>t. tr_getDeinflections tr t (opt_enabledDictionaryMap options) options)
             text (opt_enabledDictionaryMap options) = Inr found"
  shows "\<exists>remaining.
           databaseCalls (findTerms tr ModeSimple text options)
             = fst (addMetaAndTags tr ModeSimple options remaining)
           \<and> returned (findTerms tr ModeSimple text options)
             = (case snd (snd (addMetaAndTags tr ModeSimple options remaining)) of
                  Inl e \<Rightarrow> Inl e
                | Inr dictionaryEntries \<Rightarrow>
                    Inr \<lparr>ftr_dictionaryEntries = sortFoundEntries tr options dictionaryEntries,
                         ftr_originalTextLength = ft_originalTextLength found,
                         ftr_store = ft_store found\<rparr>)"
  using assms
  apply (simp add: findTerms_def groupByMode_def Let_def split_beta databaseCalls_def returned_def)
  apply (rule exI, rule conjI, rule refl, rule refl)
  done

text \<open>
  Claim C10. In the mode \<^verbatim>\<open>'simple'\<close>, \<^verbatim>\<open>findTerms\<close> makes no lookup of tag metadata. With no
  sort frequency dictionary it makes no lookup of term metadata; with one it makes a single
  lookup of term metadata, whose map of dictionaries holds the sort frequency dictionary
  alone when that dictionary is enabled and is empty otherwise. When \<^verbatim>\<open>findTerms\<close> returns,
  every tag list of the headwords, the definitions, the pitches and the phonetic
  transcriptions of the returned entries is empty; and it returns when the rows of the
  database carry positions of the list of terms they were asked for.
\<close>

theorem findTerms_simple_mode:
  "filter isTagMetaLookup (databaseCalls (findTerms tr ModeSimple text options)) = []
   \<and> (case opt_sortFrequencyDictionary options of
        None \<Rightarrow> databaseCalls (findTerms tr ModeSimple text options) = []
      | Some sortFrequencyDictionary \<Rightarrow>
          (\<exists>termList.
             databaseCalls (findTerms tr ModeSimple text options) =
               [FindTermMetaBulk termList
                  (case map_of (opt_enabledDictionaryMap options) sortFrequencyDictionary of
                     None \<Rightarrow> []
                   | Some details \<Rightarrow> [(sortFrequencyDictionary, details)])]))
   \<and> (\<forall>r. returned (findTerms tr ModeSimple text options) = Inr r
            \<longrightarrow> list_all tagsCleared (ftr_dictionaryEntries r))
   \<and> (rowsInRange tr \<longrightarrow> (\<exists>r. returned (findTerms tr ModeSimple text options) = Inr r))"
proof -
  obtain found where
    "findTermsInternal (opt_removeNonJapaneseCharacters options)
       (tr_getJapaneseOnlyText tr)
       (\<lambda>t. tr_getDeinflections tr t (opt_enabledDictionaryMap options) options)
       text (opt_enabledDictionaryMap options) = Inr found"
    using findTermsInternal_returns by blast
  from findTerms_simple_unfold[OF this] obtain remaining where
    calls: "databaseCalls (findTerms tr ModeSimple text options)
              = fst (addMetaAndTags tr ModeSimple options remaining)"
    and res: "returned (findTerms tr ModeSimple text options)
             = (case snd (snd (addMetaAndTags tr ModeSimple options remaining)) of
                  Inl e \<Rightarrow> Inl e
                | Inr dictionaryEntries \<Rightarrow>
                    Inr \<lparr>ftr_dictionaryEntries = sortFoundEntries tr options dictionaryEntries,
                         ftr_originalTextLength = ft_originalTextLength found,
                         ftr_store = ft_store found\<rparr>)"
    by blast
  have 1: "filter isTagMetaLookup (databaseCalls (findTerms tr ModeSimple text options)) = []"
    unfolding calls addMetaAndTags_simple_calls by (simp split: option.splits)
  have 2: "(case opt_sortFrequencyDictionary options of
        None \<Rightarrow> databaseCalls (findTerms tr ModeSimple text options) = []
      | Some sortFrequencyDictionary \<Rightarrow>
          (\<exists>termList.
             databaseCalls (findTerms tr ModeSimple text options) =
               [FindTermMetaBulk termList
                  (case map_of (opt_enabledDictionaryMap options) sortFrequencyDictionary of
                     None \<Rightarrow> []
                   | Some details \<Rightarrow> [(sortFrequencyDictionary, details)])]))"
    unfolding calls addMetaAndTags_simple_calls sortDictionaryMap_eq
    by (simp split: option.splits)
  have 3: "\<forall>r. returned (findTerms tr ModeSimple text options) = Inr r
            \<longrightarrow> list_all tagsCleared (ftr_dictionaryEntries r)"
  proof (intro allI impI)
    fix r
    assume "returned (findTerms tr ModeSimple text options) = Inr r"
    then obtain es where
      es: "snd (snd (addMetaAndTags tr ModeSimple options remaining)) = Inr es"
      and r: "ftr_dictionaryEntries r = sortFoundEntries tr options es"
      unfolding res by (auto split: sum.splits)
    from sortFoundEntries_cleared[OF addMetaAndTags_simple_cleared[OF es]]
    show "list_all tagsCleared (ftr_dictionaryEntries r)" unfolding r .
  qed
  have 4: "rowsInRange tr \<longrightarrow> (\<exists>r. returned (findTerms tr ModeSimple text options) = Inr r)"
  proof
    assume "rowsInRange tr"
    from addMetaAndTags_simple_returns[OF this] obtain es where
      "snd (snd (addMetaAndTags tr ModeSimple options remaining)) = Inr es" by blast
    then show "\<exists>r. returned (findTerms tr ModeSimple text options) = Inr r"
      unfolding res by simp
  qed
  show ?thesis by (intro conjI) (fact 1 2 3 4)+
qed

text \<open>The theorem at the sample data: the single lookup asks for the term \<^verbatim>\<open>ab\<close> in the
  dictionary \<^verbatim>\<open>F\<close>, and the two entries returned have their pronunciations and no tags.
  In the mode \<^verbatim>\<open>'split'\<close> the same call looks up the tags of the two hits, of the pitch and
  of the transcription.\<close>

theorem findTerms_simple_mode_witness:
  "rowsInRange sampleTranslator
   \<and> databaseCalls (findTerms sampleTranslator ModeSimple ''ab'' sampleOptions) =
       [FindTermMetaBulk [''ab'']
          [(''F'', \<lparr>dd_index = 2, dd_priority = 0, dd_allowSecondarySearches = False\<rparr>)]]
   \<and> (\<exists>r. returned (findTerms sampleTranslator ModeSimple ''ab'' sampleOptions) = Inr r
          \<and> list_all tagsCleared (ftr_dictionaryEntries r)
          \<and> map (length \<circ> pronunciations) (ftr_dictionaryEntries r) = [2, 2])
   \<and> filter isTagMetaLookup
         (databaseCalls (findTerms sampleTranslator ModeSplit ''ab'' sampleOptions)) =
       [FindTagMetaBulk
          [(''P'', ''D''), (''n'', ''D''), (''t'', ''F''), (''u'', ''F''), (''P'', ''E''),
           (''n'', ''E'')]]"
proof -
  have split: "filter isTagMetaLookup
         (databaseCalls (findTerms sampleTranslator ModeSplit ''ab'' sampleOptions)) =
       [FindTagMetaBulk
          [(''P'', ''D''), (''n'', ''D''), (''t'', ''F''), (''u'', ''F''), (''P'', ''E''),
           (''n'', ''E'')]]"
    by code_simp
  have range: "rowsInRange sampleTranslator"
    by (auto simp add: rowsInRange_def sampleTranslator_def sampleTermMetaBulk_def list_all_iff)
  have calls: "databaseCalls (findTerms sampleTranslator ModeSimple ''ab'' sampleOptions) =
       [FindTermMetaBulk [''ab'']
          [(''F'', \<lparr>dd_index = 2, dd_priority = 0, dd_allowSecondarySearches = False\<rparr>)]]"
    by code_simp
  have count: "map_sum id (map (length \<circ> pronunciations) \<circ> ftr_dictionaryEntries)
                 (returned (findTerms sampleTranslator ModeSimple ''ab'' sampleOptions)) = Inr [2, 2]"
    by code_simp
  note t = findTerms_simple_mode[of sampleTranslator "''ab''" sampleOptions]
  from t range obtain r where
    r: "returned (findTerms sampleTranslator ModeSimple ''ab'' sampleOptions) = Inr r"
    by blast
  from t r have cleared: "list_all tagsCleared (ftr_dictionaryEntries r)" by blast
  from count have len: "map (length \<circ> pronunciations) (ftr_dictionaryEntries r) = [2, 2]"
    unfolding r by simp
  show ?thesis by (intro conjI exI[of _ r]) (fact range calls r cleared len split)+
qed

section \<open>The original text length of the lookup\<close>

lemma addTermMeta_returns:
  assumes "rowsInRange tr"
  shows "\<exists>es'. snd (addTermMeta tr es m) = Inr es'"
proof -
  from assms have "list_all (\<lambda>row. tm_index row < length (map snd (collectTargets es)))
     (tr_findTermMetaBulk tr (map fst (collectTargets es)) m)"
    unfolding rowsInRange_def
    using allE[of _ "map fst (collectTargets es)"] by (metis length_map)
  from applyTermMetas_returns[OF this] obtain es1 where
    "applyTermMetas (tr_convertStringToNumber tr) m (map snd (collectTargets es))
       (tr_findTermMetaBulk tr (map fst (collectTargets es)) m) es = Inr es1"
    by blast
  then show ?thesis by (simp add: addTermMeta_def Let_def)
qed

lemma addMetaAndTags_returns:
  assumes "rowsInRange tr"
  shows "\<exists>es'. snd (snd (addMetaAndTags tr mode options es)) = Inr es'"
proof (cases "mode = ModeSimple")
  case True
  then show ?thesis using addMetaAndTags_simple_returns[OF assms] by simp
next
  case False
  from addTermMeta_returns[OF assms] obtain es1 where
    "snd (addTermMeta tr es (opt_enabledDictionaryMap options)) = Inr es1" by blast
  then show ?thesis using False by (simp add: addMetaAndTags_def split_beta)
qed

lemma findTerms_returned_length:
  assumes "findTermsInternal (opt_removeNonJapaneseCharacters options)
             (tr_getJapaneseOnlyText tr)
             (\<lambda>t. tr_getDeinflections tr t (opt_enabledDictionaryMap options) options)
             text (opt_enabledDictionaryMap options) = Inr found"
    and "returned (findTerms tr mode text options) = Inr r"
  shows "ftr_originalTextLength r = ft_originalTextLength found"
  using assms
  by (auto simp add: findTerms_def returned_def split_beta Let_def split: sum.splits)

lemma findTerms_returns:
  assumes "rowsInRange tr" and "mode = ModeSimple \<or> mode = ModeSplit"
  shows "\<exists>r. returned (findTerms tr mode text options) = Inr r"
proof -
  obtain found where f:
    "findTermsInternal (opt_removeNonJapaneseCharacters options)
       (tr_getJapaneseOnlyText tr)
       (\<lambda>t. tr_getDeinflections tr t (opt_enabledDictionaryMap options) options)
       text (opt_enabledDictionaryMap options) = Inr found"
    using findTermsInternal_returns by blast
  have g: "groupByMode tr mode options found = Inr (ft_dictionaryEntries found)"
    using assms(2) by (auto simp add: groupByMode_def)
  let ?remaining = "case opt_excludeDictionaryDefinitions options of
                      None \<Rightarrow> ft_dictionaryEntries found
                    | Some excludeDictionaryDefinitions \<Rightarrow>
                        removeExcludedDefinitions (ft_dictionaryEntries found)
                          excludeDictionaryDefinitions"
  from addMetaAndTags_returns[OF assms(1)] obtain es where
    "snd (snd (addMetaAndTags tr mode options ?remaining)) = Inr es" by blast
  then show ?thesis
    by (simp add: findTerms_def returned_def f g split_beta Let_def)
qed

text \<open>
  Claim C4. Whenever \<^verbatim>\<open>findTerms\<close> returns, in any mode, the original text length of its
  result is the one \<^verbatim>\<open>_findTermsInternal\<close> computed: 0 when the filtered text is empty, and
  otherwise the largest length of the original text over the candidates that have at
  least one database entry and were not made by dictionary deinflection (0 when there is
  no such candidate). \<^verbatim>\<open>_findTermsInternal\<close> itself always returns with that length, and
  \<^verbatim>\<open>findTerms\<close> returns in the modes \<^verbatim>\<open>'simple'\<close> and \<^verbatim>\<open>'split'\<close> when the rows of the
  database carry positions of the list of terms they were asked for.
\<close>

theorem findTerms_originalTextLength:
  "(\<forall>r. returned (findTerms tr mode text options) = Inr r
         \<longrightarrow> ftr_originalTextLength r =
               (if (if opt_removeNonJapaneseCharacters options
                    then tr_getJapaneseOnlyText tr text else text) = [] then 0
                else Max (set (0 # countedLengths
                       (tr_getDeinflections tr
                          (if opt_removeNonJapaneseCharacters options
                           then tr_getJapaneseOnlyText tr text else text)
                          (opt_enabledDictionaryMap options) options)))))
   \<and> (\<exists>found.
         findTermsInternal (opt_removeNonJapaneseCharacters options)
           (tr_getJapaneseOnlyText tr)
           (\<lambda>t. tr_getDeinflections tr t (opt_enabledDictionaryMap options) options)
           text (opt_enabledDictionaryMap options) = Inr found
         \<and> ft_originalTextLength found =
               (if (if opt_removeNonJapaneseCharacters options
                    then tr_getJapaneseOnlyText tr text else text) = [] then 0
                else Max (set (0 # countedLengths
                       (tr_getDeinflections tr
                          (if opt_removeNonJapaneseCharacters options
                           then tr_getJapaneseOnlyText tr text else text)
                          (opt_enabledDictionaryMap options) options)))))
   \<and> (rowsInRange tr \<and> (mode = ModeSimple \<or> mode = ModeSplit)
        \<longrightarrow> (\<exists>r. returned (findTerms tr mode text options) = Inr r))"
proof -
  let ?expected = "if (if opt_removeNonJapaneseCharacters options
                    then tr_getJapaneseOnlyText tr text else text) = [] then 0
                else Max (set (0 # countedLengths
                       (tr_getDeinflections tr
                          (if opt_removeNonJapaneseCharacters options
                           then tr_getJapaneseOnlyText tr text else text)
                          (opt_enabledDictionaryMap options) options)))"
  from findTermsInternal_length
    [of "opt_removeNonJapaneseCharacters options" "tr_getJapaneseOnlyText tr"
        "\<lambda>t. tr_getDeinflections tr t (opt_enabledDictionaryMap options) options"
        "text" "opt_enabledDictionaryMap options"]
  obtain found where
    f: "findTermsInternal (opt_removeNonJapaneseCharacters options)
         (tr_getJapaneseOnlyText tr)
         (\<lambda>t. tr_getDeinflections tr t (opt_enabledDictionaryMap options) options)
         text (opt_enabledDictionaryMap options) = Inr found"
    and l: "ft_originalTextLength found = ?expected"
    by blast
  have 1: "\<forall>r. returned (findTerms tr mode text options) = Inr r
              \<longrightarrow> ftr_originalTextLength r = ?expected"
    using findTerms_returned_length[OF f] l by simp
  have 2: "\<exists>found.
         findTermsInternal (opt_removeNonJapaneseCharacters options)
           (tr_getJapaneseOnlyText tr)
           (\<lambda>t. tr_getDeinflections tr t (opt_enabledDictionaryMap options) options)
           text (opt_enabledDictionaryMap options) = Inr found
         \<and> ft_originalTextLength found = ?expected"
    using f l by blast
  have 3: "rowsInRange tr \<and> (mode = ModeSimple \<or> mode = ModeSplit)
        \<longrightarrow> (\<exists>r. returned (findTerms tr mode text options) = Inr r)"
    using findTerms_returns by blast
  show ?thesis by (intro conjI) (fact 1 2 3)+
qed

text \<open>The theorem at the sample translator with the three sample candidates, for the text
  \<^verbatim>\<open>abcde\<close> in the mode \<^verbatim>\<open>'split'\<close>: \<^verbatim>\<open>findTerms\<close> returns the original text length 2. The
  candidate without database entries (length 5) and the candidate of dictionary
  deinflection (length 4) do not count.\<close>

theorem findTerms_originalTextLength_witness:
  "rowsInRange lengthTranslator
   \<and> map (length \<circ> dfl_originalText) (tr_getDeinflections lengthTranslator ''abcde''
          (opt_enabledDictionaryMap sampleOptions) sampleOptions) = [5, 2, 4]
   \<and> (\<exists>r. returned (findTerms lengthTranslator ModeSplit ''abcde'' sampleOptions) = Inr r
          \<and> ftr_originalTextLength r = 2)"
proof -
  have range: "rowsInRange lengthTranslator"
    by (auto simp add: rowsInRange_def lengthTranslator_def sampleTranslator_def
        sampleTermMetaBulk_def list_all_iff)
  have cands: "tr_getDeinflections lengthTranslator ''abcde''
          (opt_enabledDictionaryMap sampleOptions) sampleOptions = sampleDeinflections ''abcde''"
    by (simp add: lengthTranslator_def)
  have lens: "map (length \<circ> dfl_originalText) (tr_getDeinflections lengthTranslator ''abcde''
          (opt_enabledDictionaryMap sampleOptions) sampleOptions) = [5, 2, 4]"
    unfolding cands
    by (simp add: sampleDeinflections_def noHitCandidate_def algorithmCandidate_def
        dictionaryCandidate_def)
  have c: "countedLengths (sampleDeinflections ''abcde'') = [2]"
    by (simp add: countedLengths_def sampleDeinflections_def noHitCandidate_def
        algorithmCandidate_def dictionaryCandidate_def)
  have nofilter: "\<not> opt_removeNonJapaneseCharacters sampleOptions"
    by (simp add: sampleOptions_def)
  note t = findTerms_originalTextLength[of lengthTranslator ModeSplit "''abcde''" sampleOptions]
  from t range obtain r where
    r: "returned (findTerms lengthTranslator ModeSplit ''abcde'' sampleOptions) = Inr r"
    by blast
  from t r have "ftr_originalTextLength r =
               (if (if opt_removeNonJapaneseCharacters sampleOptions
                    then tr_getJapaneseOnlyText lengthTranslator ''abcde'' else ''abcde'') = []
                then 0
                else Max (set (0 # countedLengths
                       (tr_getDeinflections lengthTranslator
                          (if opt_removeNonJapaneseCharacters sampleOptions
                           then tr_getJapaneseOnlyText lengthTranslator ''abcde'' else ''abcde'')
                          (opt_enabledDictionaryMap sampleOptions) sampleOptions))))"
    by blast
  then have len: "ftr_originalTextLength r = 2"
    using nofilter by (simp add: cands c)
  show ?thesis by (intro conjI exI[of _ r]) (fact range lens r len)+
qed

end
